(* ===== verification/Prelude.thy ===== *)
theory Prelude
  imports Main "HOL-Library.Word" "HOL-Library.Sublist"
begin

text \<open>
  The vocabulary the component theories share.

  Diffingo and the code it generates run on a 64-bit little-endian machine (the runtime headers
  refuse to compile on a big-endian one).  Addresses, \<^verbatim>\<open>size_t\<close> and
  \<^verbatim>\<open>ptrdiff_t\<close> are therefore 64-bit words, a \<^verbatim>\<open>char\<close> is an 8-bit word,
  and the store is a total function from addresses to bytes.  The theory also holds the generic
  facts on byte lists, words and stores, and the collections the component proofs draw on.
\<close>

unbundle bit_operations_syntax

named_theorems store_simps \<open>reading a store after it was written\<close>
named_theorems runtime_defs \<open>definitions of the runtime's primitives\<close>

type_synonym byte = "8 word"
type_synonym addr = "64 word"
type_synonym size_t = "64 word"
type_synonym mem = "addr \<Rightarrow> byte"

lemma unat64_less [simp]: "unat (n :: 64 word) < 2 ^ 64"
  using unsigned_less[of n, where ?'a = nat] by simp

lemma unat_word_of_int64:
  assumes "0 \<le> k" "k < 2 ^ 64"
  shows "unat (word_of_int k :: 64 word) = nat k"
proof -
  obtain j where k: "k = int j" using assms(1) nonneg_int_cases by blast
  with assms(2) have "j < 2 ^ 64" by simp
  then show ?thesis by (simp add: k unat_of_nat)
qed

lemma sint_uint_cases:
  "sint (w :: 'a::len word) = (if 2 * uint w \<ge> 2 ^ LENGTH('a) then uint w - 2 ^ LENGTH('a) else uint w)"
proof -
  obtain n where n: "LENGTH('a) = Suc n" using len_gt_0[where 'a = 'a] by (cases "LENGTH('a)") auto
  have u: "0 \<le> uint w" "uint w < 2 ^ Suc n" using uint_bounded[of w] n by simp_all
  have "bit (uint w) n \<longleftrightarrow> 2 ^ n \<le> uint w"
  proof (cases "2 ^ n \<le> uint w")
    case True
    then have "uint w div 2 ^ n = 1" using u by (intro int_div_pos_eq[of _ _ _ "uint w - 2 ^ n"]) simp_all
    then show ?thesis using True by (simp add: bit_iff_odd)
  qed (use u in \<open>simp add: bit_iff_odd\<close>)
  then show ?thesis
    using u by (simp add: sint_uint n signed_take_bit_eq_take_bit_minus take_bit_int_eq_self)
qed

section \<open>Byte lists as little-endian words\<close>

primrec word_of_le :: "byte list \<Rightarrow> 'a::len word" where
  "word_of_le [] = 0"
| "word_of_le (b # bs) = ucast b OR push_bit 8 (word_of_le bs)"

primrec le_of_word :: "nat \<Rightarrow> 'a::len word \<Rightarrow> byte list" where
  "le_of_word 0 w = []"
| "le_of_word (Suc n) w = ucast w # le_of_word n (drop_bit 8 w)"

definition sizeof :: "'a::len itself \<Rightarrow> nat" where
  "sizeof T = LENGTH('a) div 8"

lemma sizeof_simps [simp]:
  "sizeof TYPE(8) = 1" "sizeof TYPE(16) = 2" "sizeof TYPE(32) = 4" "sizeof TYPE(64) = 8"
  by (simp_all add: sizeof_def)

lemma length_le_of_word [simp]: "length (le_of_word n w) = n"
  by (induction n arbitrary: w) simp_all

lemma bit_word_of_le:
  "bit (word_of_le bs :: 'a::len word) i \<longleftrightarrow>
     i < LENGTH('a) \<and> i < 8 * length bs \<and> bit (bs ! (i div 8)) (i mod 8)"
proof (induction bs arbitrary: i)
  case (Cons b bs)
  show ?case
  proof (cases "i < 8")
    case True
    then show ?thesis by (auto simp: bit_simps)
  next
    case False
    then obtain k where "i = k + 8" using le_Suc_ex by (metis add.commute not_less)
    moreover have "(k + 8) div 8 = Suc (k div 8)" by simp
    ultimately show ?thesis
      using Cons.IH[of k] by (auto simp: bit_simps dest: bit_imp_le_length)
  qed
qed simp

lemma nth_le_of_word: "i < n \<Longrightarrow> le_of_word n w ! i = ucast (drop_bit (8 * i) w)"
proof (induction n arbitrary: i w)
  case (Suc n)
  then show ?case by (cases i) (simp_all add: add.commute)
qed simp

lemma word_of_le_of_word:
  "LENGTH('a) \<le> 8 * n \<Longrightarrow> word_of_le (le_of_word n w) = (w :: 'a::len word)"
proof (rule bit_word_eqI)
  fix i assume "LENGTH('a) \<le> 8 * n" and i: "i < LENGTH('a)"
  then have "i div 8 < n" by linarith
  with i \<open>LENGTH('a) \<le> 8 * n\<close>
  show "bit (word_of_le (le_of_word n w) :: 'a word) i \<longleftrightarrow> bit w i"
    by (simp add: bit_word_of_le nth_le_of_word bit_simps)
qed

lemma le_of_word_of_le:
  assumes "8 * length bs \<le> LENGTH('a::len)"
  shows "le_of_word (length bs) (word_of_le bs :: 'a word) = bs"
proof (rule nth_equalityI)
  fix k assume "k < length (le_of_word (length bs) (word_of_le bs :: 'a word))"
  then have k: "k < length bs" by simp
  show "le_of_word (length bs) (word_of_le bs :: 'a word) ! k = bs ! k"
  proof (rule bit_word_eqI)
    fix i assume "i < LENGTH(8)"
    then have "(8 * k + i) div 8 = k" "(8 * k + i) mod 8 = i" "8 * k + i < 8 * length bs"
      using k by auto
    with assms k \<open>i < LENGTH(8)\<close>
    show "bit (le_of_word (length bs) (word_of_le bs :: 'a word) ! k) i \<longleftrightarrow> bit (bs ! k) i"
      by (simp add: nth_le_of_word bit_simps bit_word_of_le add.commute)
  qed
qed simp

text \<open>The value of a byte string read with the most significant byte first.\<close>

definition word_of_be :: "byte list \<Rightarrow> 'a::len word" where
  "word_of_be bs = word_of_le (rev bs)"

definition be_of_word :: "nat \<Rightarrow> 'a::len word \<Rightarrow> byte list" where
  "be_of_word n w = rev (le_of_word n w)"

lemma length_be_of_word [simp]: "length (be_of_word n w) = n"
  by (simp add: be_of_word_def)

lemma word_of_be_of_word:
  "LENGTH('a) \<le> 8 * n \<Longrightarrow> word_of_be (be_of_word n w) = (w :: 'a::len word)"
  by (simp add: word_of_be_def be_of_word_def word_of_le_of_word)

lemma be_of_word_of_be:
  assumes "8 * length bs \<le> LENGTH('a::len)"
  shows "be_of_word (length bs) (word_of_be bs :: 'a word) = bs"
  using le_of_word_of_le[of "rev bs", where 'a = 'a] assms
  by (simp add: word_of_be_def be_of_word_def)

end
