(* ===== verification/Memory.thy ===== *)
theory Memory
  imports Prelude
begin

text \<open>
  The byte store the generated parsers and serializers run on.

  \<open>load_bytes\<close> and \<open>store_bytes\<close> model \<^verbatim>\<open>memcpy\<close> between disjoint objects;
  \<open>load_word\<close> and \<open>store_word\<close> model reads and writes through a
  \<^verbatim>\<open>reinterpret_cast\<close> pointer on a little-endian machine.  Addresses wrap around at
  \<open>2 ^ 64\<close>; two ranges are disjoint when no offset of one meets an offset of the other.
\<close>

definition load_bytes :: "mem \<Rightarrow> addr \<Rightarrow> nat \<Rightarrow> byte list" where
  "load_bytes m a n = map (\<lambda>i. m (a + of_nat i)) [0..<n]"

primrec store_bytes :: "mem \<Rightarrow> addr \<Rightarrow> byte list \<Rightarrow> mem" where
  "store_bytes m a [] = m"
| "store_bytes m a (b # bs) = store_bytes (m(a := b)) (a + 1) bs"

definition load_word :: "mem \<Rightarrow> addr \<Rightarrow> 'a::len word" where
  "load_word m a = word_of_le (load_bytes m a (sizeof TYPE('a)))"

definition store_word :: "mem \<Rightarrow> addr \<Rightarrow> 'a::len word \<Rightarrow> mem" where
  "store_word m a w = store_bytes m a (le_of_word (sizeof TYPE('a)) w)"

definition memcpy :: "mem \<Rightarrow> addr \<Rightarrow> addr \<Rightarrow> size_t \<Rightarrow> mem" where
  "memcpy m dst src len = store_bytes m dst (load_bytes m src (unat len))"

definition range_of :: "addr \<Rightarrow> nat \<Rightarrow> addr set" where
  "range_of a n = (\<lambda>i. a + of_nat i) ` {..<n}"

definition disjoint_ranges :: "addr \<Rightarrow> nat \<Rightarrow> addr \<Rightarrow> nat \<Rightarrow> bool" where
  "disjoint_ranges a n b k \<longleftrightarrow> range_of a n \<inter> range_of b k = {}"

lemma disjoint_rangesI:
  "unat a + n \<le> unat b \<Longrightarrow> unat b + k \<le> 2 ^ 64 \<Longrightarrow> disjoint_ranges a n b k"
proof -
  assume ab: "unat a + n \<le> unat b" and bk: "unat b + k \<le> 2 ^ 64"
  have "a + of_nat i \<noteq> b + of_nat j" if "i < n" "j < k" for i j
  proof
    assume "a + of_nat i = b + of_nat j"
    then have "unat (a + of_nat i) = unat (b + of_nat j)" by simp
    moreover have "unat (a + of_nat i) = unat a + i"
      using that ab bk by (subst unat_add_lem [THEN iffD1]) (auto simp: unat_of_nat)
    moreover have "unat (b + of_nat j) = unat b + j"
      using that ab bk by (subst unat_add_lem [THEN iffD1]) (auto simp: unat_of_nat)
    ultimately show False using that ab by linarith
  qed
  then show ?thesis by (auto simp: disjoint_ranges_def range_of_def)
qed

lemma disjoint_ranges_sym: "disjoint_ranges a n b k \<longleftrightarrow> disjoint_ranges b k a n"
  by (auto simp: disjoint_ranges_def)

lemma length_load_bytes [simp]: "length (load_bytes m a n) = n"
  by (simp add: load_bytes_def)

lemma nth_load_bytes [simp]: "i < n \<Longrightarrow> load_bytes m a n ! i = m (a + of_nat i)"
  by (simp add: load_bytes_def)

lemma range_of_0 [simp]: "range_of a 0 = {}"
  by (simp add: range_of_def)

lemma range_of_Suc: "range_of a (Suc n) = insert a (range_of (a + 1) n)"
proof -
  have "{..<Suc n} = insert 0 (Suc ` {..<n})" by (auto simp: image_iff less_Suc_eq_0_disj)
  then show ?thesis by (simp add: range_of_def image_image add.assoc)
qed

lemma range_of_add: "range_of a (n + k) = range_of a n \<union> range_of (a + of_nat n) k"
  by (induction n arbitrary: a) (auto simp: range_of_Suc algebra_simps)

lemma range_of_mono: "n \<le> k \<Longrightarrow> range_of a n \<subseteq> range_of a k"
  by (auto simp: range_of_def)

lemma disjoint_prefix: "n + k \<le> 2 ^ 64 \<Longrightarrow> range_of a n \<inter> range_of (a + of_nat n) k = {}"
proof -
  assume nk: "n + k \<le> 2 ^ 64"
  have "(of_nat i :: addr) \<noteq> of_nat n + of_nat j" if "i < n" "j < k" for i j
  proof
    assume "(of_nat i :: addr) = of_nat n + of_nat j"
    then have "unat (of_nat i :: addr) = unat (of_nat (n + j) :: addr)" by simp
    then show False using that nk by (simp only: unat_of_nat) simp
  qed
  then show ?thesis by (auto simp: range_of_def add.assoc)
qed

lemma mem_range_of: "x \<in> range_of a n \<longleftrightarrow> (\<exists>i<n. x = a + of_nat i)"
  by (auto simp: range_of_def)

lemma store_bytes_outside [store_simps]:
  "x \<notin> range_of a (length bs) \<Longrightarrow> store_bytes m a bs x = m x"
  by (induction bs arbitrary: m a) (auto simp: range_of_Suc)

lemma store_bytes_changed: "store_bytes m a bs x \<noteq> m x \<Longrightarrow> x \<in> range_of a (length bs)"
  using store_bytes_outside by blast

lemma store_bytes_inside:
  "length bs \<le> 2 ^ 64 \<Longrightarrow> i < length bs \<Longrightarrow> store_bytes m a bs (a + of_nat i) = bs ! i"
proof (induction bs arbitrary: m a i)
  case (Cons b bs)
  show ?case
  proof (cases i)
    case 0
    have "a \<notin> range_of (a + 1) (length bs)"
    proof
      assume "a \<in> range_of (a + 1) (length bs)"
      then obtain j where j: "j < length bs" and "a = a + 1 + of_nat j" by (auto simp: mem_range_of)
      then have "(of_nat (Suc j) :: addr) = 0" by (simp add: algebra_simps)
      then have "(2::nat) ^ 64 dvd Suc j" by (simp only: word_of_nat_eq_0_iff) simp
      with j Cons.prems(1) show False by (auto dest: dvd_imp_le)
    qed
    then show ?thesis using 0 by (simp add: store_bytes_outside)
  next
    case (Suc j)
    have "store_bytes (m(a := b)) (a + 1) bs (a + 1 + of_nat j) = bs ! j"
      using Cons Suc by simp
    then show ?thesis using Suc by (simp add: algebra_simps)
  qed
qed simp

lemma load_store_same [store_simps]:
  "length bs = n \<Longrightarrow> n \<le> 2 ^ 64 \<Longrightarrow> load_bytes (store_bytes m a bs) a n = bs"
  by (rule nth_equalityI) (auto simp: store_bytes_inside)

lemma load_store_disjoint [store_simps]:
  "disjoint_ranges a n b (length bs) \<Longrightarrow> load_bytes (store_bytes m b bs) a n = load_bytes m a n"
proof (rule nth_equalityI)
  fix i assume "disjoint_ranges a n b (length bs)" "i < length (load_bytes (store_bytes m b bs) a n)"
  then have "i < n" "a + of_nat i \<notin> range_of b (length bs)"
    by (auto simp: disjoint_ranges_def range_of_def)
  then show "load_bytes (store_bytes m b bs) a n ! i = load_bytes m a n ! i"
    by (simp add: store_bytes_outside)
qed simp

lemma load_bytes_cong:
  "(\<And>x. x \<in> range_of a n \<Longrightarrow> m x = m' x) \<Longrightarrow> load_bytes m a n = load_bytes m' a n"
  by (auto simp: load_bytes_def range_of_def)

lemma load_bytes_append:
  "load_bytes m a (n + k) = load_bytes m a n @ load_bytes m (a + of_nat n) k"
  by (rule nth_equalityI) (auto simp: nth_append algebra_simps)

lemma load_bytes_0 [simp]: "load_bytes m a 0 = []"
  by (simp add: load_bytes_def)

lemma load_bytes_Suc: "load_bytes m a (Suc n) = m a # load_bytes m (a + 1) n"
  using load_bytes_append[of m a 1 n] by (simp add: load_bytes_def)

lemma store_bytes_append:
  "store_bytes m a (bs @ cs) = store_bytes (store_bytes m a bs) (a + of_nat (length bs)) cs"
  by (induction bs arbitrary: m a) (simp_all add: algebra_simps)

text \<open>Whole machine words: a width that is a multiple of eight bits survives the trip through
  the store in both directions.\<close>

definition byte_sized :: "'a::len itself \<Rightarrow> bool" where
  "byte_sized T \<longleftrightarrow> LENGTH('a) = 8 * sizeof TYPE('a) \<and> sizeof TYPE('a) < 2 ^ 64"

lemma byte_sized_simps [simp]:
  "byte_sized TYPE(8)" "byte_sized TYPE(16)" "byte_sized TYPE(32)" "byte_sized TYPE(64)"
  by (simp_all add: byte_sized_def)

lemma load_store_word [store_simps]:
  "byte_sized TYPE('a) \<Longrightarrow> load_word (store_word m a w) a = (w :: 'a::len word)"
  by (simp add: load_word_def store_word_def load_store_same word_of_le_of_word byte_sized_def)

lemma le_of_load_word:
  "byte_sized TYPE('a) \<Longrightarrow>
     le_of_word (sizeof TYPE('a)) (load_word m a :: 'a::len word) = load_bytes m a (sizeof TYPE('a))"
  using le_of_word_of_le[of "load_bytes m a (sizeof TYPE('a))", where 'a = 'a]
  by (simp add: load_word_def byte_sized_def)

lemma load_bytes_store_word [store_simps]:
  "byte_sized TYPE('a) \<Longrightarrow>
     load_bytes (store_word m a (w :: 'a::len word)) a (sizeof TYPE('a)) = le_of_word (sizeof TYPE('a)) w"
  by (simp add: store_word_def load_store_same byte_sized_def)

lemma load_bytes_store_word_disjoint [store_simps]:
  "disjoint_ranges a n b (sizeof TYPE('a)) \<Longrightarrow>
     load_bytes (store_word m b (w :: 'a::len word)) a n = load_bytes m a n"
  by (simp add: store_word_def load_store_disjoint)

lemma store_word_outside [store_simps]:
  "x \<notin> range_of a (sizeof TYPE('a)) \<Longrightarrow> store_word m a (w :: 'a::len word) x = m x"
  by (simp add: store_word_def store_bytes_outside)

lemma memcpy_outside [store_simps]: "x \<notin> range_of a (unat n) \<Longrightarrow> memcpy m a b n x = m x"
  by (simp add: memcpy_def store_bytes_outside)

lemma memcpy_changed: "memcpy m a b n x \<noteq> m x \<Longrightarrow> x \<in> range_of a (unat n)"
  using memcpy_outside by blast

lemma load_bytes_memcpy [store_simps]:
  "load_bytes (memcpy m a b n) a (unat n) = load_bytes m b (unat n)"
  using unat64_less[of n] by (simp add: memcpy_def load_store_same)

lemma load_bytes_memcpy_disjoint [store_simps]:
  "disjoint_ranges c k a (unat n) \<Longrightarrow> load_bytes (memcpy m a b n) c k = load_bytes m c k"
  by (simp add: memcpy_def load_store_disjoint)

end
