(* ===== verification/Allocator.thy ===== *)
theory Allocator
  imports Memory
begin

text \<open>
  The interface a parser relies on when it asks for room for a parsed value: an allocator hands
  out address ranges of an arena, never the same byte twice, and changes nothing when it refuses.
  The lemmas of the locale follow a whole sequence of requests.
\<close>

fun alloc_blocks ::
  "('a \<Rightarrow> size_t \<Rightarrow> addr \<Rightarrow> bool \<times> addr \<times> 'a) \<Rightarrow> 'a \<Rightarrow> size_t list \<Rightarrow> (addr \<times> size_t) list \<times> 'a" where
  "alloc_blocks f a [] = ([], a)"
| "alloc_blocks f a (n # ns) =
     (case f a n 0 of (ok, q, a') \<Rightarrow>
        (case alloc_blocks f a' ns of (bs, a'') \<Rightarrow> (if ok then (q, n) # bs else bs, a'')))"

definition block_range :: "addr \<times> size_t \<Rightarrow> addr set" where
  "block_range b = range_of (fst b) (unat (snd b))"

definition blocks_disjoint :: "(addr \<times> size_t) list \<Rightarrow> bool" where
  "blocks_disjoint bs = sorted_wrt (\<lambda>b c. block_range b \<inter> block_range c = {}) bs"

definition blocks_range :: "(addr \<times> size_t) list \<Rightarrow> addr set" where
  "blocks_range bs = (\<Union>b\<in>set bs. block_range b)"

lemma blocks_disjoint_simps [simp]:
  "blocks_disjoint []"
  "blocks_disjoint (b # bs) \<longleftrightarrow> block_range b \<inter> blocks_range bs = {} \<and> blocks_disjoint bs"
  by (auto simp: blocks_disjoint_def blocks_range_def)

lemma blocks_range_simps [simp]:
  "blocks_range [] = {}" "blocks_range (b # bs) = block_range b \<union> blocks_range bs"
  by (simp_all add: blocks_range_def)

locale allocator =
  fixes alloc :: "'a \<Rightarrow> size_t \<Rightarrow> addr \<Rightarrow> bool \<times> addr \<times> 'a"
    and wf_area :: "'a \<Rightarrow> bool"
    and used :: "'a \<Rightarrow> addr set"
    and arena :: "'a \<Rightarrow> addr set"
  assumes used_in_arena: "wf_area a \<Longrightarrow> used a \<subseteq> arena a"
    and alloc_wf: "wf_area a \<Longrightarrow> alloc a n p = (ok, q, a') \<Longrightarrow> wf_area a'"
    and alloc_arena: "wf_area a \<Longrightarrow> alloc a n p = (ok, q, a') \<Longrightarrow> arena a' = arena a"
    and alloc_used: "wf_area a \<Longrightarrow> alloc a n p = (True, q, a') \<Longrightarrow>
                       used a' = used a \<union> range_of q (unat n)"
    and alloc_fresh: "wf_area a \<Longrightarrow> alloc a n p = (True, q, a') \<Longrightarrow>
                        used a \<inter> range_of q (unat n) = {}"
    and alloc_refused: "alloc a n p = (False, q, a') \<Longrightarrow> a' = a \<and> q = p"
begin

lemma alloc_in_arena:
  "wf_area a \<Longrightarrow> alloc a n p = (True, q, a') \<Longrightarrow> range_of q (unat n) \<subseteq> arena a"
  using used_in_arena[of a'] alloc_used[of a n p q a'] alloc_wf[of a n p True q a']
    alloc_arena[of a n p True q a'] by simp

lemma blocks_wf:
  "wf_area a \<Longrightarrow> alloc_blocks alloc a ns = (bs, a') \<Longrightarrow> wf_area a' \<and> arena a' = arena a"
proof (induction ns arbitrary: a bs a')
  case (Cons n ns)
  obtain ok q b where 1: "alloc a n 0 = (ok, q, b)" by (cases "alloc a n 0") auto
  obtain cs c where 2: "alloc_blocks alloc b ns = (cs, c)" by fastforce
  from Cons.IH[OF _ 2] alloc_wf[OF _ 1] alloc_arena[OF _ 1] Cons.prems show ?case
    by (auto simp: 1 2)
qed simp

lemma blocks_used:
  "wf_area a \<Longrightarrow> alloc_blocks alloc a ns = (bs, a') \<Longrightarrow>
     used a' = used a \<union> blocks_range bs \<and> used a \<inter> blocks_range bs = {} \<and> blocks_disjoint bs"
proof (induction ns arbitrary: a bs a')
  case (Cons n ns)
  obtain ok q b where 1: "alloc a n 0 = (ok, q, b)" by (cases "alloc a n 0") auto
  obtain cs c where 2: "alloc_blocks alloc b ns = (cs, c)" by fastforce
  have wf: "wf_area b" using alloc_wf[OF Cons.prems(1) 1] .
  have IH: "used c = used b \<union> blocks_range cs \<and> used b \<inter> blocks_range cs = {} \<and> blocks_disjoint cs"
    using Cons.IH[OF wf 2] .
  show ?case
  proof (cases ok)
    case True
    with 1 have 3: "alloc a n 0 = (True, q, b)" by simp
    show ?thesis
      using IH alloc_used[OF Cons.prems(1) 3] alloc_fresh[OF Cons.prems(1) 3] Cons.prems(2) True
      by (auto simp: 1 2 block_range_def)
  next
    case False
    with 1 alloc_refused[of a n 0 q b] have "b = a" by simp
    moreover from Cons.prems(2) False have "bs = cs" "a' = c" by (simp_all add: 1 2)
    ultimately show ?thesis using IH by simp
  qed
qed simp

lemma blocks_in_arena:
  "wf_area a \<Longrightarrow> alloc_blocks alloc a ns = (bs, a') \<Longrightarrow> blocks_range bs \<subseteq> arena a"
  using blocks_used blocks_wf used_in_arena by blast

end

end
