(* ===== verification/Unit_Area.thy ===== *)
theory Unit_Area
  imports Allocator
begin

text \<open>
  \<^verbatim>\<open>runtime/unit/unit_area.h\<close>: the bump allocator a parsed unit and its variable-length
  parts live in.  The object itself sits at the front of its buffer (\<open>area_this\<close>) and its
  16 bytes are followed by the contents it manages.  All arithmetic is on 64-bit words, so the
  unsigned wrap-around of the constructor and of \<open>space\<close> is the machine's.  An \<^verbatim>\<open>assert\<close>
  that fails is \<^const>\<open>None\<close>.
\<close>

record unit_area =
  area_this :: addr
  nextAllocPos :: addr
  area_size' :: size_t

definition sizeof_UnitArea :: size_t where
  "sizeof_UnitArea = 16"

definition contents :: "unit_area \<Rightarrow> addr" where
  "contents ua = area_this ua + sizeof_UnitArea"

definition UnitArea :: "addr \<Rightarrow> size_t \<Rightarrow> unit_area" where
  "UnitArea base bufferSize =
     \<lparr> area_this = base, nextAllocPos = base + sizeof_UnitArea,
       area_size' = bufferSize - sizeof_UnitArea \<rparr>"

definition area_size :: "unit_area \<Rightarrow> size_t" where
  "area_size ua = area_size' ua"

definition allocated :: "unit_area \<Rightarrow> size_t" where
  "allocated ua = nextAllocPos ua - contents ua"

definition area_space :: "unit_area \<Rightarrow> size_t" where
  "area_space ua = area_size ua - allocated ua"

definition nextPos :: "unit_area \<Rightarrow> addr" where
  "nextPos ua = nextAllocPos ua"

definition allocate :: "unit_area \<Rightarrow> size_t \<Rightarrow> addr \<Rightarrow> bool \<times> addr \<times> unit_area" where
  "allocate ua sz pos =
     (if area_space ua < sz then (False, pos, ua)
      else (True, nextAllocPos ua, ua\<lparr> nextAllocPos := nextAllocPos ua + sz \<rparr>))"

definition allocate_item :: "unit_area \<Rightarrow> size_t \<Rightarrow> addr \<Rightarrow> bool \<times> addr \<times> unit_area" where
  "allocate_item ua sizeof_item item = allocate ua sizeof_item item"

definition moveNextPos :: "unit_area \<Rightarrow> size_t \<Rightarrow> unit_area option" where
  "moveNextPos ua sz =
     (let ua' = ua\<lparr> nextAllocPos := nextAllocPos ua + sz \<rparr>
      in if area_space ua' \<le> area_size ua' then Some ua' else None)"

definition area_reset :: "unit_area \<Rightarrow> unit_area" where
  "area_reset ua = ua\<lparr> nextAllocPos := contents ua \<rparr>"

text \<open>The buffer does not wrap around the end of the address space, and no more has been handed
  out than there is.\<close>

definition area_wf :: "unit_area \<Rightarrow> bool" where
  "area_wf ua \<longleftrightarrow> unat (area_this ua) + 16 + unat (area_size ua) \<le> 2 ^ 64 - 1
                \<and> allocated ua \<le> area_size ua"

definition area_arena :: "unit_area \<Rightarrow> addr set" where
  "area_arena ua = range_of (contents ua) (unat (area_size ua))"

definition area_used :: "unit_area \<Rightarrow> addr set" where
  "area_used ua = range_of (contents ua) (unat (allocated ua))"

lemmas area_defs [runtime_defs] =
  sizeof_UnitArea_def contents_def area_size_def allocated_def area_space_def nextPos_def
  allocate_def allocate_item_def moveNextPos_def area_reset_def UnitArea_def

lemma unat_area_space:
  "area_wf ua \<Longrightarrow> unat (area_space ua) + unat (allocated ua) = unat (area_size ua)"
  by (simp add: area_wf_def area_space_def unat_sub word_le_nat_alt)

lemma nextAllocPos_contents: "nextAllocPos ua = contents ua + allocated ua"
  by (simp add: allocated_def)

lemma unat_allocated_add:
  assumes "area_wf ua" "sz \<le> area_space ua"
  shows "unat (allocated ua + sz) = unat (allocated ua) + unat sz"
proof -
  have "unat (allocated ua) + unat sz \<le> unat (area_size ua)"
    using assms unat_area_space[of ua] by (simp add: word_le_nat_alt)
  then show ?thesis using unat64_less[of "area_size ua"] by (simp add: unat_add_lem [THEN iffD1])
qed

lemma allocate_granted:
  "allocate ua sz p = (True, q, ua') \<longleftrightarrow>
     sz \<le> area_space ua \<and> q = nextAllocPos ua \<and> ua' = ua\<lparr> nextAllocPos := nextAllocPos ua + sz \<rparr>"
  by (auto simp: allocate_def not_less)

lemma allocated_update [simp]:
  "contents (ua\<lparr> nextAllocPos := x \<rparr>) = contents ua"
  "area_size (ua\<lparr> nextAllocPos := x \<rparr>) = area_size ua"
  "allocated (ua\<lparr> nextAllocPos := nextAllocPos ua + sz \<rparr>) = allocated ua + sz"
  "allocated (ua\<lparr> nextAllocPos := contents ua + sz \<rparr>) = sz"
  by (simp_all add: contents_def area_size_def allocated_def)

lemma allocate_wf:
  assumes "area_wf ua" "allocate ua sz p = (ok, q, ua')"
  shows "area_wf ua'"
proof (cases ok)
  case True
  with assms have sz: "sz \<le> area_space ua" and ua': "ua' = ua\<lparr> nextAllocPos := nextAllocPos ua + sz \<rparr>"
    by (simp_all add: allocate_granted)
  have "unat (allocated ua + sz) \<le> unat (area_size ua)"
    using unat_allocated_add[OF assms(1) sz] unat_area_space[OF assms(1)] sz
    by (simp add: word_le_nat_alt)
  with assms(1) show ?thesis by (simp add: ua' area_wf_def word_le_nat_alt)
qed (use assms in \<open>auto simp: allocate_def split: if_splits\<close>)

interpretation ua: allocator allocate area_wf area_used area_arena
proof
  fix ua :: unit_area assume "area_wf ua"
  then show "area_used ua \<subseteq> area_arena ua"
    by (auto simp: area_wf_def area_used_def area_arena_def word_le_nat_alt dest: range_of_mono)
next
  fix ua n p ok q ua' assume "area_wf ua" "allocate ua n p = (ok, q, ua')"
  then show "area_wf ua'" by (rule allocate_wf)
next
  fix ua n p ok q ua' assume "area_wf ua" "allocate ua n p = (ok, q, ua')"
  then show "area_arena ua' = area_arena ua"
    by (auto simp: allocate_def area_arena_def split: if_splits)
next
  fix ua n p q ua' assume wf: "area_wf ua" and ok: "allocate ua n p = (True, q, ua')"
  show "area_used ua' = area_used ua \<union> range_of q (unat n)"
    using ok unat_allocated_add[OF wf, of n] nextAllocPos_contents[of ua]
    by (clarsimp simp: allocate_granted area_used_def range_of_add add.assoc)
next
  fix ua n p q ua' assume wf: "area_wf ua" and ok: "allocate ua n p = (True, q, ua')"
  then have "unat (allocated ua) + unat n \<le> 2 ^ 64"
    using unat_allocated_add[OF wf, of n] unat64_less[of "allocated ua + n"]
    by (simp add: allocate_granted)
  then show "area_used ua \<inter> range_of q (unat n) = {}"
    using ok disjoint_prefix[of "unat (allocated ua)" "unat n" "contents ua"]
    by (simp add: allocate_granted area_used_def nextAllocPos_contents)
next
  fix ua n p q ua' assume "allocate ua n p = (False, q, ua')"
  then show "ua' = ua \<and> q = p" by (auto simp: allocate_def split: if_splits)
qed

lemma UnitArea_wf:
  assumes "16 \<le> bufferSize" "unat base + unat bufferSize \<le> 2 ^ 64 - 1"
  shows "area_wf (UnitArea base bufferSize)"
    and "area_used (UnitArea base bufferSize) = {}"
    and "area_arena (UnitArea base bufferSize) = range_of (base + 16) (unat bufferSize - 16)"
proof -
  have "unat (bufferSize - 16) = unat bufferSize - 16"
    using assms(1) by (simp add: unat_sub)
  moreover have "16 \<le> unat bufferSize" using assms(1) by (simp add: word_le_nat_alt)
  ultimately show "area_wf (UnitArea base bufferSize)"
    and "area_used (UnitArea base bufferSize) = {}"
    and "area_arena (UnitArea base bufferSize) = range_of (base + 16) (unat bufferSize - 16)"
    using assms(2) by (simp_all add: area_wf_def area_used_def area_arena_def area_defs)
qed

lemma area_reset_wf:
  "area_wf ua \<Longrightarrow> area_wf (area_reset ua)"
  "area_used (area_reset ua) = {}"
  "area_space (area_reset ua) = area_size ua"
  by (simp_all add: area_wf_def area_used_def area_defs)

text \<open>C20: however many values a parser allocates from a freshly constructed unit area, and in
  whatever sizes, the granted blocks are pairwise disjoint and lie between the area's 16-byte
  header and the end of its buffer.  Refused requests do not disturb the blocks around them.\<close>

theorem unit_area_blocks_disjoint:
  assumes "16 \<le> bufferSize" "unat base + unat bufferSize \<le> 2 ^ 64 - 1"
    and "alloc_blocks allocate (UnitArea base bufferSize) ns = (bs, ua')"
  shows "blocks_disjoint bs \<and> blocks_range bs \<subseteq> range_of (base + 16) (unat bufferSize - 16)
         \<and> area_used ua' = blocks_range bs"
  using ua.blocks_used[OF UnitArea_wf(1)[OF assms(1,2)] assms(3)]
    ua.blocks_in_arena[OF UnitArea_wf(1)[OF assms(1,2)] assms(3)] UnitArea_wf[OF assms(1,2)]
  by simp

theorem unit_area_blocks_disjoint_witness:
  "alloc_blocks allocate (UnitArea 0x1000 48) [8, 40, 24] =
     ([(0x1010, 8), (0x1018, 24)], \<lparr> area_this = 0x1000, nextAllocPos = 0x1030, area_size' = 32 \<rparr>)
   \<and> blocks_disjoint [(0x1010, 8), (0x1018, 24)]"
proof -
  have run: "alloc_blocks allocate (UnitArea 0x1000 48) [8, 40, 24] =
     ([(0x1010, 8), (0x1018, 24)], \<lparr> area_this = 0x1000, nextAllocPos = 0x1030, area_size' = 32 \<rparr>)"
    by (simp add: area_defs)
  show ?thesis using unit_area_blocks_disjoint[OF _ _ run] run by simp
qed

text \<open>C23: an allocation is refused exactly when the room left is too small, where the room left is
  the size of the area less what was handed out; the granted block then uses up exactly the
  requested number of bytes, and resetting the area makes all of it available again.\<close>

theorem allocate_iff_room:
  assumes "area_wf ua"
  shows "(fst (allocate ua sz p) \<longleftrightarrow> unat sz \<le> unat (area_size ua) - unat (allocated ua))
       \<and> (\<forall>q ua'. allocate ua sz p = (True, q, ua') \<longrightarrow>
             unat (area_space ua') = unat (area_space ua) - unat sz
             \<and> area_space (area_reset ua') = area_size ua)"
proof (intro conjI allI impI)
  show "fst (allocate ua sz p) \<longleftrightarrow> unat sz \<le> unat (area_size ua) - unat (allocated ua)"
    using unat_area_space[OF assms] by (auto simp: allocate_def word_less_nat_alt)
next
  fix q ua' assume ok: "allocate ua sz p = (True, q, ua')"
  have "unat (allocated ua') = unat (allocated ua) + unat sz" "area_size ua' = area_size ua"
    using ok unat_allocated_add[OF assms] by (auto simp: allocate_granted)
  then show "unat (area_space ua') = unat (area_space ua) - unat sz"
    and "area_space (area_reset ua') = area_size ua"
    using unat_area_space[OF assms] unat_area_space[OF allocate_wf[OF assms ok]]
    by (simp_all add: area_reset_wf(3))
qed

theorem allocate_iff_room_witness:
  "fst (allocate (UnitArea 0x1000 48) 32 0) \<and> \<not> fst (allocate (UnitArea 0x1000 48) 33 0)"
  using allocate_iff_room[of "UnitArea 0x1000 48" 32 0] allocate_iff_room[of "UnitArea 0x1000 48" 33 0]
    UnitArea_wf(1)[of 48 "0x1000"] by (simp add: area_defs)

text \<open>C27: the assertion of \<open>moveNextPos\<close> stops every move past the end of the area, except a move
  so long that the position wraps around the address space and lands inside the area again.\<close>

theorem moveNextPos_assertion:
  assumes "area_wf ua"
  shows "moveNextPos ua sz \<noteq> None \<longleftrightarrow>
           unat sz \<le> unat (area_space ua) \<or> 2 ^ 64 \<le> unat (allocated ua) + unat sz"
proof -
  have sum: "unat (allocated ua + sz) =
      (if unat (allocated ua) + unat sz < 2 ^ 64 then unat (allocated ua) + unat sz
       else unat (allocated ua) + unat sz - 2 ^ 64)"
    using unat_plus_if'[of "allocated ua" sz] by simp
  have "moveNextPos ua sz \<noteq> None \<longleftrightarrow> unat (allocated ua + sz) \<le> unat (area_size ua)"
    by (simp add: moveNextPos_def area_space_def Let_def word_le_nat_alt [symmetric])
       (metis word_sub_le word_sub_le_iff)
  then show ?thesis
    using sum unat_area_space[OF assms] unat64_less[of sz] by auto
qed

theorem moveNextPos_assertion_witness:
  "moveNextPos (UnitArea 0x1000 48) 32 \<noteq> None \<and> moveNextPos (UnitArea 0x1000 48) 33 = None"
  using moveNextPos_assertion[of "UnitArea 0x1000 48" 32] moveNextPos_assertion[of "UnitArea 0x1000 48" 33]
    UnitArea_wf(1)[of 48 "0x1000"] by (simp add: area_defs)

end
