(* ===== verification/Call_Stack.thy ===== *)
theory Call_Stack
  imports Prelude
begin

text \<open>
  The interface a generated parser relies on when it enters a nested unit and comes back: a stack
  of return addresses of bounded capacity beside the current instruction.  A nest of calls and
  returns on any implementation of the interface does what the same nest does on a list.
\<close>

datatype call_op = Call addr addr | Return

fun run_calls ::
  "('s \<Rightarrow> addr \<Rightarrow> addr \<Rightarrow> 's option) \<Rightarrow> ('s \<Rightarrow> 's option) \<Rightarrow> call_op list \<Rightarrow> 's \<Rightarrow> 's option" where
  "run_calls call ret [] s = Some s"
| "run_calls call ret (Call c r # ops) s = Option.bind (call s c r) (run_calls call ret ops)"
| "run_calls call ret (Return # ops) s = Option.bind (ret s) (run_calls call ret ops)"

fun spec_calls :: "nat \<Rightarrow> call_op list \<Rightarrow> addr list \<Rightarrow> addr \<Rightarrow> (addr list \<times> addr) option" where
  "spec_calls cap [] rs i = Some (rs, i)"
| "spec_calls cap (Call c r # ops) rs i =
     (if length rs < cap then spec_calls cap ops (r # rs) c else None)"
| "spec_calls cap (Return # ops) [] i = None"
| "spec_calls cap (Return # ops) (r # rs) i = spec_calls cap ops rs r"

locale call_stack =
  fixes call :: "'s \<Rightarrow> addr \<Rightarrow> addr \<Rightarrow> 's option"
    and ret :: "'s \<Rightarrow> 's option"
    and frames :: "'s \<Rightarrow> addr list \<Rightarrow> bool"
    and instr :: "'s \<Rightarrow> addr"
    and capacity :: "'s \<Rightarrow> nat"
  assumes call_ok: "frames s rs \<Longrightarrow> length rs < capacity s \<Longrightarrow>
      \<exists>s'. call s c r = Some s' \<and> frames s' (r # rs) \<and> instr s' = c \<and> capacity s' = capacity s"
    and call_full: "frames s rs \<Longrightarrow> capacity s \<le> length rs \<Longrightarrow> call s c r = None"
    and ret_ok: "frames s (r # rs) \<Longrightarrow>
      \<exists>s'. ret s = Some s' \<and> frames s' rs \<and> instr s' = r \<and> capacity s' = capacity s"
    and ret_empty: "frames s [] \<Longrightarrow> ret s = None"
begin

lemma run_refines_spec:
  "frames s rs \<Longrightarrow> instr s = i \<Longrightarrow>
     (case spec_calls (capacity s) ops rs i of
        None \<Rightarrow> run_calls call ret ops s = None
      | Some (rs', i') \<Rightarrow> \<exists>s'. run_calls call ret ops s = Some s' \<and> frames s' rs' \<and> instr s' = i'
                               \<and> capacity s' = capacity s)"
proof (induction "capacity s" ops rs i arbitrary: s rule: spec_calls.induct)
  case (2 c r ops rs i)
  then show ?case
    using call_ok[of s rs c r] call_full[of s rs c r] by (fastforce split: option.splits)
next
  case (4 ops r rs i)
  then show ?case using ret_ok[of s r rs] by (fastforce split: option.splits)
qed (auto simp: ret_empty)

end

end
