(* ===== verification/Parser_State.thy ===== *)
theory Parser_State
  imports Memory Call_Stack
begin

text \<open>
  \<^verbatim>\<open>runtime/parsing/parser_state.h\<close>: the resumable position of a generated parser.  The state
  owns a caller-supplied stack (for nested units and loop counters), the address of the
  instruction to resume at and the position in the input stream.  Values are pushed as raw bytes,
  so the operations read and write the store; a failing \<^verbatim>\<open>assert\<close> is \<^const>\<open>None\<close>.
\<close>

record parser_state =
  ps_stack :: addr
  ps_stack_size :: size_t
  ps_stack_top :: addr
  ps_instruction :: addr
  ps_stream_pos :: addr

definition ParserState :: "addr \<Rightarrow> size_t \<Rightarrow> parser_state" where
  "ParserState stack stack_size =
     \<lparr> ps_stack = stack, ps_stack_size = stack_size, ps_stack_top = stack,
       ps_instruction = 0, ps_stream_pos = 0 \<rparr>"

definition ps_space :: "parser_state \<Rightarrow> size_t" where
  "ps_space st = ps_stack_size st - (ps_stack_top st - ps_stack st)"

definition ps_push :: "parser_state \<Rightarrow> mem \<Rightarrow> 'a::len word \<Rightarrow> (parser_state \<times> mem) option" where
  "ps_push st m t =
     (if ps_space st > of_nat (sizeof TYPE('a))
      then Some (st\<lparr> ps_stack_top := ps_stack_top st + of_nat (sizeof TYPE('a)) \<rparr>,
                 store_word m (ps_stack_top st) t)
      else None)"

definition ps_push_uninit :: "parser_state \<Rightarrow> size_t \<Rightarrow> (addr \<times> parser_state) option" where
  "ps_push_uninit st sz =
     (if ps_space st > sz
      then Some (ps_stack_top st, st\<lparr> ps_stack_top := ps_stack_top st + sz \<rparr>)
      else None)"

definition ps_peek :: "parser_state \<Rightarrow> size_t \<Rightarrow> addr option" where
  "ps_peek st sz = (if ps_space st \<le> ps_stack_size st - sz then Some (ps_stack_top st - sz) else None)"

definition ps_peekCopy :: "parser_state \<Rightarrow> mem \<Rightarrow> 'a::len word option" where
  "ps_peekCopy st m =
     (if ps_space st \<le> ps_stack_size st - of_nat (sizeof TYPE('a))
      then Some (load_word m (ps_stack_top st - of_nat (sizeof TYPE('a)))) else None)"

definition ps_pop :: "parser_state \<Rightarrow> size_t \<Rightarrow> parser_state option" where
  "ps_pop st sz =
     (if ps_space st \<le> ps_stack_size st - sz
      then Some (st\<lparr> ps_stack_top := ps_stack_top st - sz \<rparr>) else None)"

definition ps_popAndGet :: "parser_state \<Rightarrow> mem \<Rightarrow> ('a::len word \<times> parser_state) option" where
  "ps_popAndGet st m =
     (if ps_space st \<le> ps_stack_size st - of_nat (sizeof TYPE('a))
      then let st' = st\<lparr> ps_stack_top := ps_stack_top st - of_nat (sizeof TYPE('a)) \<rparr>
           in Some (load_word m (ps_stack_top st'), st')
      else None)"

definition returnToInstruction :: "parser_state \<Rightarrow> mem \<Rightarrow> parser_state option" where
  "returnToInstruction st m =
     (case ps_popAndGet st m of None \<Rightarrow> None
      | Some (instr, st') \<Rightarrow> Some (st'\<lparr> ps_instruction := instr \<rparr>))"

definition callInstruction :: "parser_state \<Rightarrow> mem \<Rightarrow> addr \<Rightarrow> addr \<Rightarrow> (parser_state \<times> mem) option" where
  "callInstruction st m call return_to =
     (case ps_push st m return_to of None \<Rightarrow> None
      | Some (st', m') \<Rightarrow> Some (st'\<lparr> ps_instruction := call \<rparr>, m'))"

definition advanceToInstruction :: "parser_state \<Rightarrow> addr \<Rightarrow> parser_state" where
  "advanceToInstruction st new_instr = st\<lparr> ps_instruction := new_instr \<rparr>"

definition ps_reset :: "parser_state \<Rightarrow> parser_state" where
  "ps_reset st = st\<lparr> ps_stack_top := ps_stack st, ps_instruction := 0, ps_stream_pos := 0 \<rparr>"

text \<open>The stack does not wrap around the address space and its top is inside it.\<close>

definition ps_depth :: "parser_state \<Rightarrow> nat" where
  "ps_depth st = unat (ps_stack_top st - ps_stack st)"

definition ps_wf :: "parser_state \<Rightarrow> bool" where
  "ps_wf st \<longleftrightarrow> unat (ps_stack st) + unat (ps_stack_size st) < 2 ^ 64
              \<and> ps_depth st \<le> unat (ps_stack_size st)"

text \<open>The bytes below the top: what the stack holds.\<close>

definition ps_contents :: "parser_state \<Rightarrow> mem \<Rightarrow> byte list" where
  "ps_contents st m = load_bytes m (ps_stack st) (ps_depth st)"

text \<open>The stack holds exactly the given return addresses, innermost on top, and is large enough
  for one of them.\<close>

definition holds_frames :: "parser_state \<times> mem \<Rightarrow> addr list \<Rightarrow> bool" where
  "holds_frames s rs \<longleftrightarrow> ps_wf (fst s) \<and> 8 \<le> ps_stack_size (fst s)
     \<and> ps_contents (fst s) (snd s) = concat (map (le_of_word 8) (rev rs))"

definition call_pair :: "parser_state \<times> mem \<Rightarrow> addr \<Rightarrow> addr \<Rightarrow> (parser_state \<times> mem) option" where
  "call_pair s c r = callInstruction (fst s) (snd s) c r"

definition return_pair :: "parser_state \<times> mem \<Rightarrow> (parser_state \<times> mem) option" where
  "return_pair s = map_option (\<lambda>st. (st, snd s)) (returnToInstruction (fst s) (snd s))"

definition frame_capacity :: "parser_state \<times> mem \<Rightarrow> nat" where
  "frame_capacity s = (unat (ps_stack_size (fst s)) - 1) div 8"

lemmas ps_defs [runtime_defs] =
  ps_space_def ps_push_def ps_push_uninit_def ps_peek_def ps_peekCopy_def ps_pop_def
  ps_popAndGet_def returnToInstruction_def callInstruction_def advanceToInstruction_def

lemma unat_ps_space: "ps_wf st \<Longrightarrow> unat (ps_space st) = unat (ps_stack_size st) - ps_depth st"
  by (simp add: ps_wf_def ps_space_def ps_depth_def unat_sub word_le_nat_alt)

lemma ps_top: "ps_stack_top st = ps_stack st + of_nat (ps_depth st)"
  by (simp add: ps_depth_def)

lemma ps_room:
  assumes "ps_wf st" "n < 2 ^ 64"
  shows "of_nat n < ps_space st \<longleftrightarrow> ps_depth st + n < unat (ps_stack_size st)"
proof -
  have "unat (of_nat n :: size_t) = n" using assms(2) by (simp add: unat_of_nat)
  then show ?thesis using unat_ps_space[OF assms(1)] by (auto simp: word_less_nat_alt)
qed

lemma ps_filled:
  assumes "ps_wf st" "n \<le> unat (ps_stack_size st)"
  shows "ps_space st \<le> ps_stack_size st - of_nat n \<longleftrightarrow> n \<le> ps_depth st"
proof -
  have "n < 2 ^ 64" using assms(2) unat64_less[of "ps_stack_size st"] by linarith
  then have "unat (of_nat n :: size_t) = n" by (simp add: unat_of_nat)
  then show ?thesis
    using unat_ps_space[OF assms(1)] assms by (auto simp: word_le_nat_alt unat_sub ps_wf_def)
qed

lemma ps_depth_up:
  assumes "ps_wf st" "ps_depth st + n < unat (ps_stack_size st)"
  shows "ps_depth (st\<lparr> ps_stack_top := ps_stack_top st + of_nat n \<rparr>) = ps_depth st + n"
proof -
  have "unat (ps_stack_top st - ps_stack st + of_nat n) = ps_depth st + n"
    using assms unat64_less[of "ps_stack_size st"] unfolding ps_depth_def
    by (subst unat_add_lem [THEN iffD1]) (auto simp: unat_of_nat)
  then show ?thesis by (simp add: ps_depth_def algebra_simps)
qed

lemma ps_depth_down:
  assumes "n \<le> ps_depth st"
  shows "ps_depth (st\<lparr> ps_stack_top := ps_stack_top st - of_nat n \<rparr>) = ps_depth st - n"
proof -
  have "n < 2 ^ 64" using assms unat64_less[of "ps_stack_top st - ps_stack st"]
    by (simp add: ps_depth_def)
  then have "unat (ps_stack_top st - ps_stack st - of_nat n) = ps_depth st - n"
    using assms unfolding ps_depth_def by (subst unat_sub) (auto simp: unat_of_nat word_le_nat_alt)
  then show ?thesis by (simp add: ps_depth_def algebra_simps)
qed

lemma ps_push_iff:
  assumes "ps_wf st" "byte_sized TYPE('a::len)"
  shows "ps_push st m (t :: 'a word) \<noteq> None \<longleftrightarrow> ps_depth st + sizeof TYPE('a) < unat (ps_stack_size st)"
  using ps_room[OF assms(1), of "sizeof TYPE('a)"] assms(2)
  by (auto simp: ps_push_def byte_sized_def)

lemma ps_push_spec:
  assumes wf: "ps_wf st" and sz: "byte_sized TYPE('a::len)"
    and push: "ps_push st m (t :: 'a word) = Some (st', m')"
  shows "ps_wf st'" "ps_depth st' = ps_depth st + sizeof TYPE('a)"
    "ps_contents st' m' = ps_contents st m @ le_of_word (sizeof TYPE('a)) t"
    "ps_stack st' = ps_stack st" "ps_stack_size st' = ps_stack_size st"
    "ps_instruction st' = ps_instruction st" "ps_stream_pos st' = ps_stream_pos st"
proof -
  let ?n = "sizeof TYPE('a)"
  have st': "st' = st\<lparr> ps_stack_top := ps_stack_top st + of_nat ?n \<rparr>"
    and m': "m' = store_word m (ps_stack_top st) t"
    using push by (auto simp: ps_push_def split: if_splits)
  have room: "ps_depth st + ?n < unat (ps_stack_size st)"
    using push ps_push_iff[OF wf sz, of m t] by simp
  show depth: "ps_depth st' = ps_depth st + ?n" unfolding st' by (rule ps_depth_up[OF wf room])
  show "ps_wf st'" using wf room depth by (simp add: ps_wf_def st')
  have "disjoint_ranges (ps_stack st) (ps_depth st) (ps_stack_top st) ?n"
    using disjoint_prefix[of "ps_depth st" ?n "ps_stack st"] room unat64_less[of "ps_stack_size st"]
    by (simp add: disjoint_ranges_def ps_top[symmetric])
  then show "ps_contents st' m' = ps_contents st m @ le_of_word ?n t"
    unfolding ps_contents_def depth load_bytes_append
    by (simp add: st' m' sz ps_top[symmetric] load_bytes_store_word load_bytes_store_word_disjoint)
qed (use push in \<open>auto simp: ps_push_def split: if_splits\<close>)

lemma ps_popAndGet_spec:
  assumes wf: "ps_wf st" and sz: "byte_sized TYPE('a::len)"
    and size: "sizeof TYPE('a) \<le> unat (ps_stack_size st)"
  shows "(ps_popAndGet st m :: ('a word \<times> parser_state) option) \<noteq> None \<longleftrightarrow> sizeof TYPE('a) \<le> ps_depth st"
    and "ps_popAndGet st m = Some (t :: 'a word, st') \<Longrightarrow>
           ps_wf st' \<and> ps_contents st m = ps_contents st' m @ le_of_word (sizeof TYPE('a)) t
           \<and> ps_stack st' = ps_stack st \<and> ps_stack_size st' = ps_stack_size st"
proof -
  let ?n = "sizeof TYPE('a)"
  show iff: "(ps_popAndGet st m :: ('a word \<times> parser_state) option) \<noteq> None \<longleftrightarrow> ?n \<le> ps_depth st"
    using ps_filled[OF wf size] by (auto simp: ps_popAndGet_def Let_def)
  assume pop: "ps_popAndGet st m = Some (t, st')"
  have st': "st' = st\<lparr> ps_stack_top := ps_stack_top st - of_nat ?n \<rparr>"
    and t: "t = load_word m (ps_stack_top st')"
    using pop by (auto simp: ps_popAndGet_def Let_def split: if_splits)
  have le: "?n \<le> ps_depth st" using iff pop by auto
  have depth: "ps_depth st' = ps_depth st - ?n" unfolding st' by (rule ps_depth_down[OF le])
  have "ps_wf st'" using wf depth by (auto simp: ps_wf_def st')
  moreover have "ps_contents st m = ps_contents st' m @ le_of_word ?n t"
  proof -
    have "ps_contents st m = load_bytes m (ps_stack st') (ps_depth st' + ?n)"
      using le depth by (simp add: ps_contents_def st')
    then show ?thesis
      by (simp add: load_bytes_append ps_contents_def t sz le_of_load_word ps_top[symmetric])
  qed
  ultimately show "ps_wf st' \<and> ps_contents st m = ps_contents st' m @ le_of_word ?n t
           \<and> ps_stack st' = ps_stack st \<and> ps_stack_size st' = ps_stack_size st"
    by (simp add: st')
qed

lemma length_concat_frames [simp]: "length (concat (map (le_of_word 8) rs)) = 8 * length rs"
  by (induction rs) simp_all

lemma holds_frames_depth: "holds_frames s rs \<Longrightarrow> ps_depth (fst s) = 8 * length rs"
  unfolding holds_frames_def ps_contents_def
  by (metis length_load_bytes length_concat_frames length_rev)

lemma le_of_word64_inject: "le_of_word 8 (a :: 64 word) = le_of_word 8 b \<longleftrightarrow> a = b"
  by (auto dest: arg_cong [where f = "word_of_le :: byte list \<Rightarrow> 64 word"] simp: word_of_le_of_word)

interpretation pst: call_stack call_pair return_pair holds_frames "\<lambda>s. ps_instruction (fst s)" frame_capacity
proof
  fix s :: "parser_state \<times> mem" and rs and c r :: addr
  assume fr: "holds_frames s rs" and room: "length rs < frame_capacity s"
  obtain st m where s: "s = (st, m)" by (cases s)
  have wf: "ps_wf st" using fr by (simp add: holds_frames_def s)
  have "ps_depth st + sizeof TYPE(64) < unat (ps_stack_size st)"
    using room holds_frames_depth[OF fr] by (simp add: s frame_capacity_def)
  then obtain st' m' where push: "ps_push st m r = Some (st', m')"
    using ps_push_iff[OF wf, of m r] by auto
  note spec = ps_push_spec[OF wf _ push]
  show "\<exists>s'. call_pair s c r = Some s' \<and> holds_frames s' (r # rs) \<and> ps_instruction (fst s') = c
          \<and> frame_capacity s' = frame_capacity s"
    using spec fr
    by (auto simp: call_pair_def callInstruction_def s push holds_frames_def frame_capacity_def
        ps_wf_def ps_depth_def ps_contents_def)
next
  fix s :: "parser_state \<times> mem" and rs and c r :: addr
  assume fr: "holds_frames s rs" and full: "frame_capacity s \<le> length rs"
  obtain st m where s: "s = (st, m)" by (cases s)
  have wf: "ps_wf st" using fr by (simp add: holds_frames_def s)
  have "\<not> ps_depth st + sizeof TYPE(64) < unat (ps_stack_size st)"
    using full holds_frames_depth[OF fr] by (simp add: s frame_capacity_def)
  then show "call_pair s c r = None"
    using ps_push_iff[OF wf, of m r] by (auto simp: call_pair_def callInstruction_def s split: option.splits)
next
  fix s :: "parser_state \<times> mem" and r rs
  assume fr: "holds_frames s (r # rs)"
  obtain st m where s: "s = (st, m)" by (cases s)
  have wf: "ps_wf st" and size: "sizeof TYPE(64) \<le> unat (ps_stack_size st)"
    using fr by (simp_all add: holds_frames_def s word_le_nat_alt)
  have "sizeof TYPE(64) \<le> ps_depth st" using holds_frames_depth[OF fr] by (simp add: s)
  then obtain t st' where pop: "ps_popAndGet st m = Some (t :: 64 word, st')"
    using ps_popAndGet_spec(1)[OF wf _ size, of m] by auto
  note spec = ps_popAndGet_spec(2)[OF wf _ size pop]
  have "t = r"
    using spec fr by (simp add: holds_frames_def s le_of_word64_inject)
  then show "\<exists>s'. return_pair s = Some s' \<and> holds_frames s' rs \<and> ps_instruction (fst s') = r
          \<and> frame_capacity s' = frame_capacity s"
    using spec fr
    by (auto simp: return_pair_def returnToInstruction_def s pop holds_frames_def frame_capacity_def
        ps_wf_def ps_depth_def ps_contents_def)
next
  fix s :: "parser_state \<times> mem"
  assume fr: "holds_frames s []"
  obtain st m where s: "s = (st, m)" by (cases s)
  have wf: "ps_wf st" and size: "sizeof TYPE(64) \<le> unat (ps_stack_size st)"
    using fr by (simp_all add: holds_frames_def s word_le_nat_alt)
  show "return_pair s = None"
    using ps_popAndGet_spec(1)[OF wf _ size, of m] holds_frames_depth[OF fr]
    by (auto simp: return_pair_def returnToInstruction_def s split: option.splits)
qed

lemma ParserState_wf:
  assumes "unat stack + unat stack_size < 2 ^ 64" "8 \<le> stack_size"
  shows "holds_frames (ParserState stack stack_size, m) []"
  using assms by (simp add: holds_frames_def ps_wf_def ps_depth_def ps_contents_def ParserState_def)

text \<open>C18: entering and leaving nested units on a fresh parser state works like a stack of return
  addresses that holds one entry for every eight bytes of the stack, the last byte excluded.
  Every nest of \<open>callInstruction\<close> and \<open>returnToInstruction\<close> that fits ends at the instruction, and
  with the pending return addresses, that the list-based reading gives; a call that does not fit
  and a return without a call trip an assertion instead of leaving the stack.\<close>

theorem call_return_nesting:
  assumes "unat stack + unat stack_size < 2 ^ 64" "8 \<le> stack_size"
  shows "case spec_calls ((unat stack_size - 1) div 8) ops [] 0 of
           None \<Rightarrow> run_calls call_pair return_pair ops (ParserState stack stack_size, m) = None
         | Some (rs, i) \<Rightarrow>
             \<exists>st m'. run_calls call_pair return_pair ops (ParserState stack stack_size, m) = Some (st, m')
                   \<and> holds_frames (st, m') rs \<and> ps_instruction st = i"
  using pst.run_refines_spec[OF ParserState_wf[OF assms, of m], of 0 ops]
  by (auto simp: frame_capacity_def ParserState_def split: option.splits)

theorem call_return_nesting_witness:
  "(\<exists>st m'. run_calls call_pair return_pair [Call 7 1, Call 9 2, Return] (ParserState 64 24, \<lambda>_. 0)
              = Some (st, m') \<and> holds_frames (st, m') [1] \<and> ps_instruction st = 2)
   \<and> run_calls call_pair return_pair [Call 7 1, Call 9 2, Call 11 3] (ParserState 64 24, \<lambda>_. 0) = None"
  using call_return_nesting[of 64 24 "[Call 7 1, Call 9 2, Return]" "\<lambda>_. 0"]
    call_return_nesting[of 64 24 "[Call 7 1, Call 9 2, Call 11 3]" "\<lambda>_. 0"]
  by simp

text \<open>C21: a value of any byte-sized integer type that was pushed is what \<open>peekCopy\<close> and
  \<open>popAndGet\<close> read back, popping restores the state before the push, and the bytes below are
  untouched.  The push succeeds exactly when it leaves at least one byte of the stack free.\<close>

theorem push_pop_roundtrip:
  assumes "ps_wf st" "byte_sized TYPE('a::len)"
  shows "(ps_push st m (t :: 'a word) \<noteq> None \<longleftrightarrow> ps_depth st + sizeof TYPE('a) < unat (ps_stack_size st))
       \<and> (\<forall>st' m'. ps_push st m t = Some (st', m') \<longrightarrow>
            ps_peekCopy st' m' = Some t \<and> ps_popAndGet st' m' = Some (t, st)
            \<and> ps_contents st m' = ps_contents st m)"
proof (intro conjI allI impI)
  let ?n = "sizeof TYPE('a)"
  show "ps_push st m t \<noteq> None \<longleftrightarrow> ps_depth st + ?n < unat (ps_stack_size st)"
    using ps_push_iff[OF assms] .
  fix st' m' assume push: "ps_push st m t = Some (st', m')"
  note spec = ps_push_spec[OF assms push]
  have room: "ps_depth st + ?n < unat (ps_stack_size st)"
    using push ps_push_iff[OF assms, of m t] by simp
  have st': "st = st'\<lparr> ps_stack_top := ps_stack_top st' - of_nat ?n \<rparr>" 
    and top: "ps_stack_top st' - of_nat ?n = ps_stack_top st"
    and m': "m' = store_word m (ps_stack_top st) t"
    using push by (auto simp: ps_push_def split: if_splits)
  have guard: "ps_space st' \<le> ps_stack_size st' - of_nat ?n"
    using ps_filled[OF spec(1), of ?n] spec room by simp
  show "ps_peekCopy st' m' = Some t" "ps_popAndGet st' m' = Some (t, st)"
    using guard st' by (simp_all add: ps_peekCopy_def ps_popAndGet_def top m' load_store_word assms(2))
  have "take (ps_depth st) (ps_contents st' m') = ps_contents st m"
    using spec(3) by (simp add: ps_contents_def)
  moreover have "take (ps_depth st) (ps_contents st' m') = ps_contents st m'"
    using spec(2,4) by (simp add: ps_contents_def load_bytes_append)
  ultimately show "ps_contents st m' = ps_contents st m" by simp
qed

theorem push_pop_roundtrip_witness:
  "ps_push (ParserState 64 8) (\<lambda>_. 0) (0xBEEF :: 16 word) \<noteq> None
   \<and> \<not> ps_push (ParserState 64 8) (\<lambda>_. 0) (0xBEEF :: 64 word) \<noteq> None"
  using push_pop_roundtrip[of "ParserState 64 8" "\<lambda>_. 0" "0xBEEF :: 16 word"]
    push_pop_roundtrip[of "ParserState 64 8" "\<lambda>_. 0" "0xBEEF :: 64 word"]
  by (simp add: ps_wf_def ps_depth_def ParserState_def)

end
