(* ===== verification/Int_Codec.thy ===== *)
theory Int_Codec
  imports Memory
begin

text \<open>
  The interface between the integer primitives of the runtime and the code that calls them: a
  parser moves \<open>n\<close> bytes from the input to a destination, a serializer moves them from a source
  to the output, and both apply the same involutive reordering of bytes on the way.  The lemmas
  of the locale are the round trips.  The theory also fixes what a sequence of bytes on the wire
  means as a number.
\<close>

datatype ParseResult = P_DONE | P_NEXT | P_OUT_OF_DATA | P_AREA_FULL

datatype SerializeResult = S_DONE | S_NEXT | S_OUT_BUF_FULL

datatype byte_order = Big | Little

datatype int_width = W8 | W16 | W32 | W64

primrec width_bytes :: "int_width \<Rightarrow> nat" where
  "width_bytes W8 = 1"
| "width_bytes W16 = 2"
| "width_bytes W32 = 4"
| "width_bytes W64 = 8"

text \<open>Wire numbers, read digit by digit in base 256.\<close>

primrec le_nat :: "byte list \<Rightarrow> nat" where
  "le_nat [] = 0"
| "le_nat (b # bs) = unat b + 256 * le_nat bs"

definition wire_nat :: "byte_order \<Rightarrow> byte list \<Rightarrow> nat" where
  "wire_nat bo bs = (case bo of Little \<Rightarrow> le_nat bs | Big \<Rightarrow> le_nat (rev bs))"

definition wire_value :: "bool \<Rightarrow> byte_order \<Rightarrow> byte list \<Rightarrow> int" where
  "wire_value sg bo bs =
     (let v = wire_nat bo bs in
      if sg \<and> 2 * v \<ge> 256 ^ length bs then int v - 256 ^ length bs else int v)"

text \<open>What a C++ variable of the given width and signedness at an address reads as.\<close>

definition c_value :: "int_width \<Rightarrow> bool \<Rightarrow> mem \<Rightarrow> addr \<Rightarrow> int" where
  "c_value w sg m a =
     (case w of
        W8 \<Rightarrow> (if sg then sint (load_word m a :: 8 word) else uint (load_word m a :: 8 word))
      | W16 \<Rightarrow> (if sg then sint (load_word m a :: 16 word) else uint (load_word m a :: 16 word))
      | W32 \<Rightarrow> (if sg then sint (load_word m a :: 32 word) else uint (load_word m a :: 32 word))
      | W64 \<Rightarrow> (if sg then sint (load_word m a :: 64 word) else uint (load_word m a :: 64 word)))"

lemma le_nat_less: "le_nat bs < 256 ^ length bs"
proof (induction bs)
  case (Cons b bs)
  have "unat b < 256" using unsigned_less[of b, where ?'a = nat] by simp
  then show ?case using Cons by simp
qed simp

lemma le_nat_fits:
  assumes "8 * length bs \<le> n"
  shows "le_nat bs < 2 ^ n"
proof -
  have "le_nat bs < (2::nat) ^ (8 * length bs)" using le_nat_less[of bs] by (simp add: power_mult)
  also have "\<dots> \<le> 2 ^ n" using assms by (intro power_increasing) simp_all
  finally show ?thesis .
qed

lemma unat_word_of_le:
  assumes "8 * length bs \<le> LENGTH('a::len)"
  shows "unat (word_of_le bs :: 'a word) = le_nat bs"
  using assms
proof (induction bs)
  case (Cons b bs)
  let ?w = "word_of_le bs :: 'a word"
  have IH: "unat ?w = le_nat bs" using Cons by simp
  have fits: "unat b + 256 * le_nat bs < 2 ^ LENGTH('a)" using le_nat_fits[OF Cons.prems] by simp
  have "and (ucast b) (push_bit 8 ?w) = 0"
  proof (rule bit_word_eqI)
    fix i show "bit (and (ucast b) (push_bit 8 ?w)) i = bit (0 :: 'a word) i"
      using bit_imp_le_length[of b i] by (auto simp: bit_simps)
  qed
  then have "word_of_le (b # bs) = (ucast b + push_bit 8 ?w :: 'a word)"
    by (simp add: disjunctive_add_eq_or)
  moreover have "unat (ucast b :: 'a word) = unat b"
    using fits by (simp add: unsigned_ucast_eq take_bit_nat_eq_self)
  moreover have "unat (push_bit 8 ?w) = 256 * le_nat bs"
    using fits unfolding unsigned_push_bit_eq IH
    by (simp add: push_bit_eq_mult mult.commute take_bit_nat_eq_self)
  ultimately show ?case using fits by (simp add: unat_word_ariths)
qed simp

lemma uint_word_of_le:
  "8 * length bs \<le> LENGTH('a::len) \<Longrightarrow> uint (word_of_le bs :: 'a word) = int (le_nat bs)"
  by (drule unat_word_of_le, drule arg_cong [where f = int]) simp

lemma load_word_value:
  assumes "byte_sized TYPE('a::len)"
  shows "uint (load_word m a :: 'a word) = wire_value False Little (load_bytes m a (sizeof TYPE('a)))"
    and "sint (load_word m a :: 'a word) = wire_value True Little (load_bytes m a (sizeof TYPE('a)))"
proof -
  let ?n = "sizeof TYPE('a)"
  have len: "LENGTH('a) = 8 * ?n" using assms by (simp add: byte_sized_def)
  show u: "uint (load_word m a :: 'a word) = wire_value False Little (load_bytes m a ?n)"
    using uint_word_of_le[of "load_bytes m a ?n", where 'a = 'a] len
    by (simp add: load_word_def wire_value_def wire_nat_def)
  have "(2::int) ^ LENGTH('a) = 256 ^ ?n" by (simp add: len power_mult)
  moreover have "(256::nat) ^ ?n \<le> 2 * v \<longleftrightarrow> (256::int) ^ ?n \<le> 2 * int v" for v
    by (metis (mono_tags, lifting) of_nat_le_iff of_nat_mult of_nat_numeral of_nat_power)
  ultimately show "sint (load_word m a :: 'a word) = wire_value True Little (load_bytes m a ?n)"
    unfolding sint_uint_cases u by (simp add: wire_value_def wire_nat_def)
qed

lemma c_value_wire: "c_value w sg m a = wire_value sg Little (load_bytes m a (width_bytes w))"
  using load_word_value[where 'a = 8, of m a] load_word_value[where 'a = 16, of m a]
    load_word_value[where 'a = 32, of m a] load_word_value[where 'a = 64, of m a]
  by (cases w; cases sg) (simp_all add: c_value_def)

lemma wire_value_rev: "wire_value sg Little (rev bs) = wire_value sg Big bs"
  by (simp add: wire_value_def wire_nat_def Let_def)

lemma width_bytes_bounds [simp]: "0 < width_bytes w" "width_bytes w < 2 ^ 64"
  by (cases w; simp)+

lemma load_store_width [simp]:
  "length bs = width_bytes w \<Longrightarrow> load_bytes (store_bytes m a bs) a (width_bytes w) = bs"
  using width_bytes_bounds(2)[of w] by (intro load_store_same) linarith+

text \<open>Reversing the bytes is what \<^verbatim>\<open>bswap\<close> does to a word in the store.\<close>

definition reorder :: "byte_order \<Rightarrow> byte list \<Rightarrow> byte list" where
  "reorder bo bs = (case bo of Little \<Rightarrow> bs | Big \<Rightarrow> rev bs)"

lemma reorder_simps [simp]: "length (reorder bo bs) = length bs" "reorder bo (reorder bo bs) = bs"
  by (cases bo; simp add: reorder_def)+

lemma wire_value_reorder: "wire_value sg Little (reorder bo bs) = wire_value sg bo bs"
  by (cases bo) (simp_all add: reorder_def wire_value_rev)

text \<open>Room between a position and the end of a buffer, as the runtime compares it: the pointer
  difference against an unsigned byte count.\<close>

definition room :: "addr \<Rightarrow> addr \<Rightarrow> nat" where
  "room pos fin = unat (fin - pos)"

locale int_codec =
  fixes parse :: "mem \<Rightarrow> addr \<Rightarrow> addr \<Rightarrow> addr \<Rightarrow> ParseResult \<times> addr \<times> mem"
    and serialize :: "mem \<Rightarrow> addr \<Rightarrow> addr \<Rightarrow> addr \<Rightarrow> SerializeResult \<times> addr \<times> mem"
    and width :: int_width
    and order :: byte_order
  assumes parse_spec: "parse m pos fin dest =
      (if room pos fin < width_bytes width then (P_OUT_OF_DATA, pos, m)
       else (P_DONE, pos + of_nat (width_bytes width),
             store_bytes m dest (reorder order (load_bytes m pos (width_bytes width)))))"
    and serialize_spec: "serialize m src pos fin =
      (if room pos fin < width_bytes width then (S_OUT_BUF_FULL, pos, m)
       else (S_DONE, pos + of_nat (width_bytes width),
             store_bytes m pos (reorder order (load_bytes m src (width_bytes width)))))"
begin

lemma parse_value:
  assumes "width_bytes width \<le> room pos fin" "parse m pos fin dest = (r, pos', m')"
  shows "r = P_DONE" "pos' = pos + of_nat (width_bytes width)"
    "c_value width sg m' dest = wire_value sg order (load_bytes m pos (width_bytes width))"
    "x \<notin> range_of dest (width_bytes width) \<Longrightarrow> m' x = m x"
  using assms by (auto simp: parse_spec c_value_wire wire_value_reorder store_bytes_outside)

lemma serialize_value:
  assumes "width_bytes width \<le> room pos fin" "serialize m src pos fin = (r, pos', m')"
  shows "r = S_DONE" "pos' = pos + of_nat (width_bytes width)"
    "wire_value sg order (load_bytes m' pos (width_bytes width)) = c_value width sg m src"
    "x \<notin> range_of pos (width_bytes width) \<Longrightarrow> m' x = m x"
  using assms by (auto simp: serialize_spec c_value_wire store_bytes_outside
      wire_value_reorder [symmetric, of _ order])

lemma parse_then_serialize:
  assumes "parse m pos fin dest = (P_DONE, pos', m')"
    and "serialize m' dest out oend = (S_DONE, out', m'')"
  shows "load_bytes m'' out (width_bytes width) = load_bytes m pos (width_bytes width)"
  using assms by (auto simp: parse_spec serialize_spec split: if_splits)

lemma serialize_then_parse:
  assumes "serialize m src pos fin = (S_DONE, pos', m')"
    and "parse m' pos fin dest = (r, p, m'')"
  shows "r = P_DONE" "p = pos'"
    "load_bytes m'' dest (width_bytes width) = load_bytes m src (width_bytes width)"
  using assms by (auto simp: parse_spec serialize_spec split: if_splits)

end

end
