(* ===== verification/Parse_Util.thy ===== *)
theory Parse_Util
  imports Int_Codec Unit_Area
begin

text \<open>
  \<^verbatim>\<open>runtime/parsing/util.h\<close>: the primitives every generated parser is made of.  A primitive gets
  the current position \<^verbatim>\<open>*pos_ptr\<close>, the end of the input and a destination, and returns its
  result, the new position and the new store.  The pointer difference is compared as the
  language compares it: against \<^verbatim>\<open>sizeof\<close> (unsigned) in the fixed-width primitives, against a
  \<^verbatim>\<open>ssize_t\<close> (signed) in the byte-string ones.  \<open>bswap\<close> is the documented behaviour of
  \<^verbatim>\<open>bswap_16\<close>, \<^verbatim>\<open>bswap_32\<close> and \<^verbatim>\<open>bswap_64\<close>.
\<close>

definition bswap :: "'a::len word \<Rightarrow> 'a word" where
  "bswap w = word_of_le (rev (le_of_word (sizeof TYPE('a)) w))"

definition copyAtomicType ::
  "'a::len itself \<Rightarrow> mem \<Rightarrow> addr \<Rightarrow> addr \<Rightarrow> addr \<Rightarrow> ParseResult \<times> addr \<times> mem" where
  "copyAtomicType T m pos in_buf_end parse_dest =
     (if in_buf_end - pos < of_nat (sizeof T) then (P_OUT_OF_DATA, pos, m)
      else (P_DONE, pos + of_nat (sizeof T),
            store_word m parse_dest (load_word m pos :: 'a word)))"

definition copyBytes :: "mem \<Rightarrow> addr \<Rightarrow> addr \<Rightarrow> addr \<Rightarrow> size_t \<Rightarrow> ParseResult \<times> addr \<times> mem" where
  "copyBytes m pos in_buf_end parse_dest len =
     (if sint (in_buf_end - pos) < sint len then (P_OUT_OF_DATA, pos, m)
      else (P_DONE, pos + len, memcpy m parse_dest pos len))"

definition advance :: "addr \<Rightarrow> addr \<Rightarrow> size_t \<Rightarrow> ParseResult \<times> addr" where
  "advance pos in_buf_end len =
     (if sint (in_buf_end - pos) < sint len then (P_OUT_OF_DATA, pos) else (P_DONE, pos + len))"

definition allocateCopyBytes ::
  "mem \<Rightarrow> addr \<Rightarrow> addr \<Rightarrow> addr \<Rightarrow> size_t \<Rightarrow> unit_area \<Rightarrow> ParseResult \<times> addr \<times> addr \<times> unit_area \<times> mem" where
  "allocateCopyBytes m pos in_buf_end parse_dest len area =
     (if sint (in_buf_end - pos) < sint len then (P_OUT_OF_DATA, pos, parse_dest, area, m)
      else case allocate area len parse_dest of
             (False, dest, area') \<Rightarrow> (P_AREA_FULL, pos, dest, area', m)
           | (True, dest, area') \<Rightarrow> (P_DONE, pos + len, dest, area', memcpy m dest pos len))"

definition parseInt8_unsigned_big :: "mem \<Rightarrow> addr \<Rightarrow> addr \<Rightarrow> addr \<Rightarrow> ParseResult \<times> addr \<times> mem" where
  "parseInt8_unsigned_big m pos in_buf_end parse_dest = copyAtomicType TYPE(8) m pos in_buf_end parse_dest"

definition parseInt16_unsigned_big :: "mem \<Rightarrow> addr \<Rightarrow> addr \<Rightarrow> addr \<Rightarrow> ParseResult \<times> addr \<times> mem" where
  "parseInt16_unsigned_big m pos in_buf_end parse_dest =
     (if in_buf_end - pos < of_nat (sizeof TYPE(16)) then (P_OUT_OF_DATA, pos, m)
      else (P_DONE, pos + of_nat (sizeof TYPE(16)),
            store_word m parse_dest (bswap (load_word m pos :: 16 word))))"

definition parseInt32_unsigned_big :: "mem \<Rightarrow> addr \<Rightarrow> addr \<Rightarrow> addr \<Rightarrow> ParseResult \<times> addr \<times> mem" where
  "parseInt32_unsigned_big m pos in_buf_end parse_dest =
     (if in_buf_end - pos < of_nat (sizeof TYPE(32)) then (P_OUT_OF_DATA, pos, m)
      else (P_DONE, pos + of_nat (sizeof TYPE(32)),
            store_word m parse_dest (bswap (load_word m pos :: 32 word))))"

definition parseInt64_unsigned_big :: "mem \<Rightarrow> addr \<Rightarrow> addr \<Rightarrow> addr \<Rightarrow> ParseResult \<times> addr \<times> mem" where
  "parseInt64_unsigned_big m pos in_buf_end parse_dest =
     (if in_buf_end - pos < of_nat (sizeof TYPE(64)) then (P_OUT_OF_DATA, pos, m)
      else (P_DONE, pos + of_nat (sizeof TYPE(64)),
            store_word m parse_dest (bswap (load_word m pos :: 64 word))))"

definition parseInt8_unsigned_little :: "mem \<Rightarrow> addr \<Rightarrow> addr \<Rightarrow> addr \<Rightarrow> ParseResult \<times> addr \<times> mem" where
  "parseInt8_unsigned_little m pos in_buf_end parse_dest = copyAtomicType TYPE(8) m pos in_buf_end parse_dest"

definition parseInt16_unsigned_little :: "mem \<Rightarrow> addr \<Rightarrow> addr \<Rightarrow> addr \<Rightarrow> ParseResult \<times> addr \<times> mem" where
  "parseInt16_unsigned_little m pos in_buf_end parse_dest = copyAtomicType TYPE(16) m pos in_buf_end parse_dest"

definition parseInt32_unsigned_little :: "mem \<Rightarrow> addr \<Rightarrow> addr \<Rightarrow> addr \<Rightarrow> ParseResult \<times> addr \<times> mem" where
  "parseInt32_unsigned_little m pos in_buf_end parse_dest = copyAtomicType TYPE(32) m pos in_buf_end parse_dest"

definition parseInt64_unsigned_little :: "mem \<Rightarrow> addr \<Rightarrow> addr \<Rightarrow> addr \<Rightarrow> ParseResult \<times> addr \<times> mem" where
  "parseInt64_unsigned_little m pos in_buf_end parse_dest = copyAtomicType TYPE(64) m pos in_buf_end parse_dest"

definition parseInt8_signed_big :: "mem \<Rightarrow> addr \<Rightarrow> addr \<Rightarrow> addr \<Rightarrow> ParseResult \<times> addr \<times> mem" where
  "parseInt8_signed_big m pos in_buf_end parse_dest = copyAtomicType TYPE(8) m pos in_buf_end parse_dest"

definition parseInt16_signed_big :: "mem \<Rightarrow> addr \<Rightarrow> addr \<Rightarrow> addr \<Rightarrow> ParseResult \<times> addr \<times> mem" where
  "parseInt16_signed_big m pos in_buf_end parse_dest =
     (if in_buf_end - pos < of_nat (sizeof TYPE(16)) then (P_OUT_OF_DATA, pos, m)
      else (P_DONE, pos + of_nat (sizeof TYPE(16)),
            store_word m parse_dest (bswap (load_word m pos :: 16 word))))"

definition parseInt32_signed_big :: "mem \<Rightarrow> addr \<Rightarrow> addr \<Rightarrow> addr \<Rightarrow> ParseResult \<times> addr \<times> mem" where
  "parseInt32_signed_big m pos in_buf_end parse_dest =
     (if in_buf_end - pos < of_nat (sizeof TYPE(32)) then (P_OUT_OF_DATA, pos, m)
      else (P_DONE, pos + of_nat (sizeof TYPE(32)),
            store_word m parse_dest (bswap (load_word m pos :: 32 word))))"

definition parseInt64_signed_big :: "mem \<Rightarrow> addr \<Rightarrow> addr \<Rightarrow> addr \<Rightarrow> ParseResult \<times> addr \<times> mem" where
  "parseInt64_signed_big m pos in_buf_end parse_dest =
     (if in_buf_end - pos < of_nat (sizeof TYPE(64)) then (P_OUT_OF_DATA, pos, m)
      else (P_DONE, pos + of_nat (sizeof TYPE(64)),
            store_word m parse_dest (bswap (load_word m pos :: 64 word))))"

definition parseInt8_signed_little :: "mem \<Rightarrow> addr \<Rightarrow> addr \<Rightarrow> addr \<Rightarrow> ParseResult \<times> addr \<times> mem" where
  "parseInt8_signed_little m pos in_buf_end parse_dest = copyAtomicType TYPE(8) m pos in_buf_end parse_dest"

definition parseInt16_signed_little :: "mem \<Rightarrow> addr \<Rightarrow> addr \<Rightarrow> addr \<Rightarrow> ParseResult \<times> addr \<times> mem" where
  "parseInt16_signed_little m pos in_buf_end parse_dest = copyAtomicType TYPE(16) m pos in_buf_end parse_dest"

definition parseInt32_signed_little :: "mem \<Rightarrow> addr \<Rightarrow> addr \<Rightarrow> addr \<Rightarrow> ParseResult \<times> addr \<times> mem" where
  "parseInt32_signed_little m pos in_buf_end parse_dest = copyAtomicType TYPE(32) m pos in_buf_end parse_dest"

definition parseInt64_signed_little :: "mem \<Rightarrow> addr \<Rightarrow> addr \<Rightarrow> addr \<Rightarrow> ParseResult \<times> addr \<times> mem" where
  "parseInt64_signed_little m pos in_buf_end parse_dest = copyAtomicType TYPE(64) m pos in_buf_end parse_dest"

text \<open>The primitive a generated parser calls for an integer of the given width, signedness and byte
  order.\<close>

fun parseInt :: "int_width \<Rightarrow> bool \<Rightarrow> byte_order \<Rightarrow> mem \<Rightarrow> addr \<Rightarrow> addr \<Rightarrow> addr \<Rightarrow> ParseResult \<times> addr \<times> mem" where
  "parseInt W8 False Big = parseInt8_unsigned_big"
| "parseInt W16 False Big = parseInt16_unsigned_big"
| "parseInt W32 False Big = parseInt32_unsigned_big"
| "parseInt W64 False Big = parseInt64_unsigned_big"
| "parseInt W8 False Little = parseInt8_unsigned_little"
| "parseInt W16 False Little = parseInt16_unsigned_little"
| "parseInt W32 False Little = parseInt32_unsigned_little"
| "parseInt W64 False Little = parseInt64_unsigned_little"
| "parseInt W8 True Big = parseInt8_signed_big"
| "parseInt W16 True Big = parseInt16_signed_big"
| "parseInt W32 True Big = parseInt32_signed_big"
| "parseInt W64 True Big = parseInt64_signed_big"
| "parseInt W8 True Little = parseInt8_signed_little"
| "parseInt W16 True Little = parseInt16_signed_little"
| "parseInt W32 True Little = parseInt32_signed_little"
| "parseInt W64 True Little = parseInt64_signed_little"

lemmas parse_int_defs [runtime_defs] =
  parseInt8_unsigned_big_def parseInt16_unsigned_big_def parseInt32_unsigned_big_def
  parseInt64_unsigned_big_def parseInt8_unsigned_little_def parseInt16_unsigned_little_def
  parseInt32_unsigned_little_def parseInt64_unsigned_little_def parseInt8_signed_big_def
  parseInt16_signed_big_def parseInt32_signed_big_def parseInt64_signed_big_def
  parseInt8_signed_little_def parseInt16_signed_little_def parseInt32_signed_little_def
  parseInt64_signed_little_def

lemma room_less:
  "n < 2 ^ 64 \<Longrightarrow> (e - p < (of_nat n :: addr)) \<longleftrightarrow> room p e < n"
  by (simp add: room_def word_less_nat_alt unat_of_nat)

lemma store_load_word:
  "byte_sized TYPE('a::len) \<Longrightarrow>
     store_word m d (load_word m p :: 'a word) = store_bytes m d (load_bytes m p (sizeof TYPE('a)))"
  by (simp add: store_word_def le_of_load_word)

lemma le_of_bswap:
  assumes "byte_sized TYPE('a::len)"
  shows "le_of_word (sizeof TYPE('a)) (bswap w :: 'a word) = rev (le_of_word (sizeof TYPE('a)) w)"
  using le_of_word_of_le[of "rev (le_of_word (sizeof TYPE('a)) w)", where 'a = 'a] assms
  by (simp add: bswap_def byte_sized_def)

lemma store_bswap_word:
  "byte_sized TYPE('a::len) \<Longrightarrow>
     store_word m d (bswap (load_word m p :: 'a word)) = store_bytes m d (rev (load_bytes m p (sizeof TYPE('a))))"
  by (simp add: store_word_def le_of_bswap le_of_load_word)

lemma parseInt_spec:
  "parseInt w sg bo m pos fin dest =
     (if room pos fin < width_bytes w then (P_OUT_OF_DATA, pos, m)
      else (P_DONE, pos + of_nat (width_bytes w),
            store_bytes m dest (reorder bo (load_bytes m pos (width_bytes w)))))"
  using room_less[of 1 fin pos] room_less[of 2 fin pos] room_less[of 4 fin pos] room_less[of 8 fin pos]
  by (cases w; cases sg; cases bo)
     (simp_all add: parse_int_defs copyAtomicType_def store_load_word store_bswap_word reorder_def
        load_bytes_Suc)

lemma sint_unat: "sint (x :: 64 word) = (if 2 ^ 63 \<le> unat x then int (unat x) - 2 ^ 64 else int (unat x))"
proof -
  have "uint x = int (unat x)" by simp
  then show ?thesis unfolding sint_uint_cases by (simp del: of_nat_unat)
qed

lemma sint_small: "unat (x :: 64 word) < 2 ^ 63 \<Longrightarrow> sint x = int (unat x)"
  by (simp add: sint_unat)

lemma sint_large: "2 ^ 63 \<le> unat (x :: 64 word) \<Longrightarrow> sint x < 0"
  using uint_bounded[of x] unfolding sint_unat by simp

lemma sint_less_room:
  assumes "room pos fin < 2 ^ 63" "unat (len :: size_t) < 2 ^ 63"
  shows "sint (fin - pos) < sint len \<longleftrightarrow> room pos fin < unat len"
  using assms sint_small[of "fin - pos"] sint_small[of len] by (simp add: room_def del: of_nat_unat)

lemma position_in_buffer:
  assumes "pos \<le> fin" "n \<le> room pos fin"
  shows "pos \<le> pos + of_nat n" "pos + of_nat n \<le> fin" "room (pos + of_nat n) fin = room pos fin - n"
proof -
  have room: "room pos fin = unat fin - unat pos" using assms(1) by (simp add: room_def unat_sub)
  have le: "unat pos \<le> unat fin" using assms(1) by (simp add: word_le_nat_alt)
  have sum: "unat pos + n < 2 ^ 64" using assms(2) room le unat64_less[of fin] by linarith
  then have u: "unat (pos + of_nat n) = unat pos + n"
    by (subst unat_add_lem [THEN iffD1]) (auto simp: unat_of_nat)
  show "pos \<le> pos + of_nat n" "pos + of_nat n \<le> fin"
    using u assms(2) room le by (simp_all add: word_le_nat_alt)
  then show "room (pos + of_nat n) fin = room pos fin - n"
    using u room by (simp add: room_def unat_sub)
qed

lemma allocateCopyBytes_cases:
  assumes "room pos fin < 2 ^ 63" "unat len < 2 ^ 63"
  shows "allocateCopyBytes m pos fin d len area =
     (if room pos fin < unat len then (P_OUT_OF_DATA, pos, d, area, m)
      else if area_space area < len then (P_AREA_FULL, pos, d, area, m)
      else (P_DONE, pos + len, nextAllocPos area,
            area\<lparr> nextAllocPos := nextAllocPos area + len \<rparr>, memcpy m (nextAllocPos area) pos len))"
  using sint_less_room[OF assms] by (simp add: allocateCopyBytes_def allocate_def)

text \<open>C14: every integer primitive of the runtime, whatever its width, signedness and byte order,
  stores at the destination the number the next bytes of the input mean in that byte order, as a
  C++ variable of that type reads it, moves the position behind them and touches no other byte;
  when fewer bytes are left it reports \<open>OUT_OF_DATA\<close> and changes nothing.\<close>

theorem parseInt_decodes:
  "case parseInt w sg bo m pos fin dest of (r, pos', m') \<Rightarrow>
     if width_bytes w \<le> room pos fin
     then r = P_DONE \<and> pos' = pos + of_nat (width_bytes w)
          \<and> c_value w sg m' dest = wire_value sg bo (load_bytes m pos (width_bytes w))
          \<and> (\<forall>x. x \<in> range_of dest (width_bytes w) \<or> m' x = m x)
     else r = P_OUT_OF_DATA \<and> pos' = pos \<and> m' = m"
  by (auto simp: parseInt_spec c_value_wire wire_value_reorder dest: store_bytes_changed)

text \<open>C19: reading a byte string into a unit area either finds too little input, or too little room,
  and then changes nothing, or copies exactly the requested bytes of the input into a block of
  the area that was not in use, leaving every byte already handed out, and every byte outside
  the area, as it was.  The position stays inside the input.\<close>

theorem allocateCopyBytes_correct:
  assumes wf: "area_wf area" and buf: "pos \<le> fin" "room pos fin < 2 ^ 63" "unat len < 2 ^ 63"
    and apart: "range_of pos (unat len) \<inter> area_arena area = {}"
  shows "case allocateCopyBytes m pos fin d len area of (r, pos', dest, area', m') \<Rightarrow>
     (case r of
        P_OUT_OF_DATA \<Rightarrow> room pos fin < unat len
      | P_AREA_FULL \<Rightarrow> unat len \<le> room pos fin \<and> area_space area < len
      | P_NEXT \<Rightarrow> False
      | P_DONE \<Rightarrow> load_bytes m' dest (unat len) = load_bytes m pos (unat len)
               \<and> range_of dest (unat len) \<subseteq> area_arena area - area_used area
               \<and> (\<forall>x. x \<in> range_of dest (unat len) \<or> m' x = m x)
               \<and> area_wf area' \<and> area_used area' = area_used area \<union> range_of dest (unat len)
               \<and> pos' = pos + len \<and> pos' \<le> fin)
     \<and> (r = P_DONE \<or> (pos', dest, area', m') = (pos, d, area, m))"
proof -
  have "\<not> room pos fin < unat len \<Longrightarrow> \<not> area_space area < len \<Longrightarrow>
      range_of (nextAllocPos area) (unat len) \<subseteq> area_arena area - area_used area
      \<and> area_wf (area\<lparr> nextAllocPos := nextAllocPos area + len \<rparr>)
      \<and> area_used (area\<lparr> nextAllocPos := nextAllocPos area + len \<rparr>) =
          area_used area \<union> range_of (nextAllocPos area) (unat len)"
    using ua.alloc_in_arena[OF wf, of len d] ua.alloc_fresh[OF wf, of len d]
      ua.alloc_used[OF wf, of len d] allocate_wf[OF wf, of len d True]
    by (auto simp: allocate_granted not_less)
  moreover have "\<not> room pos fin < unat len \<Longrightarrow> pos + len \<le> fin"
    using position_in_buffer(2)[OF buf(1), of "unat len"] by simp
  ultimately show ?thesis
    by (auto simp: allocateCopyBytes_cases[OF buf(2,3)] load_bytes_memcpy dest: memcpy_changed)
qed

theorem allocateCopyBytes_correct_witness:
  "\<exists>area' m'. allocateCopyBytes (\<lambda>a. ucast a) 0x100 0x108 0 3 (UnitArea 0x1000 48)
               = (P_DONE, 0x103, 0x1010, area', m')
             \<and> load_bytes m' 0x1010 3 = [0, 1, 2] \<and> area_used area' = range_of 0x1010 3"
proof -
  have wf: "area_wf (UnitArea 0x1000 48)" using UnitArea_wf(1)[of 48 "0x1000"] by simp
  have apart: "range_of 0x100 (unat (3::size_t)) \<inter> area_arena (UnitArea 0x1000 48) = {}"
    using disjoint_rangesI[of "0x100" 3 "0x1010" 32] UnitArea_wf(3)[of 48 "0x1000"]
    by (simp add: disjoint_ranges_def)
  have used: "area_used (UnitArea 0x1000 48) = {}" using UnitArea_wf(2)[of 48 "0x1000"] by simp
  show ?thesis
    using allocateCopyBytes_correct[OF wf _ _ _ apart, of "0x108" "\<lambda>a. ucast a" 0] used
    by (simp add: room_def allocateCopyBytes_cases area_defs load_bytes_def upt_rec)
qed

text \<open>C29: the byte-string primitives compare the requested length as a signed number.  A length of
  \<open>2 ^ 63\<close> or more therefore passes the check on any buffer: \<open>advance\<close> and \<open>copyBytes\<close> report
  success without the bytes being there, and the position ends up in front of where it was.\<close>

theorem huge_length_passes_check:
  assumes "2 ^ 63 \<le> unat len" "room pos fin < 2 ^ 63"
  shows "advance pos fin len = (P_DONE, pos + len)
       \<and> fst (copyBytes m pos fin dest len) = P_DONE
       \<and> (2 ^ 64 - unat len \<le> unat pos \<longrightarrow> pos + len < pos)"
proof -
  have "\<not> sint (fin - pos) < sint len"
    using sint_large[OF assms(1)] sint_small[of "fin - pos"] assms(2)
    by (simp add: room_def del: of_nat_unat)
  moreover have "2 ^ 64 - unat len \<le> unat pos \<Longrightarrow> pos + len < pos"
    using unat_plus_if'[of pos len] unat64_less[of len] by (simp add: word_less_nat_alt) linarith
  ultimately show ?thesis by (simp add: advance_def copyBytes_def)
qed

theorem huge_length_passes_check_witness:
  "advance 0x100 0x108 (- 4) = (P_DONE, 0xFC) \<and> room 0x100 0x108 = 8"
  using huge_length_passes_check[of "- 4" "0x100" "0x108" "\<lambda>_. 0" 0] by (simp add: room_def)

end
