(* ===== verification/Serialize_Util.thy ===== *)
theory Serialize_Util
  imports Parse_Util
begin

text \<open>
  \<^verbatim>\<open>runtime/serializing/util.h\<close>: the primitives every generated serializer is made of, the mirror
  image of \<open>Parse_Util\<close>.  A primitive gets the address of the value, the current position in the
  output and the end of the output buffer.  The theory closes the circle: each pair of integer
  primitives is an instance of the codec interface, and the properties at its end are stated over
  the dispatch by width, signedness and byte order that the generators perform when they print
  the name of the primitive to call.
\<close>

definition copyAtomicType_s ::
  "'a::len itself \<Rightarrow> mem \<Rightarrow> addr \<Rightarrow> addr \<Rightarrow> addr \<Rightarrow> SerializeResult \<times> addr \<times> mem" where
  "copyAtomicType_s T m serialize_src pos out_buf_end =
     (if out_buf_end - pos < of_nat (sizeof T) then (S_OUT_BUF_FULL, pos, m)
      else (S_DONE, pos + of_nat (sizeof T),
            store_word m pos (load_word m serialize_src :: 'a word)))"

definition copyBytes_s :: "mem \<Rightarrow> addr \<Rightarrow> size_t \<Rightarrow> addr \<Rightarrow> addr \<Rightarrow> SerializeResult \<times> addr \<times> mem" where
  "copyBytes_s m serialize_src len pos out_buf_end =
     (if sint (out_buf_end - pos) < sint len then (S_OUT_BUF_FULL, pos, m)
      else (S_DONE, pos + len, memcpy m pos serialize_src len))"

definition serializeInt8_unsigned_big :: "mem \<Rightarrow> addr \<Rightarrow> addr \<Rightarrow> addr \<Rightarrow> SerializeResult \<times> addr \<times> mem" where
  "serializeInt8_unsigned_big m serialize_src pos out_buf_end =
     copyAtomicType_s TYPE(8) m serialize_src pos out_buf_end"

definition serializeInt16_unsigned_big :: "mem \<Rightarrow> addr \<Rightarrow> addr \<Rightarrow> addr \<Rightarrow> SerializeResult \<times> addr \<times> mem" where
  "serializeInt16_unsigned_big m serialize_src pos out_buf_end =
     (if out_buf_end - pos < of_nat (sizeof TYPE(16)) then (S_OUT_BUF_FULL, pos, m)
      else (S_DONE, pos + of_nat (sizeof TYPE(16)),
            store_word m pos (bswap (load_word m serialize_src :: 16 word))))"

definition serializeInt32_unsigned_big :: "mem \<Rightarrow> addr \<Rightarrow> addr \<Rightarrow> addr \<Rightarrow> SerializeResult \<times> addr \<times> mem" where
  "serializeInt32_unsigned_big m serialize_src pos out_buf_end =
     (if out_buf_end - pos < of_nat (sizeof TYPE(32)) then (S_OUT_BUF_FULL, pos, m)
      else (S_DONE, pos + of_nat (sizeof TYPE(32)),
            store_word m pos (bswap (load_word m serialize_src :: 32 word))))"

definition serializeInt64_unsigned_big :: "mem \<Rightarrow> addr \<Rightarrow> addr \<Rightarrow> addr \<Rightarrow> SerializeResult \<times> addr \<times> mem" where
  "serializeInt64_unsigned_big m serialize_src pos out_buf_end =
     (if out_buf_end - pos < of_nat (sizeof TYPE(64)) then (S_OUT_BUF_FULL, pos, m)
      else (S_DONE, pos + of_nat (sizeof TYPE(64)),
            store_word m pos (bswap (load_word m serialize_src :: 64 word))))"

definition serializeInt8_unsigned_little :: "mem \<Rightarrow> addr \<Rightarrow> addr \<Rightarrow> addr \<Rightarrow> SerializeResult \<times> addr \<times> mem" where
  "serializeInt8_unsigned_little m serialize_src pos out_buf_end =
     copyAtomicType_s TYPE(8) m serialize_src pos out_buf_end"

definition serializeInt16_unsigned_little :: "mem \<Rightarrow> addr \<Rightarrow> addr \<Rightarrow> addr \<Rightarrow> SerializeResult \<times> addr \<times> mem" where
  "serializeInt16_unsigned_little m serialize_src pos out_buf_end =
     copyAtomicType_s TYPE(16) m serialize_src pos out_buf_end"

definition serializeInt32_unsigned_little :: "mem \<Rightarrow> addr \<Rightarrow> addr \<Rightarrow> addr \<Rightarrow> SerializeResult \<times> addr \<times> mem" where
  "serializeInt32_unsigned_little m serialize_src pos out_buf_end =
     copyAtomicType_s TYPE(32) m serialize_src pos out_buf_end"

definition serializeInt64_unsigned_little :: "mem \<Rightarrow> addr \<Rightarrow> addr \<Rightarrow> addr \<Rightarrow> SerializeResult \<times> addr \<times> mem" where
  "serializeInt64_unsigned_little m serialize_src pos out_buf_end =
     copyAtomicType_s TYPE(64) m serialize_src pos out_buf_end"

definition serializeInt8_signed_big :: "mem \<Rightarrow> addr \<Rightarrow> addr \<Rightarrow> addr \<Rightarrow> SerializeResult \<times> addr \<times> mem" where
  "serializeInt8_signed_big m serialize_src pos out_buf_end =
     copyAtomicType_s TYPE(8) m serialize_src pos out_buf_end"

definition serializeInt16_signed_big :: "mem \<Rightarrow> addr \<Rightarrow> addr \<Rightarrow> addr \<Rightarrow> SerializeResult \<times> addr \<times> mem" where
  "serializeInt16_signed_big m serialize_src pos out_buf_end =
     (if out_buf_end - pos < of_nat (sizeof TYPE(16)) then (S_OUT_BUF_FULL, pos, m)
      else (S_DONE, pos + of_nat (sizeof TYPE(16)),
            store_word m pos (bswap (load_word m serialize_src :: 16 word))))"

definition serializeInt32_signed_big :: "mem \<Rightarrow> addr \<Rightarrow> addr \<Rightarrow> addr \<Rightarrow> SerializeResult \<times> addr \<times> mem" where
  "serializeInt32_signed_big m serialize_src pos out_buf_end =
     (if out_buf_end - pos < of_nat (sizeof TYPE(32)) then (S_OUT_BUF_FULL, pos, m)
      else (S_DONE, pos + of_nat (sizeof TYPE(32)),
            store_word m pos (bswap (load_word m serialize_src :: 32 word))))"

definition serializeInt64_signed_big :: "mem \<Rightarrow> addr \<Rightarrow> addr \<Rightarrow> addr \<Rightarrow> SerializeResult \<times> addr \<times> mem" where
  "serializeInt64_signed_big m serialize_src pos out_buf_end =
     (if out_buf_end - pos < of_nat (sizeof TYPE(64)) then (S_OUT_BUF_FULL, pos, m)
      else (S_DONE, pos + of_nat (sizeof TYPE(64)),
            store_word m pos (bswap (load_word m serialize_src :: 64 word))))"

definition serializeInt8_signed_little :: "mem \<Rightarrow> addr \<Rightarrow> addr \<Rightarrow> addr \<Rightarrow> SerializeResult \<times> addr \<times> mem" where
  "serializeInt8_signed_little m serialize_src pos out_buf_end =
     copyAtomicType_s TYPE(8) m serialize_src pos out_buf_end"

definition serializeInt16_signed_little :: "mem \<Rightarrow> addr \<Rightarrow> addr \<Rightarrow> addr \<Rightarrow> SerializeResult \<times> addr \<times> mem" where
  "serializeInt16_signed_little m serialize_src pos out_buf_end =
     copyAtomicType_s TYPE(16) m serialize_src pos out_buf_end"

definition serializeInt32_signed_little :: "mem \<Rightarrow> addr \<Rightarrow> addr \<Rightarrow> addr \<Rightarrow> SerializeResult \<times> addr \<times> mem" where
  "serializeInt32_signed_little m serialize_src pos out_buf_end =
     copyAtomicType_s TYPE(32) m serialize_src pos out_buf_end"

definition serializeInt64_signed_little :: "mem \<Rightarrow> addr \<Rightarrow> addr \<Rightarrow> addr \<Rightarrow> SerializeResult \<times> addr \<times> mem" where
  "serializeInt64_signed_little m serialize_src pos out_buf_end =
     copyAtomicType_s TYPE(64) m serialize_src pos out_buf_end"

fun serializeInt :: "int_width \<Rightarrow> bool \<Rightarrow> byte_order \<Rightarrow> mem \<Rightarrow> addr \<Rightarrow> addr \<Rightarrow> addr \<Rightarrow> SerializeResult \<times> addr \<times> mem" where
  "serializeInt W8 False Big = serializeInt8_unsigned_big"
| "serializeInt W16 False Big = serializeInt16_unsigned_big"
| "serializeInt W32 False Big = serializeInt32_unsigned_big"
| "serializeInt W64 False Big = serializeInt64_unsigned_big"
| "serializeInt W8 False Little = serializeInt8_unsigned_little"
| "serializeInt W16 False Little = serializeInt16_unsigned_little"
| "serializeInt W32 False Little = serializeInt32_unsigned_little"
| "serializeInt W64 False Little = serializeInt64_unsigned_little"
| "serializeInt W8 True Big = serializeInt8_signed_big"
| "serializeInt W16 True Big = serializeInt16_signed_big"
| "serializeInt W32 True Big = serializeInt32_signed_big"
| "serializeInt W64 True Big = serializeInt64_signed_big"
| "serializeInt W8 True Little = serializeInt8_signed_little"
| "serializeInt W16 True Little = serializeInt16_signed_little"
| "serializeInt W32 True Little = serializeInt32_signed_little"
| "serializeInt W64 True Little = serializeInt64_signed_little"

lemmas serialize_int_defs [runtime_defs] =
  serializeInt8_unsigned_big_def serializeInt16_unsigned_big_def serializeInt32_unsigned_big_def
  serializeInt64_unsigned_big_def serializeInt8_unsigned_little_def serializeInt16_unsigned_little_def
  serializeInt32_unsigned_little_def serializeInt64_unsigned_little_def serializeInt8_signed_big_def
  serializeInt16_signed_big_def serializeInt32_signed_big_def serializeInt64_signed_big_def
  serializeInt8_signed_little_def serializeInt16_signed_little_def serializeInt32_signed_little_def
  serializeInt64_signed_little_def

lemma serializeInt_spec:
  "serializeInt w sg bo m src pos fin =
     (if room pos fin < width_bytes w then (S_OUT_BUF_FULL, pos, m)
      else (S_DONE, pos + of_nat (width_bytes w),
            store_bytes m pos (reorder bo (load_bytes m src (width_bytes w)))))"
  using room_less[of 1 fin pos] room_less[of 2 fin pos] room_less[of 4 fin pos] room_less[of 8 fin pos]
  by (cases w; cases sg; cases bo)
     (simp_all add: serialize_int_defs copyAtomicType_s_def store_load_word store_bswap_word reorder_def
        load_bytes_Suc)

interpretation icodec: int_codec "parseInt w sg bo" "serializeInt w sg bo" w bo
  by unfold_locales (rule parseInt_spec serializeInt_spec)+

text \<open>C17: every integer primitive of the serializer writes the bytes that mean, in the given byte
  order, the number the C++ variable at the source holds, moves the position behind them and
  touches no other byte; without room it reports \<open>OUT_BUF_FULL\<close> and changes nothing.\<close>

theorem serializeInt_encodes:
  "case serializeInt w sg bo m src pos fin of (r, pos', m') \<Rightarrow>
     if width_bytes w \<le> room pos fin
     then r = S_DONE \<and> pos' = pos + of_nat (width_bytes w)
          \<and> wire_value sg bo (load_bytes m' pos (width_bytes w)) = c_value w sg m src
          \<and> (\<forall>x. x \<in> range_of pos (width_bytes w) \<or> m' x = m x)
     else r = S_OUT_BUF_FULL \<and> pos' = pos \<and> m' = m"
  by (auto simp: serializeInt_spec c_value_wire wire_value_reorder [symmetric, of _ bo]
      dest: store_bytes_changed)

text \<open>C9: serializing what was parsed reproduces the bytes of the wire, and parsing what was
  serialized restores the bytes of the variable, for every width, signedness and byte order,
  and even when the two sides disagree about signedness.\<close>

theorem int_roundtrip:
  "(\<forall>pos' m' out' m''.
      parseInt w sg bo m pos fin dest = (P_DONE, pos', m') \<and>
      serializeInt w sg' bo m' dest out oend = (S_DONE, out', m'') \<longrightarrow>
      load_bytes m'' out (width_bytes w) = load_bytes m pos (width_bytes w)
      \<and> out' - out = pos' - pos)
   \<and> (\<forall>pos' m' r p m''.
      serializeInt w sg bo m src pos fin = (S_DONE, pos', m') \<and>
      parseInt w sg' bo m' pos fin dest = (r, p, m'') \<longrightarrow>
      r = P_DONE \<and> p = pos' \<and> load_bytes m'' dest (width_bytes w) = load_bytes m src (width_bytes w))"
proof (intro conjI allI impI; (elim conjE)?)
  fix pos' m' out' m''
  assume 1: "parseInt w sg bo m pos fin dest = (P_DONE, pos', m')"
    and 2: "serializeInt w sg' bo m' dest out oend = (S_DONE, out', m'')"
  have 3: "serializeInt w sg bo m' dest out oend = (S_DONE, out', m'')"
    using 2 by (simp add: serializeInt_spec)
  show "load_bytes m'' out (width_bytes w) = load_bytes m pos (width_bytes w)"
    by (rule icodec.parse_then_serialize[OF 1 3])
  show "out' - out = pos' - pos"
    using 1 2 by (auto simp: parseInt_spec serializeInt_spec split: if_splits)
next
  fix pos' m' r p m''
  assume 1: "serializeInt w sg bo m src pos fin = (S_DONE, pos', m')"
    and 2: "parseInt w sg' bo m' pos fin dest = (r, p, m'')"
  have 3: "parseInt w sg bo m' pos fin dest = (r, p, m'')"
    using 2 by (simp add: parseInt_spec)
  show "r = P_DONE" "p = pos'"
    "load_bytes m'' dest (width_bytes w) = load_bytes m src (width_bytes w)"
    using icodec.serialize_then_parse[OF 1 3] by simp_all
qed

theorem int_roundtrip_witness:
  "\<exists>pos' m' out' m''.
     parseInt W16 False Big (\<lambda>a. ucast a) 0x10 0x20 0x40 = (P_DONE, pos', m')
     \<and> serializeInt W16 False Big m' 0x40 0x60 0x70 = (S_DONE, out', m'')
     \<and> load_bytes m'' 0x60 2 = load_bytes (\<lambda>a. ucast a) 0x10 2 \<and> out' - 0x60 = pos' - 0x10"
  using int_roundtrip[where w = W16 and sg = False and sg' = False and bo = Big and m = "\<lambda>a. ucast a"
      and pos = 16 and fin = 32 and dest = 64 and out = 96 and oend = 112 and src = 0]
  by (simp add: parseInt_spec serializeInt_spec room_def del: parseInt.simps serializeInt.simps)

text \<open>C25: copying a byte string out of a unit writes exactly its bytes behind the position and
  nothing else, or reports \<open>OUT_BUF_FULL\<close> and changes nothing, for lengths below \<open>2 ^ 63\<close>.\<close>

theorem copyBytes_s_correct:
  assumes "room pos fin < 2 ^ 63" "unat len < 2 ^ 63"
  shows "case copyBytes_s m src len pos fin of (r, pos', m') \<Rightarrow>
     if unat len \<le> room pos fin
     then r = S_DONE \<and> pos' = pos + len \<and> load_bytes m' pos (unat len) = load_bytes m src (unat len)
          \<and> (\<forall>x. x \<in> range_of pos (unat len) \<or> m' x = m x)
     else r = S_OUT_BUF_FULL \<and> pos' = pos \<and> m' = m"
  using sint_less_room[OF assms]
  by (auto simp: copyBytes_s_def load_bytes_memcpy dest: memcpy_changed)

theorem copyBytes_s_correct_witness:
  "\<exists>m'. copyBytes_s (\<lambda>a. ucast a) 0x10 4 0x40 0x50 = (S_DONE, 0x44, m')
      \<and> load_bytes m' 0x40 4 = [0x10, 0x11, 0x12, 0x13]"
  using copyBytes_s_correct[of "0x40" "0x50" 4 "\<lambda>a. ucast a" "0x10"]
  by (cases "copyBytes_s (\<lambda>a. ucast a) 0x10 4 0x40 0x50") (simp add: room_def load_bytes_def upt_rec)

end
