(* ===== verification/Data_Type.thy ===== *)
theory Data_Type
  imports Prelude
begin

text \<open>
  \<^verbatim>\<open>runtime/unit/data_type.h\<close>: the values a generated unit class is built of.  A field kept as a
  range of the input stream is a pointer with a length; the two mutable lists are arrays of a
  fixed capacity with a fill count.  Writing behind the array is undefined in C++ and is
  \<^const>\<open>None\<close> here.
\<close>

record stream_range_pointer =
  srp_start :: addr

record stream_range_length =
  srl_len :: size_t

record var_stream_range =
  vsr_start :: addr
  vsr_len :: size_t

record var_bytes =
  vb_len :: size_t
  vb_data :: addr

record 'a mutable_list =
  ml_len :: size_t
  ml_items :: "'a list"

definition mutable_list_index :: "size_t \<Rightarrow> int" where
  "mutable_list_index len = sint (ucast len :: 32 word)"

definition mutable_list_add :: "'a mutable_list \<Rightarrow> 'a \<Rightarrow> 'a mutable_list option" where
  "mutable_list_add l item =
     (let i = mutable_list_index (ml_len l) in
      if 0 \<le> i \<and> nat i < length (ml_items l)
      then Some (l\<lparr> ml_len := ml_len l + 1, ml_items := (ml_items l)[nat i := item] \<rparr>)
      else None)"

definition mutable_list_of_atomics_add :: "'a mutable_list \<Rightarrow> 'a \<Rightarrow> 'a mutable_list option" where
  "mutable_list_of_atomics_add l item =
     (if unat (ml_len l) < length (ml_items l)
      then Some (l\<lparr> ml_len := ml_len l + 1, ml_items := (ml_items l)[unat (ml_len l) := item] \<rparr>)
      else None)"

text \<open>The elements a list holds, and adding several of them in turn.\<close>

definition ml_elems :: "'a mutable_list \<Rightarrow> 'a list" where
  "ml_elems l = take (unat (ml_len l)) (ml_items l)"

fun add_all :: "('a mutable_list \<Rightarrow> 'a \<Rightarrow> 'a mutable_list option) \<Rightarrow> 'a mutable_list \<Rightarrow> 'a list \<Rightarrow> 'a mutable_list option" where
  "add_all add l [] = Some l"
| "add_all add l (x # xs) = Option.bind (add l x) (\<lambda>l'. add_all add l' xs)"

lemma mutable_list_index_small:
  assumes "unat len < 2 ^ 31"
  shows "mutable_list_index len = int (unat len)"
proof -
  have "take_bit 32 (unat len) = unat len" using assms by (simp add: take_bit_nat_eq_self)
  then have "unat (ucast len :: 32 word) = unat len" by (simp add: unsigned_ucast_eq)
  moreover have "uint (ucast len :: 32 word) = int (unat (ucast len :: 32 word))" by simp
  ultimately have "uint (ucast len :: 32 word) = int (unat len)" by (simp del: of_nat_unat)
  then show ?thesis
    using assms unfolding mutable_list_index_def sint_uint_cases by (simp del: of_nat_unat)
qed

lemma take_Suc_update: "n < length xs \<Longrightarrow> take (Suc n) (xs[n := x]) = take n xs @ [x]"
  by (simp add: take_Suc_conv_app_nth)

text \<open>Both lists keep what was added, in order, up to their capacity.\<close>

locale array_list =
  fixes add :: "'a mutable_list \<Rightarrow> 'a \<Rightarrow> 'a mutable_list option"
    and bound :: nat
  assumes bound: "bound \<le> 2 ^ 64"
    and add_spec: "length (ml_items l) < bound \<Longrightarrow> unat (ml_len l) \<le> length (ml_items l) \<Longrightarrow> add l x =
      (if unat (ml_len l) < length (ml_items l)
       then Some (l\<lparr> ml_len := ml_len l + 1, ml_items := (ml_items l)[unat (ml_len l) := x] \<rparr>)
       else None)"
begin

lemma add_all_spec:
  "length (ml_items l) < bound \<Longrightarrow> unat (ml_len l) \<le> length (ml_items l) \<Longrightarrow>
     (if unat (ml_len l) + length xs \<le> length (ml_items l)
      then \<exists>l'. add_all add l xs = Some l' \<and> ml_elems l' = ml_elems l @ xs
               \<and> unat (ml_len l') = unat (ml_len l) + length xs
      else add_all add l xs = None)"
proof (induction xs arbitrary: l)
  case (Cons x xs)
  show ?case
  proof (cases "unat (ml_len l) < length (ml_items l)")
    case True
    let ?l = "l\<lparr> ml_len := ml_len l + 1, ml_items := (ml_items l)[unat (ml_len l) := x] \<rparr>"
    have u: "unat (ml_len l + 1) = Suc (unat (ml_len l))"
      using True Cons.prems bound unat_plus_if'[of "ml_len l" 1] by simp
    have "ml_elems ?l = ml_elems l @ [x]"
      using True u by (simp add: ml_elems_def take_Suc_update)
    then show ?thesis using Cons.IH[of ?l] Cons.prems True u by (simp add: add_spec split: if_splits)
  qed (use Cons.prems in \<open>auto simp: add_spec\<close>)
qed simp

end

interpretation pointers: array_list mutable_list_add "2 ^ 31"
proof
  show "(2::nat) ^ 31 \<le> 2 ^ 64" by simp
next
  fix l :: "'a mutable_list" and x
  assume "length (ml_items l) < 2 ^ 31" "unat (ml_len l) \<le> length (ml_items l)"
  then have "mutable_list_index (ml_len l) = int (unat (ml_len l))"
    by (intro mutable_list_index_small) linarith
  then show "mutable_list_add l x =
      (if unat (ml_len l) < length (ml_items l)
       then Some (l\<lparr> ml_len := ml_len l + 1, ml_items := (ml_items l)[unat (ml_len l) := x] \<rparr>)
       else None)"
    unfolding mutable_list_add_def Let_def by (simp del: of_nat_unat)
qed

interpretation atomics: array_list mutable_list_of_atomics_add "2 ^ 64"
  by unfold_locales (simp_all add: mutable_list_of_atomics_add_def)

text \<open>C28: adding items to an empty list of a generated unit keeps them all, in order, as long as
  they fit its capacity; an addition beyond the capacity writes behind the array.  The list of
  pointers indexes with an \<^verbatim>\<open>int\<close>, so its capacity must stay below \<open>2 ^ 31\<close>.\<close>

theorem mutable_list_keeps_items:
  assumes "length room < 2 ^ 31"
  shows "if length xs \<le> length room
         then (\<exists>l. add_all mutable_list_add \<lparr> ml_len = 0, ml_items = room \<rparr> xs = Some l \<and> ml_elems l = xs)
            \<and> (\<exists>l. add_all mutable_list_of_atomics_add \<lparr> ml_len = 0, ml_items = room \<rparr> xs = Some l
                  \<and> ml_elems l = xs)
         else add_all mutable_list_add \<lparr> ml_len = 0, ml_items = room \<rparr> xs = None
            \<and> add_all mutable_list_of_atomics_add \<lparr> ml_len = 0, ml_items = room \<rparr> xs = None"
  using pointers.add_all_spec[of "\<lparr> ml_len = 0, ml_items = room \<rparr>" xs]
    atomics.add_all_spec[of "\<lparr> ml_len = 0, ml_items = room \<rparr>" xs] assms
  by (auto simp: ml_elems_def)

theorem mutable_list_keeps_items_witness:
  "add_all mutable_list_add \<lparr> ml_len = 0, ml_items = [0, 0] \<rparr> [7, 8, 9 :: nat] = None
   \<and> (\<exists>l. add_all mutable_list_add \<lparr> ml_len = 0, ml_items = [0, 0] \<rparr> [7, 8 :: nat] = Some l \<and> ml_elems l = [7, 8])"
  using mutable_list_keeps_items[of "[0, 0 :: nat]" "[7, 8, 9]"]
    mutable_list_keeps_items[of "[0, 0 :: nat]" "[7, 8]"] by simp

end
