(* ===== verification/Util_String.thy ===== *)
theory Util_String
  imports Prelude "HOL-Library.Char_ord" "HOL-Library.Monad_Syntax"
begin

text \<open>
  The string helpers of \<^verbatim>\<open>util/util.h\<close> and \<^verbatim>\<open>util/util.cc\<close> that search, cut and glue.

  A \<^verbatim>\<open>std::string\<close> is a \<^typ>\<open>string\<close>; HOL's characters are exactly the 256 values of a
  \<^verbatim>\<open>char\<close>.  \<open>str_find\<close> and \<open>str_rfind\<close> are \<^verbatim>\<open>std::string::find\<close> and \<^verbatim>\<open>rfind\<close> with
  \<^const>\<open>None\<close> for \<^verbatim>\<open>npos\<close>.  The loops of \<open>strsplit\<close> and \<open>strreplace\<close> need not end, so they
  are partial functions whose value is \<^const>\<open>None\<close> when the C++ loop runs for ever.  Character
  classes are those of the C locale.
\<close>

fun str_find :: "string \<Rightarrow> string \<Rightarrow> nat option" where
  "str_find [] d = (if d = [] then Some 0 else None)"
| "str_find (c # s) d = (if prefix d (c # s) then Some 0 else map_option Suc (str_find s d))"

fun str_rfind :: "string \<Rightarrow> string \<Rightarrow> nat option" where
  "str_rfind [] d = (if d = [] then Some 0 else None)"
| "str_rfind (c # s) d =
     (case str_rfind s d of Some i \<Rightarrow> Some (Suc i)
      | None \<Rightarrow> if prefix d (c # s) then Some 0 else None)"

partial_function (option) strsplit_loop :: "string \<Rightarrow> string \<Rightarrow> string list \<Rightarrow> string list option" where
  "strsplit_loop delim s l =
     (case str_find s delim of
        None \<Rightarrow> Some (l @ [s])
      | Some p \<Rightarrow> strsplit_loop delim (drop (p + length delim) s) (l @ [take p s]))"

definition strsplit :: "string \<Rightarrow> string \<Rightarrow> string list option" where
  "strsplit s delim = strsplit_loop delim s []"

fun strjoin_loop :: "string list \<Rightarrow> string \<Rightarrow> bool \<Rightarrow> string \<Rightarrow> string" where
  "strjoin_loop [] delim first result = result"
| "strjoin_loop (x # xs) delim first result =
     strjoin_loop xs delim False ((if \<not> first then result @ delim else result) @ x)"

definition strjoin :: "string list \<Rightarrow> string \<Rightarrow> string" where
  "strjoin l delim = strjoin_loop l delim True []"

partial_function (option) strreplace_loop :: "string \<Rightarrow> string \<Rightarrow> string \<Rightarrow> string option" where
  "strreplace_loop r old n =
     (case str_find r old of
        None \<Rightarrow> Some r
      | Some i \<Rightarrow> strreplace_loop (take i r @ n @ drop (i + length old) r) old n)"

definition strreplace :: "string \<Rightarrow> string \<Rightarrow> string \<Rightarrow> string option" where
  "strreplace s old n = strreplace_loop s old n"

definition startsWith :: "string \<Rightarrow> string \<Rightarrow> bool" where
  "startsWith s pre \<longleftrightarrow> str_find s pre = Some 0"

definition endsWith :: "string \<Rightarrow> string \<Rightarrow> bool" where
  "endsWith s suf \<longleftrightarrow>
     (case str_rfind s suf of None \<Rightarrow> False | Some i \<Rightarrow> i = length s - length suf)"

definition c_isspace :: "char \<Rightarrow> bool" where
  "c_isspace c \<longleftrightarrow> c \<in> set [CHR '' '', CHR 0x09, CHR 0x0A, CHR 0x0B, CHR 0x0C, CHR 0x0D]"

definition c_isdigit :: "char \<Rightarrow> bool" where
  "c_isdigit c \<longleftrightarrow> CHR ''0'' \<le> c \<and> c \<le> CHR ''9''"

definition c_isupper :: "char \<Rightarrow> bool" where
  "c_isupper c \<longleftrightarrow> CHR ''A'' \<le> c \<and> c \<le> CHR ''Z''"

definition c_islower :: "char \<Rightarrow> bool" where
  "c_islower c \<longleftrightarrow> CHR ''a'' \<le> c \<and> c \<le> CHR ''z''"

definition c_isalnum :: "char \<Rightarrow> bool" where
  "c_isalnum c \<longleftrightarrow> c_isdigit c \<or> c_isupper c \<or> c_islower c"

definition c_isprint :: "char \<Rightarrow> bool" where
  "c_isprint c \<longleftrightarrow> CHR '' '' \<le> c \<and> c \<le> CHR ''~''"

definition c_tolower :: "char \<Rightarrow> char" where
  "c_tolower c = (if c_isupper c then char_of (of_char c + 32 :: nat) else c)"

definition c_toupper :: "char \<Rightarrow> char" where
  "c_toupper c = (if c_islower c then char_of (of_char c - 32 :: nat) else c)"

definition strtolower :: "string \<Rightarrow> string" where
  "strtolower s = map c_tolower s"

definition strtoupper :: "string \<Rightarrow> string" where
  "strtoupper s = map c_toupper s"

definition strtrim :: "string \<Rightarrow> string" where
  "strtrim s = (let t = dropWhile c_isspace s in rev (dropWhile c_isspace (rev t)))"

text \<open>Occurrence of a string in another, as the searches find it.\<close>

definition occurs :: "string \<Rightarrow> string \<Rightarrow> bool" where
  "occurs d s \<longleftrightarrow> sublist d s"

lemma str_find_None: "str_find s d = None \<longleftrightarrow> \<not> occurs d s"
  by (induction s) (auto simp: occurs_def sublist_Cons_right)

lemma str_find_Some:
  "str_find s d = Some p \<Longrightarrow>
     p + length d \<le> length s \<and> take (length d) (drop p s) = d \<and> s = take p s @ d @ drop (p + length d) s"
proof (induction s arbitrary: p)
  case (Cons c s)
  show ?case
  proof (cases "prefix d (c # s)")
    case True
    then have "p = 0" using Cons.prems by simp
    moreover obtain zs where "c # s = d @ zs" using True by (auto simp: prefix_def)
    ultimately show ?thesis using length_append[of d zs] by (simp del: length_append)
  next
    case False
    then obtain q where "str_find s d = Some q" "p = Suc q" using Cons.prems by auto
    with Cons.IH show ?thesis by auto
  qed
qed (auto split: if_splits)

lemma str_find_first:
  "str_find s d = Some p \<Longrightarrow> d \<noteq> [] \<Longrightarrow> \<not> occurs d (take (p + length d - 1) s)"
proof (induction s arbitrary: p)
  case (Cons c s)
  show ?case
  proof (cases "prefix d (c # s)")
    case True
    then have "p = 0" using Cons.prems by simp
    then show ?thesis
      using Cons.prems(2) by (cases d) (auto simp: occurs_def dest!: sublist_length_le)
  next
    case False
    then obtain q where q: "str_find s d = Some q" "p = Suc q" using Cons.prems by auto
    from Cons.IH[OF q(1) Cons.prems(2)] have "\<not> occurs d (take (q + length d - 1) s)" .
    moreover have "\<not> prefix d (c # take (q + length d - 1) s)"
      using False by (metis append_prefixD take_Suc_Cons append_take_drop_id prefix_order.trans take_is_prefix)
    moreover have "p + length d - 1 = Suc (q + length d - 1)"
      using q Cons.prems(2) by (cases d) auto
    ultimately show ?thesis by (simp add: occurs_def sublist_Cons_right)
  qed
qed (auto split: if_splits)

lemma strjoin_loop_False: "strjoin_loop xs d False r = r @ concat (map (\<lambda>x. d @ x) xs)"
  by (induction xs arbitrary: r) simp_all

lemma strjoin_simps [simp]:
  "strjoin [] d = []" "strjoin [x] d = x" "strjoin (x # y # xs) d = x @ d @ strjoin (y # xs) d"
  by (simp_all add: strjoin_def strjoin_loop_False)

lemma strjoin_Cons: "xs \<noteq> [] \<Longrightarrow> strjoin (x # xs) d = x @ d @ strjoin xs d"
  by (cases xs) simp_all

lemma occurs_take: "occurs d (take n s) \<Longrightarrow> occurs d s"
  unfolding occurs_def by (metis append_take_drop_id sublist_append)

lemma occurs_take_mono: "occurs d (take n s) \<Longrightarrow> n \<le> k \<Longrightarrow> occurs d (take k s)"
  by (metis occurs_take min.absorb1 take_take)

lemma str_find_piece:
  "str_find s d = Some p \<Longrightarrow> d \<noteq> [] \<Longrightarrow> \<not> occurs d (take p s)"
  using str_find_first[of s d p] occurs_take_mono[of d p s "p + length d - 1"]
  by (cases d) auto

lemma strsplit_loop_total:
  assumes "d \<noteq> []"
  shows "\<exists>ps. strsplit_loop d s l = Some (l @ ps) \<and> ps \<noteq> [] \<and> strjoin ps d = s
           \<and> (\<forall>x\<in>set ps. \<not> occurs d x)"
proof (induction s arbitrary: l rule: length_induct)
  case (1 s)
  show ?case
  proof (cases "str_find s d")
    case None
    moreover from None have "\<not> occurs d s" by (simp add: str_find_None)
    ultimately show ?thesis by (subst strsplit_loop.simps) (auto intro!: exI[of _ "[s]"])
  next
    case (Some p)
    note find = str_find_Some[OF Some]
    have "length (drop (p + length d) s) < length s" using find assms by (cases d) auto
    with 1 obtain ps where ps: "strsplit_loop d (drop (p + length d) s) (l @ [take p s])
        = Some ((l @ [take p s]) @ ps)" "ps \<noteq> []" "strjoin ps d = drop (p + length d) s"
        "\<forall>x\<in>set ps. \<not> occurs d x"
      by blast
    have "strjoin (take p s # ps) d = s" using ps(2,3) find by (simp add: strjoin_Cons)
    with ps Some str_find_piece[OF Some assms] show ?thesis
      by (subst strsplit_loop.simps) (auto intro!: exI[of _ "take p s # ps"])
  qed
qed

lemma str_find_empty [simp]: "str_find s [] = Some 0"
  by (cases s) simp_all

lemma strsplit_loop_empty: "strsplit_loop [] s l = None"
proof -
  have "strsplit_loop [] s l = Some y \<Longrightarrow> [] \<noteq> ([] :: char list)" for y
    by (rule strsplit_loop.raw_induct[where P = "\<lambda>d s l y. d \<noteq> []"]) (auto split: option.splits)
  then show ?thesis by (cases "strsplit_loop [] s l") auto
qed

lemma strreplace_loop_result:
  "strreplace_loop r old n = Some y \<Longrightarrow>
     \<not> occurs old y \<and> (occurs old n \<longrightarrow> occurs old r \<longrightarrow> occurs old y)"
proof (rule strreplace_loop.raw_induct
    [rotated, where P = "\<lambda>r old n y. \<not> occurs old y \<and> (occurs old n \<longrightarrow> occurs old r \<longrightarrow> occurs old y)"], assumption)
  fix loop r old n y
  assume IH: "\<And>r old n y. loop r old n = Some y \<Longrightarrow>
      \<not> occurs old y \<and> (occurs old n \<longrightarrow> occurs old r \<longrightarrow> occurs old y)"
    and step: "(case str_find r old of None \<Rightarrow> Some r
      | Some i \<Rightarrow> loop (take i r @ n @ drop (i + length old) r) old n) = Some y"
  show "\<not> occurs old y \<and> (occurs old n \<longrightarrow> occurs old r \<longrightarrow> occurs old y)"
  proof (cases "str_find r old")
    case None
    with step show ?thesis by (auto simp: str_find_None)
  next
    case (Some i)
    have "occurs old n \<Longrightarrow> occurs old (take i r @ n @ drop (i + length old) r)"
      by (simp add: occurs_def sublist_append)
    with IH step Some show ?thesis by fastforce
  qed
qed

lemma strreplace_set: "strreplace s old n = Some y \<Longrightarrow> set y \<subseteq> set s \<union> set n"
  unfolding strreplace_def
proof (rule strreplace_loop.raw_induct [rotated, where P = "\<lambda>r old n y. set y \<subseteq> set r \<union> set n"], assumption)
  fix loop r old n y
  assume IH: "\<And>r old n y. loop r old n = Some y \<Longrightarrow> set y \<subseteq> set r \<union> set n"
    and step: "(case str_find r old of None \<Rightarrow> Some r
      | Some i \<Rightarrow> loop (take i r @ n @ drop (i + length old) r) old n) = Some y"
  show "set y \<subseteq> set r \<union> set n"
  proof (cases "str_find r old")
    case (Some i)
    then have "set y \<subseteq> set (take i r @ n @ drop (i + length old) r) \<union> set n"
      using step IH[of "take i r @ n @ drop (i + length old) r" old n y] by simp
    then show ?thesis using set_take_subset[of i r] set_drop_subset[of "i + length old" r] by auto
  qed (use step in simp)
qed

lemma strreplace_diverges:
  "occurs old n \<Longrightarrow> occurs old s \<Longrightarrow> strreplace s old n = None"
  using strreplace_loop_result[of s old n] by (cases "strreplace s old n") (auto simp: strreplace_def)

lemma strreplace_loop_shrinks:
  assumes "length n < length old"
  shows "\<exists>y. strreplace_loop r old n = Some y"
proof (induction r rule: length_induct)
  case (1 r)
  show ?case
  proof (cases "str_find r old")
    case None
    then show ?thesis by (subst strreplace_loop.simps) simp
  next
    case (Some i)
    then have "length (take i r @ n @ drop (i + length old) r) < length r"
      using str_find_Some[OF Some, THEN conjunct1] assms by auto
    with 1 obtain y where "strreplace_loop (take i r @ n @ drop (i + length old) r) old n = Some y"
      by blast
    with Some show ?thesis by (subst strreplace_loop.simps) simp
  qed
qed

lemma str_find_char:
  "str_find s [c] = (if c \<in> set s then Some (length (takeWhile (\<lambda>x. x \<noteq> c) s)) else None)"
  by (induction s) auto

lemma strreplace_loop_char:
  assumes "c \<notin> set n" "c \<notin> set pre"
  shows "strreplace_loop (pre @ r) [c] n = Some (pre @ concat (map (\<lambda>x. if x = c then n else [x]) r))"
  using assms(2)
proof (induction r arbitrary: pre rule: length_induct)
  case (1 r)
  have tw: "takeWhile (\<lambda>x. x \<noteq> c) (pre @ r) = pre @ takeWhile (\<lambda>x. x \<noteq> c) r"
    using 1(2) by (subst takeWhile_append2) auto
  show ?case
  proof (cases "c \<in> set r")
    case False
    then have "concat (map (\<lambda>x. if x = c then n else [x]) r) = r"
      by (induction r) auto
    then show ?thesis using False 1(2) by (subst strreplace_loop.simps) (simp add: str_find_char)
  next
    case True
    then obtain a b where r: "r = a @ c # b" "c \<notin> set a" by (auto dest: split_list_first)
    have a: "concat (map (\<lambda>x. if x = c then n else [x]) a) = a"
      using r(2) by (induction a) auto
    have twa: "takeWhile (\<lambda>x. x \<noteq> c) r = a"
      using r by (simp add: takeWhile_append)
    have "strreplace_loop ((pre @ a @ n) @ b) [c] n
        = Some ((pre @ a @ n) @ concat (map (\<lambda>x. if x = c then n else [x]) b))"
      using 1(1)[rule_format, of b "pre @ a @ n"] 1(2) r assms(1) by simp
    moreover have "str_find (pre @ r) [c] = Some (length pre + length a)"
      using True by (simp add: str_find_char tw twa)
    ultimately show ?thesis using a by (subst strreplace_loop.simps) (simp add: r)
  qed
qed

lemma strreplace_char:
  "c \<notin> set n \<Longrightarrow> strreplace s [c] n = Some (concat (map (\<lambda>x. if x = c then n else [x]) s))"
  using strreplace_loop_char[of c n "[]" s] by (simp add: strreplace_def)

lemma startsWith_prefix [simp]: "startsWith s p \<longleftrightarrow> prefix p s"
  by (cases s) (auto simp: startsWith_def)

lemma str_rfind_Some:
  "str_rfind s d = Some i \<Longrightarrow> i + length d \<le> length s \<and> take (length d) (drop i s) = d"
proof (induction s arbitrary: i)
  case (Cons c s)
  then show ?case
  proof (cases "str_rfind s d")
    case None
    with Cons.prems have "prefix d (c # s)" "i = 0" by (auto split: if_splits)
    then show ?thesis using prefix_length_le[of d "c # s"] by (auto simp: prefix_def)
  qed auto
qed (auto split: if_splits)

lemma str_rfind_suffix: "suffix d s \<Longrightarrow> str_rfind s d = Some (length s - length d)"
proof (induction s)
  case (Cons c s)
  show ?case
  proof (cases "suffix d s")
    case True
    then show ?thesis using Cons.IH suffix_length_le[OF True] by (simp add: Suc_diff_le)
  next
    case False
    with Cons.prems have d: "d = c # s" by (simp add: suffix_Cons)
    have "str_rfind s d = None"
      using str_rfind_Some[of s d] d by (cases "str_rfind s d") auto
    then show ?thesis by (simp add: d)
  qed
qed simp

lemma endsWith_suffix [simp]: "endsWith s d \<longleftrightarrow> suffix d s"
proof
  assume "endsWith s d"
  then have i: "str_rfind s d = Some (length s - length d)"
    by (auto simp: endsWith_def split: option.splits)
  then have "drop (length s - length d) s = d" using str_rfind_Some[OF i] by simp
  then show "suffix d s" by (metis suffix_drop)
qed (simp add: endsWith_def str_rfind_suffix)

text \<open>C33: splitting a string at a non-empty delimiter always ends, joining the pieces with the
  delimiter gives the string back, and no piece contains the delimiter any more.  With an empty
  delimiter the loop of \<open>strsplit\<close> never ends.\<close>

theorem strsplit_strjoin:
  "if delim = [] then strsplit s delim = None
   else \<exists>ps. strsplit s delim = Some ps \<and> strjoin ps delim = s \<and> (\<forall>x. x \<in> set ps \<longrightarrow> \<not> occurs delim x)"
  using strsplit_loop_total[of delim s "[]"] strsplit_loop_empty[of s "[]"] by (auto simp: strsplit_def)

theorem strsplit_strjoin_witness:
  "\<exists>ps. strsplit ''a::b'' ''::'' = Some ps \<and> strjoin ps ''::'' = ''a::b''"
  using strsplit_strjoin[of "''::''" "''a::b''"] by auto

text \<open>C34: \<open>strreplace\<close> ends whenever the replacement is shorter than what it replaces, and when a
  single character is replaced by a string without it; the result no longer contains the
  replaced string and, for a single character, is the character-wise substitution.  When the
  replacement contains the replaced string and that string occurs at all, the loop never ends.\<close>

theorem strreplace_behaviour:
  "(length n < length old \<longrightarrow> (\<exists>y. strreplace s old n = Some y \<and> \<not> occurs old y))
   \<and> (c \<notin> set n \<longrightarrow> strreplace s [c] n = Some (concat (map (\<lambda>x. if x = c then n else [x]) s)))
   \<and> (occurs old n \<and> occurs old s \<longrightarrow> strreplace s old n = None)"
proof (intro conjI impI)
  assume "length n < length old"
  then show "\<exists>y. strreplace s old n = Some y \<and> \<not> occurs old y"
    using strreplace_loop_shrinks[of n old s] strreplace_loop_result[of s old n]
    unfolding strreplace_def by blast
next
  assume "c \<notin> set n"
  then show "strreplace s [c] n = Some (concat (map (\<lambda>x. if x = c then n else [x]) s))"
    by (rule strreplace_char)
next
  assume "occurs old n \<and> occurs old s"
  then show "strreplace s old n = None" by (simp add: strreplace_diverges)
qed

theorem strreplace_behaviour_witness:
  "(\<exists>y. strreplace ''a__b'' ''__'' ''_'' = Some y \<and> \<not> occurs ''__'' y)
   \<and> strreplace ''a.b'' ''.'' ''_'' = Some ''a_b'' \<and> strreplace ''a'' ''a'' ''aa'' = None"
  using strreplace_behaviour[of "''_''" "''__''" "''a__b''" "CHR ''.''"]
    strreplace_behaviour[of "''_''" "''__''" "''a.b''" "CHR ''.''"]
    strreplace_behaviour[of "''aa''" "''a''" "''a''" "CHR ''.''"]
  by (simp add: occurs_def)

end
