(* ===== verification/Util_Number.thy ===== *)
theory Util_Number
  imports Util_String
begin

text \<open>
  Numbers and strings: \<open>hash\<close> and \<open>uitoa_n\<close> of \<^verbatim>\<open>util/util.cc\<close>, \<open>atoi_n\<close> of \<^verbatim>\<open>util/util.h\<close>.

  \<open>uitoa_n\<close> is \<^const>\<open>None\<close> when its assertion fails, when it divides by zero and when its loop
  does not end.  An iterator of \<open>atoi_n\<close> is an index into the string; reading at the end gives
  the terminating NUL every \<^verbatim>\<open>std::string\<close> carries, which is no digit, so the loop never reads
  further even when the end iterator it was given lies behind the string.
\<close>

datatype util_error =
    BrokenEscape | UnknownEscape | CannotDecodeNumber | CannotDecodeCharacter | CannotEncodeCodePoint

definition char_int :: "char \<Rightarrow> int" where
  "char_int c = (let n = (of_char c :: int) in if n < 128 then n else n - 256)"

fun hash_loop :: "string \<Rightarrow> 64 word \<Rightarrow> 64 word" where
  "hash_loop [] h = h"
| "hash_loop (c # cs) h = hash_loop cs (push_bit 5 h - h + word_of_int (char_int c))"

definition hash :: "string \<Rightarrow> 64 word" where
  "hash s = hash_loop s 0"

definition uitoa_dig :: string where
  "uitoa_dig = ''0123456789abcdefghijklmnopqrstuvwxyzABCDEFGHIJKLMNOPQRSTUVWXYZ''"

partial_function (option) uitoa_loop :: "64 word \<Rightarrow> 64 word \<Rightarrow> int \<Rightarrow> string \<Rightarrow> string option" where
  "uitoa_loop value base n s =
     (if base = 0 then None
      else let s' = s @ [uitoa_dig ! unat (value mod base)]; value' = value div base
           in if value' \<noteq> 0 \<and> (n < 0 \<or> (of_nat (length s') :: 64 word) < word_of_int (n - 1))
              then uitoa_loop value' base n s' else Some s')"

definition uitoa_n :: "64 word \<Rightarrow> int \<Rightarrow> int \<Rightarrow> string option" where
  "uitoa_n value base n =
     (if (word_of_int base :: 64 word) \<le> of_nat (length uitoa_dig)
      then uitoa_loop value (word_of_int base) n [] else None)"

definition deref :: "string \<Rightarrow> nat \<Rightarrow> char" where
  "deref s i = (if i < length s then s ! i else CHR 0x00)"

definition atoi_digit :: "int \<Rightarrow> char \<Rightarrow> nat option" where
  "atoi_digit base c =
     (if c_isdigit c then Some (nat (char_int c - char_int (CHR ''0'')))
      else if char_int (CHR ''a'') \<le> char_int c \<and> char_int c < char_int (CHR ''a'') - 10 + base
      then Some (nat (char_int c - char_int (CHR ''a'') + 10))
      else if char_int (CHR ''A'') \<le> char_int c \<and> char_int c < char_int (CHR ''A'') - 10 + base
      then Some (nat (char_int c - char_int (CHR ''A'') + 10))
      else None)"

function (sequential) atoi_loop ::
  "string \<Rightarrow> nat \<Rightarrow> nat \<Rightarrow> int \<Rightarrow> bool \<Rightarrow> 'a::len word \<Rightarrow> util_error + nat \<times> 'a word" where
  "atoi_loop s i e base first n =
     (if e \<le> i then Inr (i, n)
      else case atoi_digit base (deref s i) of
             Some d \<Rightarrow> atoi_loop s (Suc i) e base False (n * word_of_int base + of_nat d)
           | None \<Rightarrow> if \<not> first then Inr (i, n) else Inl CannotDecodeNumber)"
  by pat_completeness auto
termination by (relation "measure (\<lambda>(s, i, e, base, first, n). e - i)") auto

definition atoi_n :: "string \<Rightarrow> nat \<Rightarrow> nat \<Rightarrow> int \<Rightarrow> util_error + nat \<times> 'a::len word" where
  "atoi_n s i e base =
     (if i \<noteq> e \<and> deref s i = CHR ''-''
      then (case atoi_loop s (Suc i) e base True (0 :: 'a word) of
              Inl err \<Rightarrow> Inl err | Inr (j, n) \<Rightarrow> Inr (j, - n))
      else atoi_loop s i e base True 0)"

text \<open>The digits of a number, least significant first, and the number digits mean.\<close>

fun digits_le :: "nat \<Rightarrow> nat \<Rightarrow> nat list" where
  "digits_le b v = (if b < 2 \<or> v < b then [v] else v mod b # digits_le b (v div b))"

primrec digits_val :: "nat \<Rightarrow> nat list \<Rightarrow> nat" where
  "digits_val b [] = 0"
| "digits_val b (d # ds) = d + b * digits_val b ds"

declare digits_le.simps [simp del] atoi_loop.simps [simp del]

lemma digits_val_le: "digits_val b (digits_le b v) = v"
  by (induction b v rule: digits_le.induct) (subst digits_le.simps, simp)

lemma digits_le_bound: "2 \<le> b \<Longrightarrow> \<forall>d\<in>set (digits_le b v). d < b"
  by (induction b v rule: digits_le.induct) (subst digits_le.simps, simp)

lemma hash_loop_poly: "hash_loop s h = hash_loop s 0 + 31 ^ length s * h"
proof (induction s arbitrary: h)
  case (Cons c s)
  have "push_bit 5 h - h = 31 * h" by (simp add: push_bit_eq_mult algebra_simps)
  then show ?case
    using Cons[of "push_bit 5 h - h + word_of_int (char_int c)"] Cons[of "word_of_int (char_int c)"]
    by (simp add: algebra_simps)
qed simp

lemma uitoa_dig_length [simp]: "length uitoa_dig = 62"
  by (simp add: uitoa_dig_def)

lemma digits_le_step:
  "2 \<le> b \<Longrightarrow> digits_le b v = v mod b # (if v div b = 0 then [] else digits_le b (v div b))"
  by (subst digits_le.simps) (auto simp: div_eq_0_iff)

lemma unat_div_zero: "(v :: 64 word) div b = 0 \<longleftrightarrow> unat v div unat b = 0"
  by (simp add: unat_div_distrib [symmetric] unat_eq_zero)

lemma uitoa_loop_full:
  assumes "n < 0" "2 \<le> unat b"
  shows "uitoa_loop v b n s = Some (s @ map ((!) uitoa_dig) (digits_le (unat b) (unat v)))"
proof (induction "unat v" arbitrary: v s rule: less_induct)
  case less
  show ?case
  proof (cases "v div b = 0")
    case False
    then have "unat (v div b) < unat v"
      using assms(2) by (simp add: unat_div_distrib unat_div_zero div_less_dividend div_eq_0_iff)
    from less[OF this] False assms show ?thesis
      by (subst uitoa_loop.simps)
         (auto simp: Let_def digits_le_step[of "unat b" "unat v"] unat_div_zero unat_div_distrib
           unat_mod_distrib)
  qed (use assms in \<open>subst uitoa_loop.simps,
      auto simp: Let_def digits_le_step[of "unat b" "unat v"] unat_div_zero unat_mod_distrib\<close>)
qed

lemma cut_guard:
  assumes "1 \<le> n" "n < 2 ^ 31" "k < 2 ^ 63"
  shows "(of_nat k :: 64 word) < word_of_int (n - 1) \<longleftrightarrow> k < nat (n - 1)"
proof -
  have "unat (word_of_int (n - 1) :: 64 word) = nat (n - 1)"
    using assms by (intro unat_word_of_int64) simp_all
  moreover have "unat (of_nat k :: 64 word) = k" using assms by (simp add: unat_of_nat)
  ultimately show ?thesis by (simp add: word_less_nat_alt)
qed

lemma uitoa_loop_cut:
  assumes "1 \<le> n" "n < 2 ^ 31" "2 \<le> unat b" "length s < 2 ^ 32"
  shows "uitoa_loop v b n s =
    Some (s @ map ((!) uitoa_dig) (take (max 1 (nat (n - 1) - length s)) (digits_le (unat b) (unat v))))"
  using assms(4)
proof (induction "unat v" arbitrary: v s rule: less_induct)
  case less
  have guard: "(of_nat (Suc (length s)) :: 64 word) < word_of_int (n - 1) \<longleftrightarrow> Suc (length s) < nat (n - 1)"
    using less.prems assms by (intro cut_guard) simp_all
  show ?case
  proof (cases "v div b \<noteq> 0 \<and> Suc (length s) < nat (n - 1)")
    case True
    then have "unat (v div b) < unat v"
      using assms(3) by (simp add: unat_div_distrib unat_div_zero div_less_dividend div_eq_0_iff)
    moreover have "max 1 (nat (n - 1) - length s) = Suc (max 1 (nat (n - 1) - Suc (length s)))"
      using True by (auto simp: max_def)
    ultimately show ?thesis
      using less.hyps[of "v div b" "s @ [uitoa_dig ! unat (v mod b)]"] True assms guard
      by (subst uitoa_loop.simps)
         (auto simp: Let_def digits_le_step[of "unat b" "unat v"] unat_div_zero unat_div_distrib
           unat_mod_distrib)
  next
    case False
    have "v div b \<noteq> 0 \<Longrightarrow> max 1 (nat (n - 1) - length s) = 1" using False by auto
    then show ?thesis
      using assms(1,3) guard False by (subst uitoa_loop.simps)
        (auto simp: Let_def digits_le_step[of "unat b" "unat v"] unat_div_zero unat_mod_distrib)
  qed
qed

lemma atoi_loop_digits:
  assumes "length pre = i" "\<forall>c\<in>set ds. atoi_digit base c \<noteq> None"
  shows "atoi_loop (pre @ ds @ post) i (i + length ds) base first n =
     Inr (i + length ds, foldl (\<lambda>m c. m * word_of_int base + of_nat (the (atoi_digit base c))) n ds)"
  using assms
proof (induction ds arbitrary: pre i first n)
  case (Cons c ds)
  then obtain d where d: "atoi_digit base c = Some d" by auto
  have "atoi_loop ((pre @ [c]) @ ds @ post) (Suc i) (Suc i + length ds) base False
          (n * word_of_int base + of_nat d)
      = Inr (Suc i + length ds, foldl (\<lambda>m c. m * word_of_int base + of_nat (the (atoi_digit base c)))
          (n * word_of_int base + of_nat d) ds)"
    using Cons by (intro Cons.IH) simp_all
  moreover have "(pre @ c # ds @ post) ! i = c" using Cons.prems(1) by (metis nth_append_length)
  ultimately show ?case
    using Cons.prems d by (subst atoi_loop.simps) (simp add: deref_def)
qed (simp add: atoi_loop.simps)

lemma foldl_horner:
  "foldl (\<lambda>m d. m * b + of_nat d) (0 :: 'a::len word) ds = of_nat (digits_val (unat b) (rev ds))"
proof (induction ds rule: rev_induct)
  case (snoc d ds)
  have "(of_nat (unat b) :: 'a word) = b" by simp
  with snoc show ?case by (simp add: mult.commute)
qed simp

lemma atoi_uitoa_digit:
  assumes "d < 36" "int d < base" "base \<le> 36"
  shows "atoi_digit base (uitoa_dig ! d) = Some d"
proof -
  have "d \<in> set [0..<36]" using assms(1) by simp
  then have "(if d < 10 then c_isdigit (uitoa_dig ! d) \<and> char_int (uitoa_dig ! d) = 48 + int d
       else \<not> c_isdigit (uitoa_dig ! d) \<and> char_int (uitoa_dig ! d) = 87 + int d)"
    unfolding uitoa_dig_def by (simp add: upt_rec c_isdigit_def char_int_def) 
       (elim disjE; simp add: c_isdigit_def char_int_def)
  then show ?thesis using assms by (auto simp: atoi_digit_def char_int_def split: if_splits)
qed

lemma uitoa_n_loop:
  assumes "2 \<le> base" "base \<le> 62"
  shows "uitoa_n v base n = uitoa_loop v (word_of_int base) n []" "unat (word_of_int base :: 64 word) = nat base"
proof -
  show u: "unat (word_of_int base :: 64 word) = nat base"
    using assms by (intro unat_word_of_int64) simp_all
  show "uitoa_n v base n = uitoa_loop v (word_of_int base) n []"
    using assms u by (simp add: uitoa_n_def word_le_nat_alt nat_le_iff)
qed

text \<open>C39: \<open>uitoa_n\<close> without a limit ends for every base from 2 to 36 and prints the digits of the
  number with the least significant digit first: it is the reversed string that \<open>atoi_n\<close> reads
  back as the number.\<close>

theorem uitoa_n_reversed_digits:
  assumes "2 \<le> base" "base \<le> 36"
  shows "\<exists>s. uitoa_n v base (- 1) = Some s
           \<and> (atoi_n (rev s) 0 (length s) base :: util_error + nat \<times> 64 word) = Inr (length s, v)"
proof -
  let ?b = "nat base" and ?ds = "digits_le (nat base) (unat v)"
  define s where "s = map ((!) uitoa_dig) ?ds"
  have uitoa: "uitoa_n v base (- 1) = Some s"
    using uitoa_n_loop(1)[of base v "- 1"] uitoa_n_loop(2)[of base] uitoa_loop_full[of "- 1" "word_of_int base" v "[]"] assms
    by (simp add: s_def)
  have bound: "\<forall>d\<in>set ?ds. d < ?b" using digits_le_bound[of ?b "unat v"] assms by simp
  have dig: "atoi_digit base (uitoa_dig ! d) = Some d" if "d \<in> set ?ds" for d
    using bound that assms by (intro atoi_uitoa_digit) auto
  then have "\<forall>c\<in>set (rev s). atoi_digit base c \<noteq> None" by (auto simp: s_def)
  then have loop: "atoi_loop (rev s) 0 (length s) base True (0 :: 64 word) = Inr (length s,
       foldl (\<lambda>m c. m * word_of_int base + of_nat (the (atoi_digit base c))) 0 (rev s))"
    using atoi_loop_digits[of "[]" 0 "rev s" base "[]" True 0] by simp
  have "foldl (\<lambda>m c. m * word_of_int base + of_nat (the (atoi_digit base c))) (0 :: 64 word) (rev s)
      = foldl (\<lambda>m d. m * word_of_int base + of_nat d) 0 (rev ?ds)"
    using dig by (auto simp: s_def rev_map foldl_map intro!: foldl_cong)
  also have "\<dots> = v"
    using uitoa_n_loop(2)[of base] assms by (simp add: foldl_horner digits_val_le)
  finally have "atoi_loop (rev s) 0 (length s) base True 0 = Inr (length s, v)" using loop by simp
  moreover have "deref (rev s) 0 \<noteq> CHR ''-''"
  proof -
    have "s \<noteq> []" by (simp add: s_def digits_le.simps)
    then have "deref (rev s) 0 \<in> set s" by (simp add: deref_def rev_nth)
    then obtain d where "d \<in> set ?ds" "deref (rev s) 0 = uitoa_dig ! d" by (auto simp: s_def)
    moreover have "atoi_digit base (CHR ''-'') = None"
      using assms by (simp add: atoi_digit_def c_isdigit_def char_int_def less_eq_char_def)
    ultimately show ?thesis using dig by fastforce
  qed
  ultimately show ?thesis using uitoa by (simp add: atoi_n_def)
qed

theorem uitoa_n_reversed_digits_witness: "uitoa_n 12 10 (- 1) = Some ''21''"
proof -
  have "\<exists>s. uitoa_n 12 10 (- 1) = Some s
           \<and> (atoi_n (rev s) 0 (length s) 10 :: util_error + nat \<times> 64 word) = Inr (length s, 12)"
    using uitoa_n_reversed_digits[of 10 12] by simp
  then show ?thesis
    by (simp add: uitoa_n_def uitoa_loop.simps uitoa_dig_def Let_def)
qed

text \<open>C40: with a limit of \<open>n\<close> characters, \<open>uitoa_n\<close> prints at most \<open>n - 1\<close> of them (one when \<open>n\<close> is 1),
  namely the least significant digits.\<close>

theorem uitoa_n_limit:
  assumes "2 \<le> base" "base \<le> 62" "1 \<le> n" "n < 2 ^ 31"
  shows "\<exists>full. uitoa_n v base (- 1) = Some full \<and> uitoa_n v base n = Some (take (max 1 (nat (n - 1))) full)"
  using uitoa_n_loop[OF assms(1,2)] uitoa_loop_full[of "- 1" "word_of_int base" v "[]"]
    uitoa_loop_cut[of n "word_of_int base" "[]" v] assms
  by (simp add: take_map)

theorem uitoa_n_limit_witness: "uitoa_n 1234 10 3 = Some ''43''"
  using uitoa_n_limit[of 10 3 1234]
  by (auto simp: uitoa_n_def uitoa_loop.simps uitoa_dig_def Let_def)

text \<open>The hash of a string is the polynomial in 31 over its characters modulo \<open>2 ^ 64\<close>: hashing a
  concatenation needs only the hashes of the parts and the length of the second.\<close>

theorem hash_append: "hash (s @ t) = hash s * 31 ^ length t + hash t"
proof -
  have "hash_loop (s @ t) h = hash_loop t (hash_loop s h)" for h
    by (induction s arbitrary: h) simp_all
  then show ?thesis using hash_loop_poly[of t "hash s"] by (simp add: hash_def mult.commute)
qed

end
