(* ===== verification/Utf8.thy ===== *)
theory Utf8
  imports Prelude
begin

text \<open>
  The two functions of the bundled \<^verbatim>\<open>externals/utf8proc/utf8proc.c\<close> the string escapes use: reading
  one code point from the front of a byte string, and writing one.  A code point is an
  \<^verbatim>\<open>int32_t\<close>, kept as an \<^typ>\<open>int\<close>; writing returns the bytes put into \<^verbatim>\<open>dst\<close>, none when the
  C function returns 0; reading returns the number of bytes and the code point, \<^const>\<open>None\<close> for
  \<^verbatim>\<open>UTF8PROC_ERROR_INVALIDUTF8\<close>.
\<close>

definition utf8proc_utf8class :: "byte \<Rightarrow> nat" where
  "utf8proc_utf8class b =
     (if b < 0x80 then 1 else if b < 0xC0 then 0 else if b < 0xE0 then 2
      else if b < 0xF0 then 3 else if b < 0xF8 then 4 else 0)"

definition cont_byte :: "byte \<Rightarrow> bool" where
  "cont_byte b \<longleftrightarrow> (uint b AND 0xC0) = 0x80"

definition utf8proc_iterate :: "byte list \<Rightarrow> (nat \<times> int) option" where
  "utf8proc_iterate str =
     (if str = [] then Some (0, - 1)
      else let len = utf8proc_utf8class (str ! 0) in
        if len = 0 then None
        else if len > length str then None
        else if \<not> list_all cont_byte (take (len - 1) (tl str)) then None
        else let b = (\<lambda>i. uint (str ! i));
                 uc = (if len = 1 then b 0
                   else if len = 2 then
                     (let uc = push_bit 6 (b 0 AND 0x1F) + (b 1 AND 0x3F)
                      in if uc < 0x80 then - 1 else uc)
                   else if len = 3 then
                     (let uc = push_bit 12 (b 0 AND 0x0F) + push_bit 6 (b 1 AND 0x3F) + (b 2 AND 0x3F)
                      in if uc < 0x800 \<or> (uc \<ge> 0xD800 \<and> uc < 0xE000) \<or> (uc \<ge> 0xFDD0 \<and> uc < 0xFDF0)
                         then - 1 else uc)
                   else
                     (let uc = push_bit 18 (b 0 AND 0x07) + push_bit 12 (b 1 AND 0x3F)
                               + push_bit 6 (b 2 AND 0x3F) + (b 3 AND 0x3F)
                      in if uc < 0x10000 \<or> uc \<ge> 0x110000 then - 1 else uc))
             in if uc < 0 \<or> (uc AND 0xFFFF) \<ge> 0xFFFE then None else Some (len, uc))"

definition utf8proc_codepoint_valid :: "int \<Rightarrow> bool" where
  "utf8proc_codepoint_valid uc \<longleftrightarrow>
     \<not> (uc < 0 \<or> uc \<ge> 0x110000 \<or> (uc AND 0xFFFF) \<ge> 0xFFFE \<or> (uc \<ge> 0xD800 \<and> uc < 0xE000)
        \<or> (uc \<ge> 0xFDD0 \<and> uc < 0xFDF0))"

definition utf8proc_encode_char :: "int \<Rightarrow> byte list" where
  "utf8proc_encode_char uc =
     (if uc < 0 then []
      else if uc < 0x80 then [word_of_int uc]
      else if uc < 0x800 then
        [word_of_int (0xC0 + drop_bit 6 uc), word_of_int (0x80 + (uc AND 0x3F))]
      else if uc = 0xFFFF then [0xFF]
      else if uc = 0xFFFE then [0xFE]
      else if uc < 0x10000 then
        [word_of_int (0xE0 + drop_bit 12 uc), word_of_int (0x80 + (drop_bit 6 uc AND 0x3F)),
         word_of_int (0x80 + (uc AND 0x3F))]
      else if uc < 0x110000 then
        [word_of_int (0xF0 + drop_bit 18 uc), word_of_int (0x80 + (drop_bit 12 uc AND 0x3F)),
         word_of_int (0x80 + (drop_bit 6 uc AND 0x3F)), word_of_int (0x80 + (uc AND 0x3F))]
      else [])"

lemma and_masks:
  "(x :: int) AND 0x3F = x mod 64" "x AND 0x1F = x mod 32" "x AND 0x0F = x mod 16"
  "x AND 0x07 = x mod 8" "x AND 0xFFFF = x mod 65536"
  using take_bit_eq_mask[of 6 x] take_bit_eq_mask[of 5 x] take_bit_eq_mask[of 4 x]
    take_bit_eq_mask[of 3 x] take_bit_eq_mask[of 16 x]
  by (simp_all add: take_bit_eq_mod mask_eq_exp_minus_1)

lemma uint_byte: "0 \<le> k \<Longrightarrow> k < 256 \<Longrightarrow> uint (word_of_int k :: byte) = k"
  by (simp add: uint_word_of_int)

lemma cont_byte_low: "cont_byte (word_of_int (0x80 + x mod 64))"
proof -
  have "x mod 64 \<in> set [0..63]" by simp
  moreover have "\<forall>r\<in>set [0..63]. (0x80 + r) AND 0xC0 = (0x80 :: int)" by code_simp
  ultimately show ?thesis
    unfolding cont_byte_def using uint_byte[of "0x80 + x mod 64"] by auto
qed

lemma utf8proc_iterate_pos: "utf8proc_iterate s = Some (n, cp) \<Longrightarrow> s \<noteq> [] \<Longrightarrow> 0 < n \<and> n \<le> length s"
  by (auto simp: utf8proc_iterate_def Let_def split: if_splits)

lemma class_of_int:
  assumes "0 \<le> k" "k < 256"
  shows "utf8proc_utf8class (word_of_int k) =
     (if k < 0x80 then 1 else if k < 0xC0 then 0 else if k < 0xE0 then 2
      else if k < 0xF0 then 3 else if k < 0xF8 then 4 else 0)"
  using uint_byte[OF assms] by (simp add: utf8proc_utf8class_def word_less_def)

lemmas utf8_arith = and_masks drop_bit_eq_div push_bit_eq_mult

lemma add_mod_self: "(m :: int) dvd c \<Longrightarrow> 0 \<le> r \<Longrightarrow> r < m \<Longrightarrow> (c + r) mod m = r"
  by (auto elim!: dvdE)

lemma base64_digits:
  "(x div 4096) * 4096 + (x div 64 mod 64) * 64 + x mod 64 = (x :: int)"
  "(x div 262144) * 262144 + (x div 4096 mod 64) * 4096 + (x div 64 mod 64) * 64 + x mod 64 = x"
proof -
  have d: "x div 64 div 64 = x div 4096" "x div 4096 div 64 = x div 262144"
    by (simp_all flip: zdiv_zmult2_eq)
  show 3: "(x div 4096) * 4096 + (x div 64 mod 64) * 64 + x mod 64 = x"
    using div_mult_mod_eq[of x 64] div_mult_mod_eq[of "x div 64" 64] d by linarith
  show "(x div 262144) * 262144 + (x div 4096 mod 64) * 4096 + (x div 64 mod 64) * 64 + x mod 64 = x"
    using 3 div_mult_mod_eq[of "x div 4096" 64] d by linarith
qed

lemma cont_byte_value:
  assumes "0 \<le> l" "l < 64"
  shows "cont_byte (word_of_int (128 + l))" "uint (word_of_int (128 + l) :: byte) mod 64 = l"
  using cont_byte_low[of l] uint_byte[of "128 + l"] add_mod_self[of 64 128 l] assms by simp_all

lemma iterate_2:
  assumes "utf8proc_utf8class b0 = 2" "cont_byte b1"
    and "uc = (uint b0 mod 32) * 64 + uint b1 mod 64" "0x80 \<le> uc" "uc < 0x800"
  shows "utf8proc_iterate (b0 # b1 # rest) = Some (2, uc)"
proof -
  have "uc mod 65536 = uc" using assms by simp
  then show ?thesis
    using assms by (simp add: utf8proc_iterate_def utf8_arith Let_def)
qed

lemma iterate_3:
  assumes "utf8proc_utf8class b0 = 3" "cont_byte b1" "cont_byte b2"
    and uc: "uc = (uint b0 mod 16) * 4096 + (uint b1 mod 64) * 64 + uint b2 mod 64"
      "0x800 \<le> uc" "utf8proc_codepoint_valid uc"
  shows "utf8proc_iterate (b0 # b1 # b2 # rest) = Some (3, uc)"
  using assms(1-3) uc(2,3)
  by (simp add: utf8proc_iterate_def utf8_arith Let_def numeral_2_eq_2 uc(1) [symmetric]
      utf8proc_codepoint_valid_def)

lemma iterate_4:
  assumes "utf8proc_utf8class b0 = 4" "cont_byte b1" "cont_byte b2" "cont_byte b3"
    and uc: "uc = (uint b0 mod 8) * 262144 + (uint b1 mod 64) * 4096 + (uint b2 mod 64) * 64 + uint b3 mod 64"
      "0x10000 \<le> uc" "utf8proc_codepoint_valid uc"
  shows "utf8proc_iterate (b0 # b1 # b2 # b3 # rest) = Some (4, uc)"
  using assms(1-4) uc(2,3)
  by (simp add: utf8proc_iterate_def utf8_arith Let_def numeral_2_eq_2 numeral_3_eq_3
      uc(1) [symmetric] utf8proc_codepoint_valid_def)

lemma lead_byte:
  assumes "0 \<le> h"
  shows "h < 32 \<Longrightarrow> utf8proc_utf8class (word_of_int (192 + h)) = 2 \<and> uint (word_of_int (192 + h) :: byte) mod 32 = h"
    and "h < 16 \<Longrightarrow> utf8proc_utf8class (word_of_int (224 + h)) = 3 \<and> uint (word_of_int (224 + h) :: byte) mod 16 = h"
    and "h < 8 \<Longrightarrow> utf8proc_utf8class (word_of_int (240 + h)) = 4 \<and> uint (word_of_int (240 + h) :: byte) mod 8 = h"
  using assms class_of_int[of "192 + h"] class_of_int[of "224 + h"] class_of_int[of "240 + h"]
    uint_byte[of "192 + h"] uint_byte[of "224 + h"] uint_byte[of "240 + h"]
    add_mod_self[of 32 192 h] add_mod_self[of 16 224 h] add_mod_self[of 8 240 h]
  by simp_all

lemma iterate_encode_2:
  assumes "0x80 \<le> uc" "uc < 0x800"
  shows "utf8proc_iterate (utf8proc_encode_char uc @ rest) = Some (2, uc)"
proof -
  have h: "0 \<le> uc div 64" "uc div 64 < 32" using assms by auto
  have "utf8proc_iterate (word_of_int (192 + uc div 64) # word_of_int (128 + uc mod 64) # rest) = Some (2, uc)"
    using lead_byte(1)[OF h] cont_byte_value[of "uc mod 64"] assms by (intro iterate_2) simp_all
  then show ?thesis using assms unfolding utf8proc_encode_char_def utf8_arith by simp
qed

lemma iterate_encode_3:
  assumes "0x800 \<le> uc" "uc < 0x10000" "utf8proc_codepoint_valid uc" "uc \<noteq> 0xFFFF" "uc \<noteq> 0xFFFE"
  shows "utf8proc_iterate (utf8proc_encode_char uc @ rest) = Some (3, uc)"
proof -
  have h: "0 \<le> uc div 4096" "uc div 4096 < 16" using assms by auto
  have "utf8proc_iterate (word_of_int (224 + uc div 4096) # word_of_int (128 + uc div 64 mod 64) #
      word_of_int (128 + uc mod 64) # rest) = Some (3, uc)"
  proof (rule iterate_3)
    have k: "0 \<le> uc div 64 mod 64" "uc div 64 mod 64 < 64" and l: "0 \<le> uc mod 64" "uc mod 64 < 64"
      by simp_all
    note digits = lead_byte(2)[OF h] cont_byte_value[OF k] cont_byte_value[OF l]
    show "utf8proc_utf8class (word_of_int (224 + uc div 4096)) = 3"
      "cont_byte (word_of_int (128 + uc div 64 mod 64))" "cont_byte (word_of_int (128 + uc mod 64))"
      by (simp_all only: digits)
    show "uc = uint (word_of_int (224 + uc div 4096) :: byte) mod 16 * 4096
      + uint (word_of_int (128 + uc div 64 mod 64) :: byte) mod 64 * 64
      + uint (word_of_int (128 + uc mod 64) :: byte) mod 64"
      by (simp only: digits base64_digits)
  qed (use assms in simp_all)
  then show ?thesis using assms unfolding utf8proc_encode_char_def utf8_arith by simp
qed

lemma iterate_encode_4:
  assumes "0x10000 \<le> uc" "uc < 0x110000" "utf8proc_codepoint_valid uc"
  shows "utf8proc_iterate (utf8proc_encode_char uc @ rest) = Some (4, uc)"
proof -
  have h: "0 \<le> uc div 262144" "uc div 262144 < 8" using assms by auto
  have "utf8proc_iterate (word_of_int (240 + uc div 262144) # word_of_int (128 + uc div 4096 mod 64) #
      word_of_int (128 + uc div 64 mod 64) # word_of_int (128 + uc mod 64) # rest) = Some (4, uc)"
  proof (rule iterate_4)
    have j: "0 \<le> uc div 4096 mod 64" "uc div 4096 mod 64 < 64"
      and k: "0 \<le> uc div 64 mod 64" "uc div 64 mod 64 < 64" and l: "0 \<le> uc mod 64" "uc mod 64 < 64"
      by simp_all
    note digits = lead_byte(3)[OF h] cont_byte_value[OF j] cont_byte_value[OF k] cont_byte_value[OF l]
    show "utf8proc_utf8class (word_of_int (240 + uc div 262144)) = 4"
      "cont_byte (word_of_int (128 + uc div 4096 mod 64))"
      "cont_byte (word_of_int (128 + uc div 64 mod 64))" "cont_byte (word_of_int (128 + uc mod 64))"
      by (simp_all only: digits)
    show "uc = uint (word_of_int (240 + uc div 262144) :: byte) mod 8 * 262144
      + uint (word_of_int (128 + uc div 4096 mod 64) :: byte) mod 64 * 4096
      + uint (word_of_int (128 + uc div 64 mod 64) :: byte) mod 64 * 64
      + uint (word_of_int (128 + uc mod 64) :: byte) mod 64"
      by (simp only: digits base64_digits)
  qed (use assms in simp_all)
  then show ?thesis using assms unfolding utf8proc_encode_char_def utf8_arith by simp
qed

lemma iterate_encode_1:
  assumes "0 \<le> uc" "uc < 0x80"
  shows "utf8proc_iterate (utf8proc_encode_char uc @ rest) = Some (1, uc)"
  using assms class_of_int[of uc] uint_byte[of uc]
  by (simp add: utf8proc_iterate_def utf8proc_encode_char_def utf8_arith Let_def)

lemma iterate_encode:
  assumes "utf8proc_codepoint_valid uc"
  shows "utf8proc_iterate (utf8proc_encode_char uc @ rest) = Some (length (utf8proc_encode_char uc), uc)"
proof -
  have range: "0 \<le> uc" "uc < 0x110000" "uc \<noteq> 0xFFFF" "uc \<noteq> 0xFFFE"
    using assms by (auto simp: utf8proc_codepoint_valid_def and_masks)
  consider "uc < 0x80" | "0x80 \<le> uc" "uc < 0x800" | "0x800 \<le> uc" "uc < 0x10000" | "0x10000 \<le> uc"
    by linarith
  then show ?thesis
  proof cases
    case 1 with iterate_encode_1[of uc rest] range show ?thesis by (simp add: utf8proc_encode_char_def)
  next
    case 2 with iterate_encode_2[of uc rest] show ?thesis by (simp add: utf8proc_encode_char_def)
  next
    case 3 with iterate_encode_3[of uc rest] assms range show ?thesis by (simp add: utf8proc_encode_char_def)
  next
    case 4 with iterate_encode_4[of uc rest] assms range show ?thesis by (simp add: utf8proc_encode_char_def)
  qed
qed

text \<open>C32: reading the bytes written for a valid code point gives that code point back and consumes
  exactly those bytes, whatever follows them.\<close>

theorem utf8_roundtrip:
  assumes "utf8proc_codepoint_valid uc"
  shows "utf8proc_iterate (utf8proc_encode_char uc @ rest) = Some (length (utf8proc_encode_char uc), uc)"
  by (rule iterate_encode[OF assms])

theorem utf8_roundtrip_witness:
  "utf8proc_iterate (utf8proc_encode_char 0x20AC @ [0x41]) = Some (3, 0x20AC)"
  using utf8_roundtrip[of "0x20AC" "[0x41]"]
  by (simp add: utf8proc_codepoint_valid_def and_masks utf8proc_encode_char_def)

end
