(* ===== verification/Util_Escape.thy ===== *)
theory Util_Escape
  imports Util_Number Utf8
begin

text \<open>
  The escape sequences of \<^verbatim>\<open>util/util.cc\<close>: \<open>expandEscapes\<close> and the two functions whose results it
  is meant to undo, \<open>escapeUTF8\<close> and \<open>escapeBytes\<close>.  \<open>fmt_hex w n\<close> is what the format
  \<^verbatim>\<open>%0<w>x\<close> prints.  \<open>expandEscapes\<close> walks the string by index; a thrown exception is a value
  of \<^typ>\<open>util_error\<close>.
\<close>

definition char_byte :: "char \<Rightarrow> byte" where
  "char_byte c = of_char c"

definition byte_char :: "byte \<Rightarrow> char" where
  "byte_char b = char_of (unat b)"

definition fmt_hex :: "nat \<Rightarrow> nat \<Rightarrow> string" where
  "fmt_hex w n =
     (let h = rev (map ((!) uitoa_dig) (digits_le 16 n)) in replicate (w - length h) CHR ''0'' @ h)"

definition escape_unicode :: "int \<Rightarrow> util_error + string" where
  "escape_unicode val =
     (case utf8proc_encode_char val of
        [] \<Rightarrow> Inl CannotEncodeCodePoint
      | bs \<Rightarrow> Inr (map byte_char bs))"

text \<open>One escape sequence: \<open>expand_escape s c\<close> reads the letter at index \<open>c\<close> (just behind the
  backslash) and returns the index behind the sequence and the text it stands for.\<close>

definition expand_escape :: "string \<Rightarrow> nat \<Rightarrow> util_error + nat \<times> string" where
  "expand_escape s c =
     (let l = deref s c; c = Suc c in
      if l = CHR 0x5C then Inr (c, [CHR 0x5C])
      else if l = CHR 0x22 then Inr (c, [CHR 0x22])
      else if l = CHR ''n'' then Inr (c, [CHR 0x0A])
      else if l = CHR ''r'' then Inr (c, [CHR 0x0D])
      else if l = CHR ''t'' then Inr (c, [CHR 0x09])
      else if l = CHR ''u'' \<or> l = CHR ''U'' then
        (let fin = c + (if l = CHR ''u'' then 4 else 8) in
         case (atoi_n s c fin 16 :: util_error + nat \<times> 32 word) of
           Inl err \<Rightarrow> Inl err
         | Inr (c', val) \<Rightarrow>
             if c' \<noteq> fin then Inl CannotDecodeCharacter
             else (case escape_unicode (sint val) of Inl err \<Rightarrow> Inl err | Inr t \<Rightarrow> Inr (c', t)))
      else if l = CHR ''x'' then
        (let fin = c + 2 in
         case (atoi_n s c fin 16 :: util_error + nat \<times> 8 word) of
           Inl err \<Rightarrow> Inl err
         | Inr (c', val) \<Rightarrow> if c' \<noteq> fin then Inl CannotDecodeCharacter else Inr (c', [byte_char val]))
      else Inl UnknownEscape)"

lemma expand_escape_advances: "expand_escape s c = Inr (c', t) \<Longrightarrow> c < c'"
  by (auto simp: expand_escape_def Let_def split: if_splits sum.splits)

function expand_loop :: "string \<Rightarrow> nat \<Rightarrow> string \<Rightarrow> util_error + string" where
  "expand_loop s c d =
     (if length s \<le> c then Inr d
      else if s ! c \<noteq> CHR 0x5C then expand_loop s (Suc c) (d @ [s ! c])
      else if length s \<le> Suc c then Inl BrokenEscape
      else case expand_escape s (Suc c) of
             Inl err \<Rightarrow> Inl err
           | Inr (c', t) \<Rightarrow> expand_loop s c' (d @ t))"
  by pat_completeness auto
termination
  by (relation "measure (\<lambda>(s, c, d). length s - c)") (auto dest: expand_escape_advances)

definition expandEscapes :: "string \<Rightarrow> util_error + string" where
  "expandEscapes s = expand_loop s 0 []"

definition escape_codepoint :: "int \<Rightarrow> string" where
  "escape_codepoint cp =
     (if cp = 0x5C then [CHR 0x5C, CHR 0x5C]
      else if cp = 0x22 then [CHR 0x5C, CHR 0x22]
      else if cp = 0x0A then [CHR 0x5C, CHR ''n'']
      else if cp = 0x0D then [CHR 0x5C, CHR ''r'']
      else if cp = 0x09 then [CHR 0x5C, CHR ''t'']
      else if cp \<ge> 65536 then [CHR 0x5C, CHR ''U''] @ fmt_hex 8 (nat cp)
      else if \<not> c_isprint (char_of (nat (cp mod 256))) then [CHR 0x5C, CHR ''u''] @ fmt_hex 4 (nat cp)
      else [char_of (nat (cp mod 256))])"

function escape_utf8_loop :: "byte list \<Rightarrow> string \<Rightarrow> string" where
  "escape_utf8_loop p esc =
     (if p = [] then esc
      else case utf8proc_iterate p of
             None \<Rightarrow> esc @ ''<illegal UTF8 sequence>''
           | Some (n, cp) \<Rightarrow> escape_utf8_loop (drop n p) (esc @ escape_codepoint cp))"
  by pat_completeness auto
termination
  by (relation "measure (\<lambda>(p, esc). length p)") (auto dest: utf8proc_iterate_pos)

definition escapeUTF8 :: "string \<Rightarrow> string" where
  "escapeUTF8 s = escape_utf8_loop (map char_byte s) []"

definition escape_byte :: "char \<Rightarrow> string" where
  "escape_byte c =
     (if c = CHR 0x5C then [CHR 0x5C, CHR 0x5C]
      else if c = CHR 0x22 then [CHR 0x5C, CHR 0x22]
      else if c = CHR 0x0A then [CHR 0x5C, CHR ''n'']
      else if c = CHR 0x0D then [CHR 0x5C, CHR ''r'']
      else if c = CHR 0x09 then [CHR 0x5C, CHR ''t'']
      else if c_isprint c then [c]
      else [CHR 0x5C, CHR ''x''] @ fmt_hex 2 (of_char c))"

fun escape_bytes_loop :: "string \<Rightarrow> string \<Rightarrow> string" where
  "escape_bytes_loop [] esc = esc"
| "escape_bytes_loop (c # p) esc = escape_bytes_loop p (esc @ escape_byte c)"

definition escapeBytes :: "string \<Rightarrow> string" where
  "escapeBytes s = escape_bytes_loop s []"

text \<open>The digits \<open>fmt_hex\<close> prints, most significant first.\<close>

definition hex_digits :: "nat \<Rightarrow> nat \<Rightarrow> nat list" where
  "hex_digits w n = replicate (w - length (digits_le 16 n)) 0 @ rev (digits_le 16 n)"

declare expand_loop.simps [simp del] escape_utf8_loop.simps [simp del]

lemma escape_bytes_loop: "escape_bytes_loop s esc = esc @ concat (map escape_byte s)"
  by (induction s arbitrary: esc) simp_all

lemma unat_char_byte [simp]: "unat (char_byte c) = of_char c"
proof -
  have "char_byte c = of_nat (of_char c)" by (simp add: char_byte_def of_nat_of_char)
  then show ?thesis by (simp add: unat_of_nat take_bit_nat_eq_self)
qed

lemma byte_char_inverse [simp]: "byte_char (char_byte c) = c"
  by (simp add: byte_char_def)

lemma byte_char_of_nat [simp]: "byte_char (of_nat (of_char c)) = c"
  using byte_char_inverse[of c] by (simp add: char_byte_def of_nat_of_char)

lemma digits_le_length: "0 < w \<Longrightarrow> n < 16 ^ w \<Longrightarrow> length (digits_le 16 n) \<le> w"
proof (induction w arbitrary: n)
  case (Suc w)
  show ?case
  proof (cases "n < 16")
    case False
    then have "0 < w" using Suc.prems by (cases w) auto
    moreover have "n div 16 < 16 ^ w" using Suc.prems(2) by (simp add: div_less_iff_less_mult mult.commute)
    ultimately show ?thesis using Suc.IH[of "n div 16"] False by (simp add: digits_le.simps[of 16 n])
  qed (simp add: digits_le.simps)
qed simp

lemma fmt_hex_digits: "fmt_hex w n = map ((!) uitoa_dig) (hex_digits w n)"
  by (simp add: fmt_hex_def hex_digits_def Let_def rev_map map_replicate_const uitoa_dig_def)

lemma hex_digits_less: "d \<in> set (hex_digits w n) \<Longrightarrow> d < 16"
  using digits_le_bound[of 16 n] by (auto simp: hex_digits_def split: if_splits)

lemma digits_val_zeros: "digits_val b (ds @ replicate k 0) = digits_val b ds"
proof -
  have "digits_val b (replicate k 0) = 0" by (induction k) simp_all
  then show ?thesis by (induction ds) simp_all
qed

lemma hex_digits_val: "digits_val 16 (rev (hex_digits w n)) = n"
  by (simp add: hex_digits_def digits_val_zeros digits_val_le)

lemma length_fmt_hex: "0 < w \<Longrightarrow> n < 16 ^ w \<Longrightarrow> length (fmt_hex w n) = w"
  using digits_le_length[of w n] by (simp add: fmt_hex_digits hex_digits_def)

lemma atoi_fmt_hex:
  assumes "0 < w" "n < 16 ^ w" "unat (16 :: 'a::len word) = 16"
  shows "atoi_n (pre @ fmt_hex w n @ post) (length pre) (length pre + w) 16 =
     Inr (length pre + w, of_nat n :: 'a word)"
proof -
  let ?h = "fmt_hex w n" and ?s = "pre @ fmt_hex w n @ post"
  have dig: "atoi_digit 16 (uitoa_dig ! d) = Some d" if "d \<in> set (hex_digits w n)" for d
    using hex_digits_less[OF that] by (intro atoi_uitoa_digit) auto
  then have all: "\<forall>c\<in>set ?h. atoi_digit 16 c \<noteq> None" by (auto simp: fmt_hex_digits)
  have len: "length ?h = w" using assms(1,2) by (rule length_fmt_hex)
  have "foldl (\<lambda>m c. m * word_of_int 16 + of_nat (the (atoi_digit 16 c))) (0 :: 'a word) ?h
      = foldl (\<lambda>m d. m * 16 + of_nat d) 0 (hex_digits w n)"
    using dig by (auto simp: fmt_hex_digits foldl_map intro!: foldl_cong)
  also have "\<dots> = of_nat n" unfolding foldl_horner assms(3) hex_digits_val ..
  finally have loop: "atoi_loop ?s (length pre) (length pre + w) 16 True (0 :: 'a word)
      = Inr (length pre + w, of_nat n)"
    using atoi_loop_digits[of pre "length pre" ?h 16 post True "0 :: 'a word"] all len by simp
  have "deref ?s (length pre) = ?h ! 0" "?h ! 0 \<in> set ?h"
    using len assms(1) by (auto simp: deref_def nth_append)
  moreover have "atoi_digit 16 (CHR ''-'') = None" by code_simp
  ultimately have "deref ?s (length pre) \<noteq> CHR ''-''" using all by fastforce
  with loop show ?thesis by (simp add: atoi_n_def)
qed

lemma deref_append [simp]:
  "deref (pre @ c # post) (length pre) = c"
  "deref (pre @ a # c # post) (Suc (length pre)) = c"
  by (simp_all add: deref_def nth_append)

lemma expand_plain:
  "c \<noteq> CHR 0x5C \<Longrightarrow>
     expand_loop (pre @ c # post) (length pre) d = expand_loop (pre @ c # post) (Suc (length pre)) (d @ [c])"
  by (subst expand_loop.simps) simp

lemma expand_sequence:
  assumes "expand_escape (pre @ CHR 0x5C # l # post) (Suc (length pre)) = Inr (c', t)"
  shows "expand_loop (pre @ CHR 0x5C # l # post) (length pre) d =
    expand_loop (pre @ CHR 0x5C # l # post) c' (d @ t)"
  using assms by (subst expand_loop.simps) simp

lemma expand_hex:
  assumes "n < 16 ^ 2"
  shows "expand_escape (pre @ CHR 0x5C # CHR ''x'' # fmt_hex 2 n @ post) (Suc (length pre)) =
     Inr (length pre + 4, [byte_char (of_nat n)])"
  using atoi_fmt_hex[where 'a = 8, of 2 n "pre @ [CHR 0x5C, CHR ''x'']" post] assms
  by (simp add: expand_escape_def Let_def)

lemma escape_byte_shape:
  "(\<exists>l. escape_byte c = [CHR 0x5C, l] \<and>
      (l, c) \<in> set [(CHR 0x5C, CHR 0x5C), (CHR 0x22, CHR 0x22), (CHR ''n'', CHR 0x0A),
                    (CHR ''r'', CHR 0x0D), (CHR ''t'', CHR 0x09)])
   \<or> escape_byte c = [c] \<and> c \<noteq> CHR 0x5C
   \<or> escape_byte c = CHR 0x5C # CHR ''x'' # fmt_hex 2 (of_char c)"
  by (simp add: escape_byte_def)

lemma expand_escape_byte:
  "expand_loop (pre @ escape_byte c @ post) (length pre) d =
   expand_loop (pre @ escape_byte c @ post) (length pre + length (escape_byte c)) (d @ [c])"
proof -
  consider (simple) l where "escape_byte c = [CHR 0x5C, l]"
      "(l, c) \<in> set [(CHR 0x5C, CHR 0x5C), (CHR 0x22, CHR 0x22), (CHR ''n'', CHR 0x0A),
                     (CHR ''r'', CHR 0x0D), (CHR ''t'', CHR 0x09)]"
    | (plain) "escape_byte c = [c]" "c \<noteq> CHR 0x5C"
    | (hex) "escape_byte c = CHR 0x5C # CHR ''x'' # fmt_hex 2 (of_char c)"
    using escape_byte_shape[of c] by blast
  then show ?thesis
  proof cases
    case simple
    then have "expand_escape (pre @ CHR 0x5C # l # post) (Suc (length pre)) = Inr (length pre + 2, [c])"
      by (auto simp: expand_escape_def Let_def)
    from expand_sequence[OF this] simple show ?thesis by simp
  next
    case plain
    with expand_plain[of c pre post] show ?thesis by simp
  next
    case hex
    have "of_char c < (16 :: nat) ^ 2" by simp
    then show ?thesis
      using expand_sequence[OF expand_hex[of "of_char c"]] length_fmt_hex[of 2 "of_char c"] hex by simp
  qed
qed

lemma expand_concat:
  assumes "\<And>pre c post d. P c \<Longrightarrow> expand_loop (pre @ f c @ post) (length pre) d =
      expand_loop (pre @ f c @ post) (length pre + length (f c)) (d @ [c])"
    and "\<forall>c\<in>set s. P c"
  shows "expand_loop (pre @ concat (map f s)) (length pre) d = Inr (d @ s)"
  using assms(2)
proof (induction s arbitrary: pre d)
  case (Cons c s)
  have "expand_loop (pre @ concat (map f (c # s))) (length pre) d =
      expand_loop ((pre @ f c) @ concat (map f s)) (length (pre @ f c)) (d @ [c])"
    using assms(1)[of c pre "concat (map f s)" d] Cons.prems by simp
  with Cons.IH[of "pre @ f c" "d @ [c]"] Cons.prems show ?case by simp
qed (simp add: expand_loop.simps)

text \<open>C31: expanding the escapes of \<open>escapeBytes\<close> gives back the original string, whatever bytes it
  holds.\<close>

theorem escapeBytes_roundtrip: "expandEscapes (escapeBytes s) = Inr s"
  using expand_concat[of "\<lambda>_. True" escape_byte s "[]" "[]"] expand_escape_byte
  by (simp add: expandEscapes_def escapeBytes_def escape_bytes_loop)

lemma expand_u4:
  assumes "n < 128"
  shows "expand_escape (pre @ CHR 0x5C # CHR ''u'' # fmt_hex 4 n @ post) (Suc (length pre)) =
     Inr (length pre + 6, [char_of n])"
proof -
  have "n < 2 ^ 32" using assms by simp
  then have "unat (of_nat n :: 32 word) = n" by (simp add: unat_of_nat take_bit_nat_eq_self)
  then have "uint (of_nat n :: 32 word) = int n" by (metis of_nat_unat)
  then have sint: "sint (of_nat n :: 32 word) = int n" using assms by (simp add: sint_uint_cases)
  have "unat (word_of_int (int n) :: byte) = n"
    using assms by (simp add: unat_of_nat take_bit_nat_eq_self)
  then have uni: "escape_unicode (int n) = Inr [char_of n]"
    using assms by (simp add: escape_unicode_def utf8proc_encode_char_def byte_char_def)
  show ?thesis
    using atoi_fmt_hex[where 'a = 32, of 4 n "pre @ [CHR 0x5C, CHR ''u'']" post] assms
    by (simp add: expand_escape_def Let_def sint uni)
qed

lemma char_codes:
  "char_of (9 :: int) = CHR 0x09" "char_of (10 :: int) = CHR 0x0A" "char_of (13 :: int) = CHR 0x0D"
  "char_of (34 :: int) = CHR 0x22" "char_of (92 :: int) = CHR 0x5C" "char_of (65 :: nat) = CHR ''A''"
  by (simp_all add: char_of_def bit_iff_odd)

lemma escape_codepoint_shape:
  assumes "(of_char c :: nat) < 128"
  shows "(\<exists>l. escape_codepoint (of_char c) = [CHR 0x5C, l] \<and>
      (l, c) \<in> set [(CHR 0x5C, CHR 0x5C), (CHR 0x22, CHR 0x22), (CHR ''n'', CHR 0x0A),
                    (CHR ''r'', CHR 0x0D), (CHR ''t'', CHR 0x09)])
   \<or> escape_codepoint (of_char c) = [c] \<and> c \<noteq> CHR 0x5C
   \<or> escape_codepoint (of_char c) = CHR 0x5C # CHR ''u'' # fmt_hex 4 (of_char c)"
proof -
  have b: "(of_char c :: int) < 128"
    using assms by (simp add: of_nat_of_char [symmetric, where 'a = int])
  have eq: "of_char c = k \<longleftrightarrow> c = char_of k" if "0 \<le> k" "k < 256" for k :: int
    using that by (metis char_of_char of_char_of mod_pos_pos_trivial)
  have "c_isprint (char_of (nat (of_char c mod 256)))= c_isprint c" by simp
  then show ?thesis
    using b by (auto simp: escape_codepoint_def eq char_codes)
qed

lemma expand_escape_codepoint:
  assumes "(of_char c :: nat) < 128"
  shows "expand_loop (pre @ escape_codepoint (of_char c) @ post) (length pre) d =
   expand_loop (pre @ escape_codepoint (of_char c) @ post) (length pre + length (escape_codepoint (of_char c))) (d @ [c])"
proof -
  consider (simple) l where "escape_codepoint (of_char c) = [CHR 0x5C, l]"
      "(l, c) \<in> set [(CHR 0x5C, CHR 0x5C), (CHR 0x22, CHR 0x22), (CHR ''n'', CHR 0x0A),
                     (CHR ''r'', CHR 0x0D), (CHR ''t'', CHR 0x09)]"
    | (plain) "escape_codepoint (of_char c) = [c]" "c \<noteq> CHR 0x5C"
    | (hex) "escape_codepoint (of_char c) = CHR 0x5C # CHR ''u'' # fmt_hex 4 (of_char c)"
    using escape_codepoint_shape[OF assms] by blast
  then show ?thesis
  proof cases
    case simple
    then have "expand_escape (pre @ CHR 0x5C # l # post) (Suc (length pre)) = Inr (length pre + 2, [c])"
      by (auto simp: expand_escape_def Let_def)
    from expand_sequence[OF this] simple show ?thesis by simp
  next
    case plain
    with expand_plain[of c pre post] show ?thesis by simp
  next
    case hex
    from expand_sequence[OF expand_u4[OF assms]] length_fmt_hex[of 4 "of_char c"] assms hex show ?thesis
      by simp
  qed
qed

lemma escape_utf8_ascii:
  "\<forall>c\<in>set s. (of_char c :: nat) < 128 \<Longrightarrow>
     escape_utf8_loop (map char_byte s) esc = esc @ concat (map (\<lambda>c. escape_codepoint (of_char c)) s)"
proof (induction s arbitrary: esc)
  case (Cons c s)
  have b: "0 \<le> (of_char c :: int)" "(of_char c :: int) < 128"
    using Cons.prems by (simp_all add: of_nat_of_char [symmetric, where 'a = int])
  have "utf8proc_encode_char (of_char c) = [char_byte c]"
    using b by (simp add: utf8proc_encode_char_def char_byte_def of_int_of_char)
  then have "utf8proc_iterate (char_byte c # map char_byte s) = Some (1, of_char c)"
    using iterate_encode_1[OF b, of "map char_byte s"] by simp
  then show ?case using Cons by (subst escape_utf8_loop.simps) simp
qed (simp add: escape_utf8_loop.simps)

text \<open>C36: on ASCII strings \<open>escapeUTF8\<close> is undone by \<open>expandEscapes\<close>.\<close>

theorem escapeUTF8_roundtrip_ascii:
  assumes "\<forall>c\<in>set s. (of_char c :: nat) < 128"
  shows "expandEscapes (escapeUTF8 s) = Inr s"
  using expand_concat[of "\<lambda>c. (of_char c :: nat) < 128" "\<lambda>c. escape_codepoint (of_char c)" s "[]" "[]"]
    expand_escape_codepoint assms
  by (simp add: expandEscapes_def escapeUTF8_def escape_utf8_ascii)

theorem escapeUTF8_roundtrip_ascii_witness:
  "expandEscapes (escapeUTF8 [CHR ''a'', CHR 0x01, CHR 0x22]) = Inr [CHR ''a'', CHR 0x01, CHR 0x22]"
  using escapeUTF8_roundtrip_ascii[of "[CHR ''a'', CHR 0x01, CHR 0x22]"] by simp

lemma char_byte_inverse [simp]: "char_byte (byte_char b) = b"
proof -
  have "unat b < 256" using unsigned_less[of b] by simp
  then have "(of_char (char_of (unat b) :: char) :: nat) = unat b" by simp
  then show ?thesis using unat_char_byte[of "byte_char b"] unfolding byte_char_def by (simp add: word_unat_eq_iff)
qed

lemma escape_utf8_prefix: "escape_utf8_loop p esc = esc @ escape_utf8_loop p []"
proof (induction p arbitrary: esc rule: measure_induct_rule[where f = length])
  case (less p)
  show ?case
  proof (cases "p = []")
    case False
    show ?thesis
    proof (cases "utf8proc_iterate p")
      case (Some r)
      obtain n cp where r: "r = (n, cp)" by (cases r)
      then have "length (drop n p) < length p" using utf8proc_iterate_pos[of p n cp] Some False by simp
      from less[OF this, of "esc @ escape_codepoint cp"] less[OF this, of "escape_codepoint cp"]
      show ?thesis using False Some r
        by (subst (1 2) escape_utf8_loop.simps) simp
    qed (use False in \<open>simp add: escape_utf8_loop.simps\<close>)
  qed (simp add: escape_utf8_loop.simps)
qed

text \<open>The bytes of a code point, as a string.\<close>

abbreviation utf8_text :: "int \<Rightarrow> string" where
  "utf8_text uc \<equiv> map byte_char (utf8proc_encode_char uc)"

lemma escapeUTF8_codepoint:
  assumes "utf8proc_codepoint_valid uc"
  shows "escapeUTF8 (utf8_text uc @ rest) = escape_codepoint uc @ escapeUTF8 rest"
proof -
  have "utf8proc_encode_char uc \<noteq> []" using assms by (auto simp: utf8proc_encode_char_def utf8proc_codepoint_valid_def)
  then have "escape_utf8_loop (utf8proc_encode_char uc @ map char_byte rest) [] =
      escape_utf8_loop (map char_byte rest) (escape_codepoint uc)"
    using iterate_encode[OF assms, of "map char_byte rest"] by (subst escape_utf8_loop.simps) simp
  then show ?thesis
    using escape_utf8_prefix[of "map char_byte rest" "escape_codepoint uc"] by (simp add: escapeUTF8_def comp_def)
qed

lemma escapeUTF8_collision:
  assumes "utf8proc_codepoint_valid uc" "256 \<le> uc" "uc < 65536"
    and "c = char_of (nat (uc mod 256))" "c_isprint c" "c \<notin> {CHR 0x5C, CHR 0x22}"
  shows "escapeUTF8 (utf8_text uc @ rest) = escapeUTF8 (c # rest) \<and> utf8_text uc @ rest \<noteq> c # rest"
proof -
  have c: "32 \<le> (of_char c :: nat)" "(of_char c :: nat) < 127"
    using assms(5) by (simp_all add: c_isprint_def less_eq_char_def)
  have code: "int (of_char c) = (of_char c :: int)" by (simp add: of_nat_of_char)
  have "utf8proc_codepoint_valid (of_char c)"
    using c by (simp add: utf8proc_codepoint_valid_def and_masks flip: code)
  moreover have "utf8_text (of_char c) = [c]"
    using c byte_char_inverse[of c] by (simp add: utf8proc_encode_char_def char_byte_def of_int_of_char flip: code)
  ultimately have "escapeUTF8 (c # rest) = escape_codepoint (of_char c) @ escapeUTF8 rest"
    using escapeUTF8_codepoint[of "of_char c" rest] by simp
  moreover have "escape_codepoint uc = [c]" using assms by (simp add: escape_codepoint_def)
  moreover have "escape_codepoint (of_char c) = [c]"
    using escape_codepoint_shape[of c] c assms(5,6) by (auto simp: escape_codepoint_def c_isprint_def less_eq_char_def)
  moreover have "length (utf8_text uc) > 1" using assms(1-3) by (simp add: utf8proc_encode_char_def utf8proc_codepoint_valid_def and_masks)
  then have "length (utf8_text uc @ rest) \<noteq> length (c # rest)" by simp
  then have "utf8_text uc @ rest \<noteq> c # rest" by metis
  ultimately show ?thesis using escapeUTF8_codepoint[OF assms(1), of rest] by simp
qed

text \<open>C37: outside ASCII the escape is not reversible.  A code point from 256 to 65535 whose low byte is a
  printable character other than the backslash and the double quote is written as that character, so
  the text has the same escape as the text with the character in its place, whatever follows; hence no
  function at all, and not \<open>expandEscapes\<close> either, undoes \<open>escapeUTF8\<close>.\<close>

theorem escapeUTF8_loses_codepoints:
  assumes "utf8proc_codepoint_valid uc" "256 \<le> uc" "uc < 65536"
    and "c = char_of (nat (uc mod 256))" "c_isprint c" "c \<notin> {CHR 0x5C, CHR 0x22}"
  shows "escapeUTF8 (utf8_text uc @ rest) = escapeUTF8 (c # rest) \<and> utf8_text uc @ rest \<noteq> c # rest \<and>
    (\<nexists>f. \<forall>s. f (escapeUTF8 s) = s)"
proof -
  note same = escapeUTF8_collision[OF assms, of rest]
  then have "\<not> (\<forall>s. f (escapeUTF8 s) = s)" for f :: "string \<Rightarrow> string" by metis
  then show ?thesis using same by blast
qed

theorem escapeUTF8_loses_codepoints_witness:
  "escapeUTF8 (utf8_text 0x141 @ ''bc'') = escapeUTF8 ''Abc'' \<and> utf8_text 0x141 @ ''bc'' \<noteq> ''Abc''"
  using escapeUTF8_loses_codepoints[of "0x141" "CHR ''A''" "''bc''"]
  by (simp add: utf8proc_codepoint_valid_def and_masks char_codes c_isprint_def less_eq_char_def)

end
