(* ===== verification/Util_Path.thy ===== *)
theory Util_Path
  imports Util_Number
begin

text \<open>
  Paths and identifiers in \<^verbatim>\<open>util/util.cc\<close>.  The file system is not part of the program: the test
  \<^verbatim>\<open>pathIsFile\<close> is a parameter of \<open>findInPaths\<close>.  \<open>toIdentifier\<close> is \<^const>\<open>None\<close> when one of the
  replacement loops does not end or when the table of hexadecimal digits is read outside its
  bounds, which a negative \<^verbatim>\<open>char\<close> does.
\<close>

lemma endsWith_nonempty: "endsWith p [c] \<Longrightarrow> length (take (length p - 1) p) < length p"
  by (cases p) auto

function strip_trailing :: "char \<Rightarrow> string \<Rightarrow> string" where
  "strip_trailing c p = (if endsWith p [c] then strip_trailing c (take (length p - 1) p) else p)"
  by pat_completeness auto
termination
  by (relation "measure (\<lambda>(c, p). length p)") (use endsWith_nonempty in auto)

definition pathJoin :: "string \<Rightarrow> string \<Rightarrow> string" where
  "pathJoin p1 p2 =
     (if startsWith p2 ''/'' then p2 else strip_trailing (CHR ''/'') p1 @ ''/'' @ p2)"

definition dirname :: "string \<Rightarrow> string" where
  "dirname path =
     (case str_rfind path ''/'' of None \<Rightarrow> []
      | Some i \<Rightarrow> let dir = take i path in strip_trailing (CHR ''/'') path)"

definition basename :: "string \<Rightarrow> string" where
  "basename path =
     (case str_rfind path ''/'' of None \<Rightarrow> path | Some i \<Rightarrow> drop (i + 1) path)"

fun find_in_dirs :: "(string \<Rightarrow> bool) \<Rightarrow> string \<Rightarrow> string list \<Rightarrow> string" where
  "find_in_dirs pathIsFile file [] = []"
| "find_in_dirs pathIsFile file (d # ds) =
     (let path = pathJoin d file in if pathIsFile path then path else find_in_dirs pathIsFile file ds)"

definition findInPaths :: "(string \<Rightarrow> bool) \<Rightarrow> string \<Rightarrow> string list \<Rightarrow> string" where
  "findInPaths pathIsFile file paths =
     (if startsWith file ''/'' then (if pathIsFile file then file else [])
      else find_in_dirs pathIsFile file paths)"

definition hex_table :: string where
  "hex_table = ''0123456789abcdef''"

definition hex_at :: "int \<Rightarrow> char option" where
  "hex_at i = (if 0 \<le> i \<and> i \<le> 15 then Some (hex_table ! nat i) else None)"

definition c_rem :: "int \<Rightarrow> int \<Rightarrow> int" where
  "c_rem a b = sgn a * (\<bar>a\<bar> mod b)"

fun identifier_chars :: "string \<Rightarrow> string option" where
  "identifier_chars [] = Some []"
| "identifier_chars (c # cs) =
     do { rest \<leftarrow> identifier_chars cs;
          if c_isalnum c \<or> c = CHR ''_'' then Some (c # rest)
          else do { hi \<leftarrow> hex_at (drop_bit 4 (char_int c));
                    lo \<leftarrow> hex_at (c_rem (char_int c) 0x0F);
                    Some (CHR ''x'' # hi # lo # rest) } }"

definition toIdentifier :: "string \<Rightarrow> bool \<Rightarrow> string option" where
  "toIdentifier s ensure_non_keyword =
     (if s = [] then Some s
      else do {
        n \<leftarrow> strreplace s ''::'' ''_'';
        n \<leftarrow> strreplace n ''<'' ''_'';
        n \<leftarrow> strreplace n ''>'' ''_'';
        n \<leftarrow> strreplace n '','' ''_'';
        n \<leftarrow> strreplace n ''.'' ''_'';
        n \<leftarrow> strreplace n '' '' ''_'';
        n \<leftarrow> strreplace n ''-'' ''_'';
        n \<leftarrow> strreplace n [CHR 0x27] ''_'';
        n \<leftarrow> strreplace n [CHR 0x22] ''_'';
        n \<leftarrow> strreplace n ''__'' ''_'';
        let n = strip_trailing (CHR ''_'') n;
        ns \<leftarrow> identifier_chars n;
        ns \<leftarrow> strreplace ns ''__'' ''_'';
        let ns = (if c_isdigit (deref ns 0) then CHR ''_'' # ns else ns);
        Some (if ensure_non_keyword then ns @ ''_'' else ns) })"

text \<open>What a C identifier is made of.\<close>

definition ident_char :: "char \<Rightarrow> bool" where
  "ident_char c \<longleftrightarrow> c_isalnum c \<or> c = CHR ''_''"

definition ascii :: "string \<Rightarrow> bool" where
  "ascii s \<longleftrightarrow> (\<forall>c\<in>set s. (of_char c :: nat) < 128)"

declare strip_trailing.simps [simp del]

lemma strip_trailing_dropWhile: "strip_trailing c p = rev (dropWhile (\<lambda>x. x = c) (rev p))"
proof (induction p rule: rev_induct)
  case (snoc x p)
  then show ?case by (subst strip_trailing.simps) (auto simp: suffix_def)
qed (simp add: strip_trailing.simps)

lemma str_rfind_char:
  "c \<notin> set b \<Longrightarrow> str_rfind (a @ c # b) [c] = Some (length a)"
proof (induction a)
  case Nil
  then have "str_rfind b [c] = None" by (induction b) auto
  then show ?case by simp
qed simp

lemma str_rfind_char_None: "c \<notin> set b \<Longrightarrow> str_rfind b [c] = None"
  by (induction b) auto

text \<open>Joining a directory and a plain file name and taking the base name gives the file name
  back, however many slashes the directory ends with.\<close>

theorem basename_pathJoin:
  assumes "CHR ''/'' \<notin> set file"
  shows "basename (pathJoin dir file) = file"
proof -
  have "\<not> prefix ''/'' file" using assms by (auto simp: prefix_def)
  then show ?thesis
    using str_rfind_char[OF assms] by (simp add: pathJoin_def basename_def)
qed

theorem basename_pathJoin_witness: "basename (pathJoin ''lib//'' ''a.dgo'') = ''a.dgo''"
  using basename_pathJoin[of "''a.dgo''" "''lib//''"] by simp

text \<open>C38: \<open>dirname\<close> does not cut the last component off: the path without its trailing slashes comes
  back whole, so the directory of a file inside a directory is the file itself.\<close>

theorem dirname_returns_whole_path:
  assumes "CHR ''/'' \<notin> set file" "file \<noteq> []"
  shows "dirname (pathJoin dir file) = pathJoin dir file"
proof -
  have "\<not> prefix ''/'' file" using assms by (auto simp: prefix_def)
  moreover obtain x xs where "rev file = x # xs" "x \<noteq> CHR ''/''"
    using assms by (cases "rev file") auto
  ultimately show ?thesis
    using str_rfind_char[OF assms(1)]
    by (simp add: pathJoin_def dirname_def Let_def strip_trailing_dropWhile)
qed

theorem dirname_returns_whole_path_witness: "dirname ''lib/a'' = ''lib/a''"
  using dirname_returns_whole_path[of "''a''" "''lib''"]
  by (simp add: pathJoin_def strip_trailing_dropWhile)

text \<open>\<open>findInPaths\<close> returns a file that exists, taken from the first directory of the search path
  that has it, or the empty string when no directory has it.\<close>

theorem findInPaths_first:
  assumes "\<not> startsWith file ''/''"
  shows "(findInPaths pathIsFile file paths = [] \<and> (\<forall>d. d \<in> set paths \<longrightarrow> \<not> pathIsFile (pathJoin d file)))
    \<or> (\<exists>ds d es. paths = ds @ d # es \<and> findInPaths pathIsFile file paths = pathJoin d file
         \<and> pathIsFile (pathJoin d file) \<and> (\<forall>x. x \<in> set ds \<longrightarrow> \<not> pathIsFile (pathJoin x file)))"
proof -
  have "(find_in_dirs pathIsFile file paths = [] \<and> (\<forall>d. d \<in> set paths \<longrightarrow> \<not> pathIsFile (pathJoin d file)))
    \<or> (\<exists>ds d es. paths = ds @ d # es \<and> find_in_dirs pathIsFile file paths = pathJoin d file
         \<and> pathIsFile (pathJoin d file) \<and> (\<forall>x. x \<in> set ds \<longrightarrow> \<not> pathIsFile (pathJoin x file)))"
  proof (induction paths)
    case (Cons d ds)
    show ?case
    proof (cases "pathIsFile (pathJoin d file)")
      case True
      then show ?thesis
        by (intro disjI2 exI[of _ "[]"] exI[of _ d] exI[of _ ds]) simp
    next
      case False
      with Cons.IH show ?thesis by (simp add: Let_def) (metis append_Cons set_ConsD)
    qed
  qed simp
  then show ?thesis using assms by (simp add: findInPaths_def)
qed

theorem findInPaths_first_witness:
  "findInPaths (\<lambda>p. p = ''b/f'') ''f'' [''a'', ''b''] = ''b/f''"
  using findInPaths_first[of "''f''" "\<lambda>p. p = ''b/f''" "[''a'', ''b'']"]
  by (simp add: findInPaths_def pathJoin_def strip_trailing_dropWhile)

lemma hex_at_ident: "hex_at i = Some c \<Longrightarrow> ident_char c"
proof -
  assume "hex_at i = Some c"
  moreover have "length hex_table = 16" by (simp add: hex_table_def)
  ultimately have "c \<in> set hex_table" by (auto simp: hex_at_def split: if_splits)
  moreover have "\<forall>c\<in>set hex_table. ident_char c" by code_simp
  ultimately show ?thesis by blast
qed

lemma char_int_ascii: "(of_char c :: nat) < 128 \<Longrightarrow> char_int c = int (of_char c)"
  by (simp add: char_int_def Let_def of_nat_of_char [symmetric, where 'a = int])

lemma hex_at_ascii:
  assumes "(of_char c :: nat) < 128"
  shows "hex_at (drop_bit 4 (char_int c)) \<noteq> None" "hex_at (c_rem (char_int c) 0x0F) \<noteq> None"
proof -
  let ?k = "int (of_char c)"
  have "0 \<le> ?k div 16" "?k div 16 \<le> 15" "0 \<le> ?k mod 15" "?k mod 15 \<le> 15" using assms by auto
  then show "hex_at (drop_bit 4 (char_int c)) \<noteq> None" "hex_at (c_rem (char_int c) 0x0F) \<noteq> None"
    using char_int_ascii[OF assms] by (auto simp: hex_at_def c_rem_def drop_bit_eq_div sgn_if)
qed

lemma identifier_chars_total:
  "\<forall>c\<in>set s. (of_char c :: nat) < 128 \<Longrightarrow> \<exists>ns. identifier_chars s = Some ns \<and> list_all ident_char ns"
proof (induction s)
  case (Cons c s)
  then obtain ns where ns: "identifier_chars s = Some ns" "list_all ident_char ns" by auto
  obtain hi lo where "hex_at (drop_bit 4 (char_int c)) = Some hi" "hex_at (c_rem (char_int c) 0x0F) = Some lo"
    using hex_at_ascii[of c] Cons.prems by auto
  moreover have "ident_char CHR ''x''" by code_simp
  ultimately show ?case using ns hex_at_ident by (auto simp: list_all_iff ident_char_def)
qed simp

lemma ascii_replace_char:
  assumes "ascii s" "c \<noteq> CHR ''_''"
  shows "\<exists>y. strreplace s [c] ''_'' = Some y \<and> ascii y"
proof -
  obtain y where y: "strreplace s [c] ''_'' = Some y" using strreplace_char[of c "''_''" s] assms by auto
  moreover have "ascii y" using strreplace_set[OF y] assms(1) by (auto simp: ascii_def)
  ultimately show ?thesis by blast
qed

lemma ascii_replace_two:
  assumes "ascii s"
  shows "\<exists>y. strreplace s [c, d] ''_'' = Some y \<and> ascii y"
proof -
  obtain y where y: "strreplace s [c, d] ''_'' = Some y"
    using strreplace_loop_shrinks[of "''_''" "[c, d]" s] by (auto simp: strreplace_def)
  moreover have "ascii y" using strreplace_set[OF y] assms(1) by (auto simp: ascii_def)
  ultimately show ?thesis by blast
qed

lemma ascii_strip: "ascii s \<Longrightarrow> ascii (strip_trailing c s)"
  by (auto simp: ascii_def strip_trailing_dropWhile dest: set_dropWhileD)

lemma toIdentifier_steps:
  assumes "ascii s" "s \<noteq> []"
  shows "\<exists>ns. toIdentifier s b =
      (let ns' = (if c_isdigit (deref ns 0) then CHR ''_'' # ns else ns)
       in Some (if b then ns' @ ''_'' else ns')) \<and> list_all ident_char ns"
proof -
  obtain n1 where 1: "strreplace s ''::'' ''_'' = Some n1" "ascii n1" using ascii_replace_two[OF assms(1)] by blast
  obtain n2 where 2: "strreplace n1 ''<'' ''_'' = Some n2" "ascii n2" using ascii_replace_char[OF 1(2)] by blast
  obtain n3 where 3: "strreplace n2 ''>'' ''_'' = Some n3" "ascii n3" using ascii_replace_char[OF 2(2)] by blast
  obtain n4 where 4: "strreplace n3 '','' ''_'' = Some n4" "ascii n4" using ascii_replace_char[OF 3(2)] by blast
  obtain n5 where 5: "strreplace n4 ''.'' ''_'' = Some n5" "ascii n5" using ascii_replace_char[OF 4(2)] by blast
  obtain n6 where 6: "strreplace n5 '' '' ''_'' = Some n6" "ascii n6" using ascii_replace_char[OF 5(2)] by blast
  obtain n7 where 7: "strreplace n6 ''-'' ''_'' = Some n7" "ascii n7" using ascii_replace_char[OF 6(2)] by blast
  obtain n8 where 8: "strreplace n7 [CHR 0x27] ''_'' = Some n8" "ascii n8" using ascii_replace_char[OF 7(2)] by blast
  obtain n9 where 9: "strreplace n8 [CHR 0x22] ''_'' = Some n9" "ascii n9" using ascii_replace_char[OF 8(2)] by blast
  obtain n10 where 10: "strreplace n9 ''__'' ''_'' = Some n10" "ascii n10" using ascii_replace_two[OF 9(2)] by blast
  obtain ns where ns: "identifier_chars (strip_trailing (CHR ''_'') n10) = Some ns" "list_all ident_char ns"
    using identifier_chars_total ascii_strip[OF 10(2)] unfolding ascii_def by blast
  obtain m where m: "strreplace ns ''__'' ''_'' = Some m"
    using strreplace_loop_shrinks[of "''_''" "''__''" ns] by (auto simp: strreplace_def)
  have "list_all ident_char m"
    using strreplace_set[OF m] ns(2) by (auto simp: list_all_iff ident_char_def)
  then show ?thesis
    using 1 2 3 4 5 6 7 8 9 10 ns m assms(2) by (auto simp: toIdentifier_def Let_def)
qed

text \<open>C35: on ASCII input \<open>toIdentifier\<close> always ends and returns a string made of letters, digits and
  underscores only that does not start with a digit.\<close>

theorem toIdentifier_valid:
  assumes "ascii s"
  shows "\<exists>r. toIdentifier s b = Some r \<and> list_all ident_char r \<and> (r = [] \<or> \<not> c_isdigit (hd r) \<or> s = [])"
proof (cases "s = []")
  case False
  have u: "ident_char CHR ''_''" "\<not> c_isdigit CHR ''_''" by code_simp+
  obtain ns where ns: "toIdentifier s b =
      (let ns' = (if c_isdigit (deref ns 0) then CHR ''_'' # ns else ns)
       in Some (if b then ns' @ ''_'' else ns'))" "list_all ident_char ns"
    using toIdentifier_steps[OF assms False] by blast
  show ?thesis
    using ns u by (cases ns) (auto simp: Let_def deref_def)
qed (simp add: toIdentifier_def)

theorem toIdentifier_valid_witness:
  "toIdentifier ''_'' False = Some [] \<and>
   (\<exists>r. toIdentifier ''a::b<c>'' False = Some r \<and> list_all ident_char r)"
  using toIdentifier_valid[of "''a::b<c>''" False]
  by (auto simp: ascii_def toIdentifier_def strreplace_def strreplace_loop.simps strip_trailing_dropWhile
      c_isdigit_def deref_def less_eq_char_def)

end
