(* ===== verification/Ident.thy ===== *)
theory Ident
  imports Util_String "HOL-Library.List_Lexorder"
begin

text \<open>
  The identifiers of the specification language (\<^verbatim>\<open>spec/ast/id.h\<close> and \<^verbatim>\<open>id.cpp\<close>).

  An \<^verbatim>\<open>ID\<close> is its list of path components.  Two identifiers are compared through the string
  that joins the components by \<^verbatim>\<open>::\<close>, also when they key a \<^verbatim>\<open>std::map\<close>, so a map from identifiers
  is a map from those strings.  \<open>pathAsString_inj\<close> says when that comparison is equality of the
  paths.  \<open>id_name\<close> of an empty path is undefined behaviour in the source; the only empty paths the
  program builds are the prefix of the unit being processed and fresh tracking paths, and their
  name is never read.
\<close>

type_synonym ident = "string list"

definition ID :: "string \<Rightarrow> ident option" where
  "ID path = strsplit path ''::''"

fun strip_common :: "ident \<Rightarrow> ident \<Rightarrow> ident" where
  "strip_common (a # p1) (b # p2) = (if a = b then strip_common p1 p2 else a # p1)"
| "strip_common p1 p2 = p1"

definition pathAsString_rel :: "ident \<Rightarrow> ident option \<Rightarrow> string" where
  "pathAsString_rel path relative_to =
     strjoin (strip_common path (case relative_to of None \<Rightarrow> [] | Some r \<Rightarrow> r)) ''::''"

definition pathAsString :: "ident \<Rightarrow> string" where
  "pathAsString path = pathAsString_rel path None"

definition addComponent :: "ident \<Rightarrow> string \<Rightarrow> ident" where
  "addComponent path component = path @ [component]"

fun addPath :: "ident \<Rightarrow> ident \<Rightarrow> ident" where
  "addPath path [] = path"
| "addPath path (c # cs) = addPath (addComponent path c) cs"

definition combineIDs :: "ident \<Rightarrow> ident \<Rightarrow> ident" where
  "combineIDs a b = addPath a b"

definition id_name :: "ident \<Rightarrow> string" where
  "id_name path = last path"

definition isScoped :: "ident \<Rightarrow> bool" where
  "isScoped path \<longleftrightarrow> length path > 1"

definition id_scope :: "ident \<Rightarrow> string" where
  "id_scope path = strjoin (butlast path) ''::''"

definition id_eq :: "ident \<Rightarrow> ident \<Rightarrow> bool" where
  "id_eq a b \<longleftrightarrow> pathAsString a = pathAsString b"

definition id_eq_string :: "ident \<Rightarrow> string \<Rightarrow> bool" where
  "id_eq_string a s \<longleftrightarrow> pathAsString a = s"

definition id_less :: "ident \<Rightarrow> ident \<Rightarrow> bool" where
  "id_less a b \<longleftrightarrow> pathAsString a < pathAsString b"

fun prefixOf :: "ident \<Rightarrow> ident \<Rightarrow> bool" where
  "prefixOf [] opath = True"
| "prefixOf (e # p) [] = False"
| "prefixOf (e # p) (c # opath) = (if c \<noteq> e then False else prefixOf p opath)"

section \<open>Facts\<close>

text \<open>A path whose components could have been written in a specification: the scanner's
  identifiers have no colon, and the tracking components \<^verbatim>\<open>[]\<close> and \<^verbatim>\<open>__length\<close> have none either.\<close>

definition plain_path :: "ident \<Rightarrow> bool" where
  "plain_path p \<longleftrightarrow> list_all (\<lambda>c. c \<noteq> [] \<and> CHR '':'' \<notin> set c) p"

lemma strip_common_Nil [simp]: "strip_common p [] = p"
  by (cases p) simp_all

lemma pathAsString_strjoin: "pathAsString p = strjoin p ''::''"
  by (simp add: pathAsString_def pathAsString_rel_def)

lemma addPath_append [simp]: "addPath a b = a @ b"
  by (induction b arbitrary: a) (simp_all add: addComponent_def)

lemma combineIDs_append [simp]: "combineIDs a b = a @ b"
  by (simp add: combineIDs_def)

lemma prefixOf_prefix [simp]: "prefixOf p q \<longleftrightarrow> prefix p q"
  by (induction p q rule: prefixOf.induct) auto

lemma plain_path_Cons [simp]:
  "plain_path (c # p) \<longleftrightarrow> c \<noteq> [] \<and> CHR '':'' \<notin> set c \<and> plain_path p"
  by (auto simp: plain_path_def)

lemma plain_path_Nil [simp]: "plain_path []"
  by (simp add: plain_path_def)

lemma plain_path_append [simp]: "plain_path (a @ b) \<longleftrightarrow> plain_path a \<and> plain_path b"
  by (simp add: plain_path_def)

lemma colon_split:
  assumes "CHR '':'' \<notin> set a" "CHR '':'' \<notin> set b"
    and "a @ CHR '':'' # s = b @ CHR '':'' # t"
  shows "a = b \<and> s = t"
  using assms
proof (induction a arbitrary: b)
  case (Cons x a)
  then show ?case by (cases b) auto
next
  case Nil
  then show ?case by (cases b) auto
qed

lemma pathAsString_nonempty: "plain_path (c # p) \<Longrightarrow> pathAsString (c # p) \<noteq> []"
  by (cases p) (simp_all add: pathAsString_strjoin)

lemma pathAsString_Nil [simp]: "pathAsString [] = []" "pathAsString [c] = c"
  by (simp_all add: pathAsString_strjoin)

lemma pathAsString_Cons:
  "p \<noteq> [] \<Longrightarrow> pathAsString (c # p) = c @ CHR '':'' # CHR '':'' # pathAsString p"
  by (simp add: pathAsString_strjoin strjoin_Cons)

lemma pathAsString_colon_iff:
  "plain_path (c # p) \<Longrightarrow> CHR '':'' \<in> set (pathAsString (c # p)) \<longleftrightarrow> p \<noteq> []"
  by (cases "p = []") (auto simp: pathAsString_Cons)

lemma pathAsString_inj:
  "plain_path p \<Longrightarrow> plain_path q \<Longrightarrow> pathAsString p = pathAsString q \<Longrightarrow> p = q"
proof (induction p q rule: list_induct2')
  case (4 c p d q)
  have "p = [] \<longleftrightarrow> q = []"
    using pathAsString_colon_iff[OF 4(2)] pathAsString_colon_iff[OF 4(3)] unfolding 4(4) by blast
  moreover have "c = d \<and> p = q" if "p \<noteq> []" "q \<noteq> []"
  proof -
    have "c @ CHR '':'' # CHR '':'' # pathAsString p = d @ CHR '':'' # CHR '':'' # pathAsString q"
      using 4(4) unfolding pathAsString_Cons[OF that(1)] pathAsString_Cons[OF that(2)] .
    then have "c = d \<and> CHR '':'' # pathAsString p = CHR '':'' # pathAsString q"
      by (rule colon_split[rotated 2]) (use 4(2,3) in simp_all)
    then show ?thesis using 4(1) 4(2,3) by simp
  qed
  moreover have "c = d" if "p = []" "q = []"
    using 4(4) unfolding that pathAsString_Nil .
  ultimately show ?case by metis
next
  case (2 c p)
  show ?case using pathAsString_nonempty[OF 2(1)] 2(3) unfolding pathAsString_Nil by contradiction
next
  case (3 d q)
  show ?case using pathAsString_nonempty[OF 3(2)] 3(3)[symmetric] unfolding pathAsString_Nil by contradiction
qed simp

lemma id_eq_plain: "plain_path p \<Longrightarrow> plain_path q \<Longrightarrow> id_eq p q \<longleftrightarrow> p = q"
  using pathAsString_inj by (auto simp: id_eq_def)

lemma id_eq_refl [simp]: "id_eq a a"
  by (simp add: id_eq_def)

end
