(* ===== verification/Dep_Closure.thy ===== *)
theory Dep_Closure
  imports Ident
begin

text \<open>
  The fixpoint of \<^verbatim>\<open>InstantiationDependencyResolver::visit\<close>
  (\<^verbatim>\<open>generation/preprocessing/instantiation_dependency_resolver.cpp\<close>): which fields an
  instantiation needs, and in which contexts, given the map of direct dependencies.

  A context is a set of the four flags of \<^verbatim>\<open>DependencyContext\<close>, kept as the bits of a number.  The
  loop of the source runs until nothing changes, so it is a partial function; \<open>closure_total\<close> shows
  that it ends on every map.  The specification is the inductive predicate \<open>needs\<close>, and the result
  of the loop is shown to be exactly that predicate.
\<close>

record dependency =
  dep_id :: ident
  dep_context :: nat

definition CONTEXT_APPLICATION :: nat where
  "CONTEXT_APPLICATION = 1"

definition CONTEXT_PARSING :: nat where
  "CONTEXT_PARSING = 2"

definition CONTEXT_SERIALIZING :: nat where
  "CONTEXT_SERIALIZING = 4"

definition CONTEXT_SERIALIZING_UPDATE :: nat where
  "CONTEXT_SERIALIZING_UPDATE = 8"

type_synonym dependency_map = "(string \<times> dependency list) list"

definition dm_at :: "dependency_map \<Rightarrow> ident \<Rightarrow> dependency list" where
  "dm_at m i = (case map_of m (pathAsString i) of None \<Rightarrow> [] | Some l \<Rightarrow> l)"

definition pass_on :: "dependency \<Rightarrow> dependency \<Rightarrow> dependency option" where
  "pass_on dep depdep =
     (if dep_context dep AND CONTEXT_APPLICATION \<noteq> 0 then Some depdep
      else if dep_context dep AND dep_context depdep \<noteq> 0
        then Some (depdep\<lparr>dep_context := dep_context dep AND dep_context depdep\<rparr>)
      else None)"

definition collect :: "dependency_map \<Rightarrow> dependency list \<Rightarrow> dependency list" where
  "collect m dependencies =
     concat (map (\<lambda>dep. List.map_filter (pass_on dep) (dm_at m (dep_id dep))) dependencies)"

fun merge_dep :: "dependency \<Rightarrow> dependency list \<Rightarrow> dependency list \<times> bool" where
  "merge_dep dep [] = ([dep], True)"
| "merge_dep dep (d # ds) =
     (if id_eq (dep_id dep) (dep_id d)
      then (d\<lparr>dep_context := dep_context d OR dep_context dep\<rparr> # ds,
            dep_context d OR dep_context dep \<noteq> dep_context d)
      else (case merge_dep dep ds of (ds', changed) \<Rightarrow> (d # ds', changed)))"

fun merge_all :: "dependency list \<Rightarrow> dependency list \<Rightarrow> bool \<Rightarrow> dependency list \<times> bool" where
  "merge_all [] dependencies changed = (dependencies, changed)"
| "merge_all (dep # to_add) dependencies changed =
     (case merge_dep dep dependencies of
        (dependencies', c) \<Rightarrow> merge_all to_add dependencies' (changed \<or> c))"

partial_function (option) closure_loop ::
    "dependency_map \<Rightarrow> dependency list \<Rightarrow> dependency list option" where
  "closure_loop m dependencies =
     (let r = merge_all (collect m dependencies) dependencies False
      in if snd r then closure_loop m (fst r) else Some (fst r))"

definition length_tracking_id :: ident where
  "length_tracking_id = [''__length'']"

definition initial_dependencies :: "ident list \<Rightarrow> dependency list" where
  "initial_dependencies items =
     \<lparr>dep_id = length_tracking_id, dep_context = CONTEXT_PARSING\<rparr>
     # map (\<lambda>i. \<lparr>dep_id = i, dep_context = CONTEXT_APPLICATION\<rparr>) items"

definition resolve_dependencies :: "dependency_map \<Rightarrow> ident list \<Rightarrow> dependency list option" where
  "resolve_dependencies m items =
     map_option tl (closure_loop m (initial_dependencies items))"

section \<open>The specification\<close>

inductive needs :: "dependency_map \<Rightarrow> dependency list \<Rightarrow> string \<Rightarrow> nat \<Rightarrow> bool"
  for m :: dependency_map and roots :: "dependency list" where
  root: "d \<in> set roots \<Longrightarrow> bit (dep_context d) b \<Longrightarrow> needs m roots (pathAsString (dep_id d)) b"
| application: "needs m roots (pathAsString x) 0 \<Longrightarrow> d \<in> set (dm_at m x) \<Longrightarrow> bit (dep_context d) b
    \<Longrightarrow> needs m roots (pathAsString (dep_id d)) b"
| context_bit: "needs m roots (pathAsString x) b \<Longrightarrow> d \<in> set (dm_at m x) \<Longrightarrow> bit (dep_context d) b
    \<Longrightarrow> needs m roots (pathAsString (dep_id d)) b"

definition has_bit :: "dependency list \<Rightarrow> string \<Rightarrow> nat \<Rightarrow> bool" where
  "has_bit ds k b \<longleftrightarrow> (\<exists>d\<in>set ds. pathAsString (dep_id d) = k \<and> bit (dep_context d) b)"

definition first_context :: "dependency list \<Rightarrow> string \<Rightarrow> nat option" where
  "first_context ds = map_of (map (\<lambda>d. (pathAsString (dep_id d), dep_context d)) ds)"

section \<open>One round\<close>

lemma and_application [simp]:
  "(c::nat) AND CONTEXT_APPLICATION = 0 \<longleftrightarrow> \<not> bit c 0"
  "0 < (c::nat) AND CONTEXT_APPLICATION \<longleftrightarrow> bit c 0"
  by (auto simp: CONTEXT_APPLICATION_def and_one_eq odd_iff_mod_2_eq_one bit_0)

lemma and_nonzero_bit: "(a::nat) AND b \<noteq> 0 \<longleftrightarrow> (\<exists>n. bit a n \<and> bit b n)"
  by (metis bit_and_iff bit_eq_iff bit_0_eq bot_apply bot_bool_def)

lemma first_context_simps [simp]:
  "first_context [] k = None"
  "first_context (d # ds) k = (if k = pathAsString (dep_id d) then Some (dep_context d) else first_context ds k)"
  by (simp_all add: first_context_def)

lemma has_bit_simps [simp]:
  "has_bit [] k b \<longleftrightarrow> False"
  "has_bit (d # ds) k b \<longleftrightarrow> pathAsString (dep_id d) = k \<and> bit (dep_context d) b \<or> has_bit ds k b"
  by (simp_all add: has_bit_def)

lemma has_bit_append [simp]: "has_bit (a @ b) k n \<longleftrightarrow> has_bit a k n \<or> has_bit b k n"
  by (induction a) auto

lemma merge_dep_first_context:
  "first_context (fst (merge_dep dep ds)) k =
     (if k = pathAsString (dep_id dep)
      then Some ((case first_context ds k of None \<Rightarrow> 0 | Some c \<Rightarrow> c) OR dep_context dep)
      else first_context ds k)"
proof (induction ds)
  case (Cons d ds)
  then show ?case by (cases "id_eq (dep_id dep) (dep_id d)") (auto simp: id_eq_def split_beta)
qed simp

lemma merge_dep_changed:
  "snd (merge_dep dep ds) \<longleftrightarrow>
     (case first_context ds (pathAsString (dep_id dep)) of
        None \<Rightarrow> True | Some c \<Rightarrow> c OR dep_context dep \<noteq> c)"
proof (induction ds)
  case (Cons d ds)
  then show ?case by (cases "id_eq (dep_id dep) (dep_id d)") (simp_all add: id_eq_def split_beta)
qed simp

lemma merge_dep_has_bit:
  "has_bit (fst (merge_dep dep ds)) k b \<longleftrightarrow>
     has_bit ds k b \<or> (pathAsString (dep_id dep) = k \<and> bit (dep_context dep) b)"
proof (induction ds)
  case (Cons d ds)
  then show ?case
    by (cases "id_eq (dep_id dep) (dep_id d)") (auto simp: id_eq_def split_beta bit_or_iff)
qed simp

lemma merge_all_Cons:
  "merge_all (dep # add) ds ch = merge_all add (fst (merge_dep dep ds)) (ch \<or> snd (merge_dep dep ds))"
  by (simp add: split_beta)

declare merge_all.simps(2) [simp del] merge_all_Cons [simp]

lemma merge_all_has_bit:
  "has_bit (fst (merge_all add ds ch)) k b \<longleftrightarrow> has_bit ds k b \<or> has_bit add k b"
  by (induction add arbitrary: ds ch) (auto simp: merge_dep_has_bit)

lemma merge_all_ids: "\<exists>e. map dep_id (fst (merge_all add ds ch)) = map dep_id ds @ e"
proof (induction add arbitrary: ds ch)
  case (Cons dep add)
  have "\<exists>e. map dep_id (fst (merge_dep dep ds)) = map dep_id ds @ e"
    by (induction ds) (auto simp: split_beta)
  then show ?case using Cons[of "fst (merge_dep dep ds)" "ch \<or> snd (merge_dep dep ds)"] by auto
qed simp

lemma has_bit_collect:
  "has_bit (collect m ds) k b \<longleftrightarrow>
     (\<exists>d\<in>set ds. \<exists>e\<in>set (dm_at m (dep_id d)). pathAsString (dep_id e) = k \<and> bit (dep_context e) b
        \<and> (bit (dep_context d) 0 \<or> bit (dep_context d) b))"
proof -
  have "has_bit (List.map_filter (pass_on d) es) k b \<longleftrightarrow>
      (\<exists>e\<in>set es. pathAsString (dep_id e) = k \<and> bit (dep_context e) b
        \<and> (bit (dep_context d) 0 \<or> bit (dep_context d) b))" for d es
  proof (induction es)
    case (Cons e es)
    have "(case pass_on d e of None \<Rightarrow> False | Some x \<Rightarrow> pathAsString (dep_id x) = k \<and> bit (dep_context x) b)
        \<longleftrightarrow> pathAsString (dep_id e) = k \<and> bit (dep_context e) b
          \<and> (bit (dep_context d) 0 \<or> bit (dep_context d) b)"
      using and_nonzero_bit[of "dep_context d" "dep_context e"]
      by (auto simp: pass_on_def bit_and_iff)
    then show ?case using Cons by (auto simp: map_filter_simps split: option.splits)
  qed (simp add: map_filter_simps)
  then show ?thesis by (induction ds) (auto simp: collect_def)
qed

section \<open>Termination\<close>

definition dep_cells :: "dependency \<Rightarrow> (string \<times> nat option) set" where
  "dep_cells d = {(pathAsString (dep_id d), None)} \<union>
     (\<lambda>b. (pathAsString (dep_id d), Some b)) ` {b. bit (dep_context d) b}"

definition cells :: "dependency list \<Rightarrow> (string \<times> nat option) set" where
  "cells ds = {(k, x). \<exists>c. first_context ds k = Some c \<and> (case x of None \<Rightarrow> True | Some b \<Rightarrow> bit c b)}"

lemma finite_bits: "finite {b. bit (n::nat) b}"
proof (rule finite_subset)
  show "{b. bit n b} \<subseteq> {..n}"
  proof
    fix b assume "b \<in> {b. bit n b}"
    then have "2 ^ b \<le> n" by (metis bit_iff_odd div_less even_zero mem_Collect_eq not_le)
    from order_trans[OF less_imp_le[OF less_exp] this] show "b \<in> {..n}" by simp
  qed
qed simp

lemma finite_dep_cells [simp]: "finite (dep_cells d)"
  by (simp add: dep_cells_def finite_bits)

lemma or_absorb_iff: "(c::nat) OR d = c \<longleftrightarrow> (\<forall>b. bit d b \<longrightarrow> bit c b)"
  by (metis bit_eq_iff bit_or_iff)

lemma dep_cells_iff:
  "(k, x) \<in> dep_cells d \<longleftrightarrow>
     k = pathAsString (dep_id d) \<and> (case x of None \<Rightarrow> True | Some b \<Rightarrow> bit (dep_context d) b)"
  by (auto simp: dep_cells_def split: option.splits)

lemma cells_merge_dep: "cells (fst (merge_dep dep ds)) = cells ds \<union> dep_cells dep"
  by (auto simp: cells_def merge_dep_first_context dep_cells_iff bit_or_iff split: option.splits if_splits)

lemma changed_merge_dep: "snd (merge_dep dep ds) \<longleftrightarrow> \<not> dep_cells dep \<subseteq> cells ds"
proof (cases "first_context ds (pathAsString (dep_id dep))")
  case None
  then show ?thesis by (auto simp: merge_dep_changed cells_def dep_cells_def)
next
  case (Some c)
  then show ?thesis by (auto simp: merge_dep_changed cells_def dep_cells_def or_absorb_iff)
qed

lemma merge_all_cells:
  "cells (fst (merge_all add ds ch)) = cells ds \<union> \<Union> (dep_cells ` set add)"
  "snd (merge_all add ds ch) \<longleftrightarrow> ch \<or> \<not> \<Union> (dep_cells ` set add) \<subseteq> cells ds"
  by (induction add arbitrary: ds ch) (auto simp: cells_merge_dep changed_merge_dep)

lemma first_context_SomeD:
  "first_context ds k = Some c \<Longrightarrow> \<exists>d\<in>set ds. pathAsString (dep_id d) = k \<and> dep_context d = c"
  by (induction ds) (auto split: if_splits)

lemma finite_cells [simp]: "finite (cells ds)"
proof (rule finite_subset)
  show "cells ds \<subseteq> \<Union> (dep_cells ` set ds)"
    by (fastforce simp: cells_def dep_cells_iff dest: first_context_SomeD)
qed simp

lemma dm_at_all: "e \<in> set (dm_at m x) \<Longrightarrow> e \<in> set (concat (map snd m))"
  by (cases "map_of m (pathAsString x)") (force simp: dm_at_def dest: map_of_SomeD)+

lemma pass_on_cells: "pass_on d e = Some x \<Longrightarrow> dep_cells x \<subseteq> dep_cells e"
  by (auto simp: pass_on_def dep_cells_def bit_and_iff split: if_splits)

lemma collect_cells:
  "\<Union> (dep_cells ` set (collect m ds)) \<subseteq> \<Union> (dep_cells ` set (concat (map snd m)))"
proof
  fix y assume "y \<in> \<Union> (dep_cells ` set (collect m ds))"
  then obtain x where x: "x \<in> set (collect m ds)" "y \<in> dep_cells x" by auto
  then obtain d e where e: "e \<in> set (dm_at m (dep_id d))" "pass_on d e = Some x"
    by (auto simp: collect_def map_filter_def)
  show "y \<in> \<Union> (dep_cells ` set (concat (map snd m)))"
    by (rule UN_I, rule dm_at_all[OF e(1)], rule subsetD[OF pass_on_cells[OF e(2)] x(2)])
qed

lemma cells_has_bit: "\<Union> (dep_cells ` set add) \<subseteq> cells ds \<Longrightarrow> has_bit add k b \<Longrightarrow> has_bit ds k b"
proof -
  assume sub: "\<Union> (dep_cells ` set add) \<subseteq> cells ds" and "has_bit add k b"
  then have "(k, Some b) \<in> \<Union> (dep_cells ` set add)" by (auto simp: has_bit_def dep_cells_iff)
  then obtain c where "first_context ds k = Some c" "bit c b" using sub by (auto simp: cells_def)
  then show "has_bit ds k b" by (auto simp: has_bit_def dest: first_context_SomeD)
qed

lemma collect_iff:
  "has_bit (collect m ds) k b \<longleftrightarrow>
     (\<exists>x. \<exists>e\<in>set (dm_at m x). pathAsString (dep_id e) = k \<and> bit (dep_context e) b
        \<and> (has_bit ds (pathAsString x) 0 \<or> has_bit ds (pathAsString x) b))"
  (is "_ \<longleftrightarrow> ?R")
proof
  assume "has_bit (collect m ds) k b"
  then obtain d e where "d \<in> set ds" "e \<in> set (dm_at m (dep_id d))" "pathAsString (dep_id e) = k"
      "bit (dep_context e) b" "bit (dep_context d) 0 \<or> bit (dep_context d) b"
    unfolding has_bit_collect by auto
  then show ?R by (intro exI[of _ "dep_id d"] bexI[of _ e]) (auto simp: has_bit_def)
next
  have same: "dm_at m x = dm_at m y" if "pathAsString x = pathAsString y" for x y
    using that by (simp add: dm_at_def)
  assume ?R
  then obtain x e d where "e \<in> set (dm_at m x)" "pathAsString (dep_id e) = k" "bit (dep_context e) b"
      "d \<in> set ds" "pathAsString (dep_id d) = pathAsString x" "bit (dep_context d) 0 \<or> bit (dep_context d) b"
    by (auto simp: has_bit_def)
  then show "has_bit (collect m ds) k b"
    unfolding has_bit_collect by (intro bexI[of _ d] bexI[of _ e]) (auto simp: same[of x "dep_id d"])
qed

lemma collect_needs:
  assumes "\<And>k b. has_bit ds k b \<Longrightarrow> needs m roots k b" "has_bit (collect m ds) k b"
  shows "needs m roots k b"
  using assms(2) unfolding collect_iff by (auto dest!: assms(1) intro: needs.intros)

lemma card_room_decreases:
  "finite U \<Longrightarrow> N \<subseteq> U \<Longrightarrow> \<not> N \<subseteq> C \<Longrightarrow> card (U - (C \<union> N)) < card (U - C)"
  by (rule psubset_card_mono) auto

lemma closure_loop_result:
  "\<exists>r. closure_loop m ds = Some r \<and> (\<exists>e. map dep_id r = map dep_id ds @ e)
    \<and> (\<forall>k b. has_bit ds k b \<longrightarrow> has_bit r k b)
    \<and> (\<forall>k b. has_bit (collect m r) k b \<longrightarrow> has_bit r k b)
    \<and> ((\<forall>k b. has_bit ds k b \<longrightarrow> needs m roots k b) \<longrightarrow> (\<forall>k b. has_bit r k b \<longrightarrow> needs m roots k b))"
proof (induction "card (\<Union> (dep_cells ` set (concat (map snd m))) - cells ds)" arbitrary: ds rule: less_induct)
  case less
  let ?U = "\<Union> (dep_cells ` set (concat (map snd m)))"
  let ?new = "collect m ds"
  let ?m = "merge_all ?new ds False"
  obtain e where ids: "map dep_id (fst ?m) = map dep_id ds @ e" using merge_all_ids by blast
  note bits = merge_all_has_bit[of ?new ds False]
  show ?case
  proof (cases "snd ?m")
    case False
    then have sub: "\<Union> (dep_cells ` set ?new) \<subseteq> cells ds" by (simp add: merge_all_cells)
    have same: "has_bit (fst ?m) = has_bit ds"
      using cells_has_bit[OF sub] by (intro ext) (auto simp: bits)
    have "closure_loop m ds = Some (fst ?m)"
      using False by (subst closure_loop.simps) (simp add: Let_def)
    moreover have "has_bit (collect m (fst ?m)) = has_bit ?new"
      by (intro ext) (simp add: collect_iff same)
    ultimately show ?thesis using ids same cells_has_bit[OF sub] by auto
  next
    case True
    then have step: "closure_loop m ds = closure_loop m (fst ?m)"
      by (subst closure_loop.simps) (simp add: Let_def)
    have "\<not> \<Union> (dep_cells ` set ?new) \<subseteq> cells ds" using True by (simp add: merge_all_cells)
    then have "card (?U - cells (fst ?m)) < card (?U - cells ds)"
      unfolding merge_all_cells by (intro card_room_decreases[OF _ collect_cells]) simp_all
    from less[OF this] obtain r e' where r: "closure_loop m (fst ?m) = Some r"
      "map dep_id r = map dep_id (fst ?m) @ e'"
      "\<And>k b. has_bit (fst ?m) k b \<Longrightarrow> has_bit r k b"
      "\<And>k b. has_bit (collect m r) k b \<Longrightarrow> has_bit r k b"
      "(\<forall>k b. has_bit (fst ?m) k b \<longrightarrow> needs m roots k b) \<Longrightarrow> (\<forall>k b. has_bit r k b \<longrightarrow> needs m roots k b)"
      by blast
    have "\<forall>k b. has_bit r k b \<longrightarrow> needs m roots k b" if "\<forall>k b. has_bit ds k b \<longrightarrow> needs m roots k b"
      using that collect_needs[of ds m roots] by (intro r(5)) (auto simp: bits)
    moreover have "map dep_id r = map dep_id ds @ (e @ e')" using r(2) ids by simp
    moreover have "has_bit r k b" if "has_bit ds k b" for k b using that by (intro r(3)) (simp add: bits)
    ultimately show ?thesis using r(1,4) unfolding step by blast
  qed
qed

lemma closure_total: "\<exists>r. closure_loop m ds = Some r"
  using closure_loop_result by blast

lemma closure_exact:
  assumes "closure_loop m ds = Some r"
  shows "has_bit r k b \<longleftrightarrow> needs m ds k b"
proof -
  have "needs m ds k b" if "has_bit ds k b" for k b
    using that unfolding has_bit_def by (auto intro: needs.root)
  then have r: "\<And>k b. has_bit ds k b \<Longrightarrow> has_bit r k b"
      "\<And>k b. has_bit (collect m r) k b \<Longrightarrow> has_bit r k b"
      "\<And>k b. has_bit r k b \<Longrightarrow> needs m ds k b"
    using closure_loop_result[of m ds ds] assms by auto
  have "has_bit r k b" if "needs m ds k b"
    using that
  proof induction
    case (root d b)
    then show ?case by (intro r(1)) (auto simp: has_bit_def)
  next
    case (application x d b)
    then show ?case by (intro r(2)) (unfold collect_iff, blast)
  next
    case (context_bit x b d)
    then show ?case by (intro r(2)) (unfold collect_iff, blast)
  qed
  then show ?thesis using r(3) by blast
qed

lemma resolve_dependencies_result:
  "\<exists>deps d. resolve_dependencies m items = Some deps \<and> dep_id d = length_tracking_id
     \<and> closure_loop m (initial_dependencies items) = Some (d # deps)"
proof -
  obtain r e where r: "closure_loop m (initial_dependencies items) = Some r"
      "map dep_id r = map dep_id (initial_dependencies items) @ e"
    using closure_loop_result[of m "initial_dependencies items" "[]"] by blast
  then obtain d deps where "r = d # deps" "dep_id d = length_tracking_id"
    by (cases r) (auto simp: initial_dependencies_def)
  then show ?thesis using r(1) by (auto simp: resolve_dependencies_def)
qed

section \<open>Properties\<close>

text \<open>C15: the dependency resolver ends on every dependency map, cyclic ones included, and what it
  records for an instantiation is exact.  Apart from the artificial root that stands for the length
  of the message, a field is recorded in a context if and only if the context is derivable: the
  application asked for the field, or some recorded field depends on it in that context and is
  itself needed in that context or by the application.\<close>

theorem resolve_dependencies_exact:
  "\<exists>deps. resolve_dependencies m items = Some deps
     \<and> (\<forall>k b. k \<noteq> ''__length'' \<longrightarrow> (has_bit deps k b \<longleftrightarrow> needs m (initial_dependencies items) k b))"
proof -
  obtain deps d where d: "resolve_dependencies m items = Some deps" "dep_id d = length_tracking_id"
      "closure_loop m (initial_dependencies items) = Some (d # deps)"
    using resolve_dependencies_result by blast
  have "pathAsString (dep_id d) = ''__length''" by (simp add: d(2) length_tracking_id_def)
  then have "has_bit deps k b \<longleftrightarrow> needs m (initial_dependencies items) k b" if "k \<noteq> ''__length''" for k b
    using closure_exact[OF d(3), of k b] that by auto
  then show ?thesis using d(1) by blast
qed

definition cyclic_map :: dependency_map where
  "cyclic_map =
     [(''body'', [\<lparr>dep_id = [''len''], dep_context = 10\<rparr>]),
      (''len'', [\<lparr>dep_id = [''body''], dep_context = 8\<rparr>])]"

theorem resolve_dependencies_exact_witness:
  "\<exists>deps. resolve_dependencies cyclic_map [[''body'']] = Some deps
     \<and> has_bit deps ''len'' 1 \<and> has_bit deps ''body'' 3"
proof -
  have at: "\<lparr>dep_id = [''len''], dep_context = 10\<rparr> \<in> set (dm_at cyclic_map [''body''])"
    "\<lparr>dep_id = [''body''], dep_context = 8\<rparr> \<in> set (dm_at cyclic_map [''len''])"
    by (simp_all add: dm_at_def cyclic_map_def)
  let ?n = "needs cyclic_map (initial_dependencies [[''body'']])"
  have b: "bit (10::nat) 1" "bit (10::nat) 3" "bit (8::nat) 3" by code_simp+
  have "?n (pathAsString [''body'']) 0"
    using needs.root[of "\<lparr>dep_id = [''body''], dep_context = 1\<rparr>" _ 0]
    by (simp add: initial_dependencies_def CONTEXT_APPLICATION_def bit_0)
  then have l: "?n (pathAsString [''len'']) b" if "b = 1 \<or> b = 3" for b
    using needs.application[OF _ at(1), of _ b] that b by auto
  have "?n ''body'' 3" using needs.context_bit[OF l[of 3] at(2)] b by simp
  then show ?thesis
    using resolve_dependencies_exact[of cyclic_map "[[''body'']]"] l[of 1] by auto
qed

end
