(* ===== verification/Ast.thy ===== *)
theory Ast
  imports Ident
begin

text \<open>
  The syntax tree of a specification (\<^verbatim>\<open>spec/ast\<close>).

  Types are shared nodes: a unit type is the target of every field declared with it, may refer to
  itself, and the generators compare type nodes by identity.  They therefore live in a store and are
  referred to by address (\<open>taddr\<close>).  Expressions, constants, constructors, attributes and unit items
  are owned by one parent and are trees.  Parent and unit back pointers are the \<open>it_unit\<close> address;
  source locations are left out.

  An \<open>attribute list\<close> used as an attribute map is sorted by key, the iteration order of the
  \<^verbatim>\<open>std::map\<close> in \<^verbatim>\<open>AttributeMap\<close>; \<open>attrs_add\<close> keeps it so.  The loop in the constructor of
  \<^verbatim>\<open>Attribute\<close> asks \<^verbatim>\<open>strchr\<close>, which also finds the terminating zero.
\<close>

type_synonym taddr = nat

section \<open>Expressions\<close>

datatype op_kind =
  op_None | op_Attribute | op_AttributeAssign | op_BitAnd | op_BitOr | op_BitXor | op_Call | op_Coerce
| op_Cast | op_DecrPostfix | op_DecrPrefix | op_Deref | op_Div | op_Equal | op_Greater | op_HasAttribute
| op_IncrPostfix | op_IncrPrefix | op_In | op_Index | op_IndexAssign | op_Less | op_LogicalAnd | op_LogicalOr
| op_MethodCall | op_Minus | op_MinusAssign | op_Mod | op_Mult | op_Not | op_Plus | op_PlusAssign | op_Power
| op_ShiftLeft | op_ShiftRight | op_SignNeg | op_SignPos | op_Size

datatype parser_state_kind = SELF | DOLLARDOLLAR | PARAMETER

text \<open>\<open>EFind\<close> carries the element name and body of its two \<^verbatim>\<open>Lambda\<close> operands.  A function node is
  its identifier, the address of its type and its C++ body; a transform node is its identifier, the
  wire and internal types and the two functions, which the built-in transforms do not have.\<close>

record function_node =
  fn_id :: ident
  fn_type :: taddr
  fn_body :: string

record transform_node =
  tr_id :: ident
  tr_wire_type :: taddr
  tr_internal_type :: taddr
  tr_decode :: "function_node option"
  tr_encode :: "function_node option"

datatype expr =
  EAssign expr expr
| EConditional expr expr "expr option"
| EConstant const
| ECtor ctor
| EFind expr ident expr ident expr "expr option"
| EFunction function_node
| EID ident
| ELambda ident expr
| EListComprehension expr ident expr "expr option"
| EMemberAttribute ident
| EOperator op_kind "expr list"
| EParserState parser_state_kind "ident option" "taddr option" "taddr option"
| ETransform transform_node
| EType taddr
| EVariable ident taddr "expr option"
and const =
  CBitset "ident list" taddr
| CBool bool
| CDouble string
| CEnum ident taddr
| CInteger int int bool
| CNone
| CString string
| CTuple "expr list"
and ctor =
  BytesCtor string
| RegExpCtor "string list" "attribute list"
and attribute =
  Attr (attr_key: string) (attr_value: "expr option") (attr_internal: bool)

section \<open>Attributes\<close>

fun strip_marks :: "string \<Rightarrow> string" where
  "strip_marks [] = []"
| "strip_marks (c # cs) = (if c \<in> set (''&%.'' @ [CHR 0x00]) then strip_marks cs else c # cs)"

definition Attribute :: "string \<Rightarrow> expr option \<Rightarrow> bool \<Rightarrow> attribute" where
  "Attribute key value internal = Attr (strip_marks key) value internal"

definition attr_eq :: "attribute \<Rightarrow> attribute \<Rightarrow> bool" where
  "attr_eq a b \<longleftrightarrow> attr_key a = attr_key b"

fun attrs_add :: "attribute \<Rightarrow> attribute list \<Rightarrow> attribute list" where
  "attrs_add a [] = [a]"
| "attrs_add a (b # bs) =
     (if attr_key a = attr_key b then a # bs
      else if attr_key a < attr_key b then a # b # bs
      else b # attrs_add a bs)"

definition attrs_lookup :: "attribute list \<Rightarrow> string \<Rightarrow> attribute option" where
  "attrs_lookup as key = List.find (\<lambda>a. attr_key a = key) as"

definition attrs_has :: "attribute list \<Rightarrow> string \<Rightarrow> bool" where
  "attrs_has as key \<longleftrightarrow> attrs_lookup as key \<noteq> None"

definition attrs_remove :: "attribute list \<Rightarrow> string \<Rightarrow> attribute list" where
  "attrs_remove as key = filter (\<lambda>a. attr_key a \<noteq> key) as"

definition AttributeMap :: "attribute list \<Rightarrow> attribute list" where
  "AttributeMap as = fold attrs_add as []"

section \<open>Units and types\<close>

record item_base =
  it_id :: ident
  it_anonymous :: bool
  it_parsing_only :: bool
  it_app_accessible :: bool
  it_type :: "taddr option"
  it_serialized_type :: "taddr option"
  it_attributes :: "attribute list"
  it_unit :: "taddr option"

record field_base =
  fd_condition :: "expr option"
  fd_parameters :: "expr list"
  fd_sinks :: "expr list"

datatype item =
  Variable item_base "expr option"
| Property item_base attribute
| AtomicType item_base field_base
| ConstantField item_base field_base const
| CtorField item_base field_base ctor
| UnknownField item_base field_base ident
| UnitField item_base field_base
| Switch item_base field_base "expr option" "switch_case list"
| Vector item_base field_base item expr
| ListField item_base field_base item
and switch_case =
  Case (case_exprs: "expr list") (case_items: "item list") (case_default: bool)

record parameter =
  par_id :: "ident option"
  par_type :: taddr
  par_constant :: bool
  par_default :: "expr option"

datatype type_kind =
  TAny
| TUnknown "ident option"
| TUnknownElementType expr
| TBool
| TBytes
| TCAddr
| TDouble
| TSink
| TString
| TVoid
| TInteger int bool
| TTuple "taddr list"
| TMemberAttribute "ident option"
| TTypeType "taddr option"
| TEnum "(ident \<times> int) list"
| TBitset "(ident \<times> int) list"
| TBitfield int
| TList "taddr option"
| TVector "taddr option"
| TMap "taddr option" "taddr option"
| TSet "taddr option"
| TFunction "(taddr \<times> bool) option" "parameter list"
| TRegExp "attribute list"
| TUnit "parameter list" "item list"

record type_obj =
  ty_kind :: type_kind
  ty_id :: "ident option"
  ty_wildcard :: bool

type_synonym type_store = "taddr \<Rightarrow> type_obj option"

fun base_of :: "item \<Rightarrow> item_base" where
  "base_of (Variable b d) = b"
| "base_of (Property b p) = b"
| "base_of (AtomicType b f) = b"
| "base_of (ConstantField b f c) = b"
| "base_of (CtorField b f c) = b"
| "base_of (UnknownField b f i) = b"
| "base_of (UnitField b f) = b"
| "base_of (Switch b f e cs) = b"
| "base_of (Vector b f i l) = b"
| "base_of (ListField b f i) = b"

fun field_of :: "item \<Rightarrow> field_base option" where
  "field_of (Variable b d) = None"
| "field_of (Property b p) = None"
| "field_of (AtomicType b f) = Some f"
| "field_of (ConstantField b f c) = Some f"
| "field_of (CtorField b f c) = Some f"
| "field_of (UnknownField b f i) = Some f"
| "field_of (UnitField b f) = Some f"
| "field_of (Switch b f e cs) = Some f"
| "field_of (Vector b f i l) = Some f"
| "field_of (ListField b f i) = Some f"

definition is_field :: "item \<Rightarrow> bool" where
  "is_field i \<longleftrightarrow> field_of i \<noteq> None"

abbreviation item_id :: "item \<Rightarrow> ident" where
  "item_id i \<equiv> it_id (base_of i)"

definition serialized_type :: "item \<Rightarrow> taddr option" where
  "serialized_type i =
     (case it_serialized_type (base_of i) of Some t \<Rightarrow> Some t | None \<Rightarrow> it_type (base_of i))"

definition unit_items :: "type_store \<Rightarrow> taddr \<Rightarrow> item list option" where
  "unit_items ts t =
     (case ts t of Some ob \<Rightarrow> (case ty_kind ob of TUnit ps is \<Rightarrow> Some is | _ \<Rightarrow> None) | None \<Rightarrow> None)"

section \<open>Attribute maps\<close>

text \<open>What the passes rely on when they build an attribute map and look a key up.\<close>

locale keyed_map =
  fixes key :: "'a \<Rightarrow> string" and add :: "'a \<Rightarrow> 'm \<Rightarrow> 'm" and lookup :: "'m \<Rightarrow> string \<Rightarrow> 'a option"
    and wf :: "'m \<Rightarrow> bool"
  assumes wf_add: "wf m \<Longrightarrow> wf (add a m)"
    and lookup_add: "wf m \<Longrightarrow> lookup (add a m) k = (if k = key a then Some a else lookup m k)"
begin

lemma wf_fold: "wf m \<Longrightarrow> wf (fold add as m)"
  by (induction as arbitrary: m) (simp_all add: wf_add)

lemma lookup_fold:
  "wf m \<Longrightarrow> lookup (fold add as m) k =
     (case List.find (\<lambda>a. key a = k) (rev as) of Some a \<Rightarrow> Some a | None \<Rightarrow> lookup m k)"
proof (induction as rule: rev_induct)
  case (snoc a as)
  then show ?case using lookup_add[OF wf_fold[OF snoc.prems], of a as k] by simp
qed simp

end

definition attrs_sorted :: "attribute list \<Rightarrow> bool" where
  "attrs_sorted as \<longleftrightarrow> sorted_wrt (\<lambda>a b. attr_key a < attr_key b) as"

lemma attrs_add_keys: "attr_key ` set (attrs_add a as) = insert (attr_key a) (attr_key ` set as)"
  by (induction as) auto

lemma attrs_sorted_Cons:
  "attrs_sorted (a # as) \<longleftrightarrow> (\<forall>x\<in>set as. attr_key a < attr_key x) \<and> attrs_sorted as"
  by (simp add: attrs_sorted_def)

lemma attrs_add_less:
  assumes "k < attr_key a" "\<forall>x\<in>set as. k < attr_key x" "y \<in> set (attrs_add a as)"
  shows "k < attr_key y"
proof -
  have "attr_key y \<in> insert (attr_key a) (attr_key ` set as)"
    unfolding attrs_add_keys[symmetric] using assms(3) by (rule imageI)
  then show ?thesis using assms(1,2) by (elim insertE imageE) simp_all
qed

lemma attrs_sorted_add: "attrs_sorted as \<Longrightarrow> attrs_sorted (attrs_add a as)"
proof (induction as)
  case (Cons b bs)
  consider "attr_key a = attr_key b" | "attr_key a < attr_key b" | "attr_key b < attr_key a"
    by (rule linorder_cases[of "attr_key a" "attr_key b"])
  then show ?case
  proof cases
    case 1
    then show ?thesis using Cons.prems by (simp add: attrs_sorted_Cons)
  next
    case 2
    then show ?thesis using Cons.prems less_trans by (simp add: attrs_sorted_Cons) blast
  next
    case 3
    then have "attrs_add a (b # bs) = b # attrs_add a bs"
      using less_not_sym[OF 3] less_imp_neq[OF 3, symmetric] by simp
    then show ?thesis using 3 Cons attrs_add_less[of "attr_key b" a bs] by (simp add: attrs_sorted_Cons)
  qed
qed (simp add: attrs_sorted_def)

lemma attrs_lookup_simps [simp]:
  "attrs_lookup [] k = None"
  "attrs_lookup (b # bs) k = (if attr_key b = k then Some b else attrs_lookup bs k)"
  by (simp_all add: attrs_lookup_def)

lemma attrs_lookup_add:
  "attrs_lookup (attrs_add a as) k = (if k = attr_key a then Some a else attrs_lookup as k)"
  by (induction as) auto

interpretation attr_map: keyed_map attr_key attrs_add attrs_lookup attrs_sorted
  by unfold_locales (simp_all add: attrs_sorted_add attrs_lookup_add)

text \<open>C30: an attribute map built from a list of attributes is sorted by key, and looking a key up
  gives the last attribute of the list that has it.\<close>

theorem AttributeMap_lookup:
  "attrs_sorted (AttributeMap as) \<and>
   attrs_lookup (AttributeMap as) key = List.find (\<lambda>a. attr_key a = key) (rev as)"
  using attr_map.wf_fold[of "[]" as] attr_map.lookup_fold[of "[]" as key]
  by (simp add: AttributeMap_def attrs_sorted_def option.case_eq_if)

end
