(* ===== verification/Unit_Length.thy ===== *)
theory Unit_Length
  imports Ast "HOL-Library.Signed_Division"
begin

text \<open>
  The accessors of a unit type and the serialized lengths of types, constants, fields and units
  (\<^verbatim>\<open>spec/ast/type/unit.cpp\<close>, \<^verbatim>\<open>type/atomic_types.cpp\<close>, \<^verbatim>\<open>constant/*.cpp\<close>).

  A length of \<open>-1\<close> means that the length is not known before the message is seen.  The length
  functions follow field types into the type store; a unit that contains itself makes the C++
  recursion endless, so the functions take the number of nested unit and tuple types they may enter
  as fuel and are \<^const>\<open>None\<close> when it is used up.  \<^const>\<open>None\<close> also stands for a null
  dereference or a failed checked cast.  A Switch keeps the length of the previous case in a 32-bit
  \<^verbatim>\<open>int\<close>.
\<close>

section \<open>Accessors\<close>

fun flatten_item :: "item \<Rightarrow> item list"
and flatten_items :: "item list \<Rightarrow> item list"
and flatten_cases :: "switch_case list \<Rightarrow> item list" where
  "flatten_item (Switch b f e cs) = flatten_cases cs @ [Switch b f e cs]"
| "flatten_item i = [i]"
| "flatten_items [] = []"
| "flatten_items (i # is) = flatten_item i @ flatten_items is"
| "flatten_cases [] = []"
| "flatten_cases (Case es is d # cs) = flatten_items is @ flatten_cases cs"

definition fields :: "item list \<Rightarrow> item list" where
  "fields is = filter is_field is"

definition flattenedFields :: "item list \<Rightarrow> item list" where
  "flattenedFields is = filter is_field (flatten_items is)"

definition is_variable :: "item \<Rightarrow> bool" where
  "is_variable i = (case i of Variable b d \<Rightarrow> True | _ \<Rightarrow> False)"

definition variables :: "item list \<Rightarrow> item list" where
  "variables is = filter is_variable is"

definition property_of :: "item \<Rightarrow> attribute option" where
  "property_of i = (case i of Property b p \<Rightarrow> Some p | _ \<Rightarrow> None)"

definition properties :: "item list \<Rightarrow> item list" where
  "properties is = filter (\<lambda>i. property_of i \<noteq> None) is"

definition properties_named :: "item list \<Rightarrow> string \<Rightarrow> item list" where
  "properties_named is name =
     filter (\<lambda>i. case property_of i of None \<Rightarrow> False | Some p \<Rightarrow> attr_eq (Attribute name None False) p) is"

definition unit_property :: "item list \<Rightarrow> string \<Rightarrow> item option" where
  "unit_property is prop = (case properties_named is prop of [] \<Rightarrow> None | p # _ \<Rightarrow> Some p)"

definition unit_item :: "item list \<Rightarrow> string \<Rightarrow> item option" where
  "unit_item is name = List.find (\<lambda>i. id_name (item_id i) = name) (flatten_items is)"

fun unit_path :: "type_store \<Rightarrow> string list \<Rightarrow> taddr \<Rightarrow> (item option \<times> string) option" where
  "unit_path ts [] current = None"
| "unit_path ts (p # ps) current =
     (case unit_items ts current of
        None \<Rightarrow> None
      | Some is \<Rightarrow>
          (case unit_item is p of
             None \<Rightarrow> Some (None, strjoin (p # ps) ''.'')
           | Some next \<Rightarrow>
               if ps = [] then Some (Some next, [])
               else if \<not> is_field next then Some (Some next, strjoin ps ''.'')
               else (case it_type (base_of next) of
                       None \<Rightarrow> Some (Some next, strjoin ps ''.'')
                     | Some t \<Rightarrow> if unit_items ts t = None then Some (Some next, strjoin ps ''.'')
                                 else unit_path ts ps t)))"

definition unit_inheritedProperty ::
    "item list \<Rightarrow> attribute list option \<Rightarrow> string \<Rightarrow> item option \<Rightarrow> expr option" where
  "unit_inheritedProperty is module_properties pname it =
     (let unit_prop = (case unit_property is pname of None \<Rightarrow> None | Some i \<Rightarrow> property_of i);
          module_prop = (case module_properties of None \<Rightarrow> None | Some ps \<Rightarrow> attrs_lookup ps pname);
          item_prop = (case it of None \<Rightarrow> None | Some i \<Rightarrow> attrs_lookup (it_attributes (base_of i)) pname)
      in case item_prop of Some a \<Rightarrow> attr_value a
         | None \<Rightarrow> (case unit_prop of Some a \<Rightarrow> attr_value a
             | None \<Rightarrow> (case module_prop of Some a \<Rightarrow> attr_value a | None \<Rightarrow> None)))"

section \<open>Lengths\<close>

fun const_static_length :: "const \<Rightarrow> int"
and elems_static_length :: "expr list \<Rightarrow> int \<Rightarrow> int" where
  "const_static_length (CBitset bs t) = -1"
| "const_static_length (CBool v) = 1"
| "const_static_length (CDouble v) = 8"
| "const_static_length (CEnum l t) = -1"
| "const_static_length (CInteger v w s) = w sdiv 8"
| "const_static_length CNone = -1"
| "const_static_length (CString v) = int (length v)"
| "const_static_length (CTuple es) = elems_static_length es 0"
| "elems_static_length [] len = len"
| "elems_static_length (e # es) len =
     (case e of
        EConstant c \<Rightarrow>
          (if const_static_length c < 0 then -1 else elems_static_length es (len + const_static_length c))
      | _ \<Rightarrow> -1)"

definition const_integer :: "expr option \<Rightarrow> int option" where
  "const_integer e = (case e of Some (EConstant (CInteger v w s)) \<Rightarrow> Some v | _ \<Rightarrow> None)"

definition length_attr :: "item_base \<Rightarrow> expr option" where
  "length_attr b =
     (case attrs_lookup (it_attributes b) ''length'' of None \<Rightarrow> None | Some a \<Rightarrow> attr_value a)"

definition int32 :: "int \<Rightarrow> int" where
  "int32 i = signed_take_bit 31 i"

text \<open>The loops over fields are parameterised by the length \<open>tlen\<close> of a type; \<open>type_static_length\<close>
  closes the recursion, one unit of fuel for each unit or tuple it enters.\<close>

fun field_static_length :: "type_store \<Rightarrow> (taddr \<Rightarrow> int option) \<Rightarrow> item \<Rightarrow> int option"
and fields_static_length :: "type_store \<Rightarrow> (taddr \<Rightarrow> int option) \<Rightarrow> item list \<Rightarrow> int \<Rightarrow> int option"
and cases_static_length ::
    "type_store \<Rightarrow> (taddr \<Rightarrow> int option) \<Rightarrow> switch_case list \<Rightarrow> bool \<Rightarrow> int \<Rightarrow> int option" where
  "field_static_length ts tlen (AtomicType b f) =
     (case serialized_type (AtomicType b f) of
        None \<Rightarrow> None
      | Some t \<Rightarrow>
          (case tlen t of
             None \<Rightarrow> None
           | Some l \<Rightarrow> if l \<ge> 0 then Some l
               else (case const_integer (length_attr b) of Some v \<Rightarrow> Some v | None \<Rightarrow> Some (-1))))"
| "field_static_length ts tlen (ConstantField b f c) = Some (const_static_length c)"
| "field_static_length ts tlen (CtorField b f c) = Some (-1)"
| "field_static_length ts tlen (UnknownField b f i) = Some (-1)"
| "field_static_length ts tlen (UnitField b f) =
     (case it_type b of
        None \<Rightarrow> None
      | Some t \<Rightarrow> if unit_items ts t = None then None else tlen t)"
| "field_static_length ts tlen (Switch b f e cs) = cases_static_length ts tlen cs True 0"
| "field_static_length ts tlen (Vector b f inner len) =
     (case const_integer (Some len) of
        None \<Rightarrow> Some (-1)
      | Some v \<Rightarrow>
          (case field_static_length ts tlen inner of
             None \<Rightarrow> None
           | Some l \<Rightarrow> if l \<ge> 0 then Some (v * l) else Some (-1)))"
| "field_static_length ts tlen (ListField b f inner) = Some (-1)"
| "field_static_length ts tlen (Variable b d) = None"
| "field_static_length ts tlen (Property b p) = None"
| "fields_static_length ts tlen [] len = Some len"
| "fields_static_length ts tlen (i # is) len =
     (if \<not> is_field i then fields_static_length ts tlen is len
      else (case field_static_length ts tlen i of
              None \<Rightarrow> None
            | Some l \<Rightarrow> if l < 0 then Some (-1) else fields_static_length ts tlen is (len + l)))"
| "cases_static_length ts tlen [] first last_len = Some last_len"
| "cases_static_length ts tlen (Case es is d # cs) first last_len =
     (case fields_static_length ts tlen is 0 of
        None \<Rightarrow> None
      | Some l \<Rightarrow>
          if l < 0 then Some (-1)
          else if \<not> first \<and> last_len \<noteq> l then Some (-1)
          else cases_static_length ts tlen cs False (int32 l))"

fun types_static_length :: "(taddr \<Rightarrow> int option) \<Rightarrow> taddr list \<Rightarrow> int \<Rightarrow> int option" where
  "types_static_length tlen [] len = Some len"
| "types_static_length tlen (t # tys) len =
     (case tlen t of
        None \<Rightarrow> None
      | Some l \<Rightarrow> if l < 0 then Some (-1) else types_static_length tlen tys (len + l))"

primrec type_static_length :: "nat \<Rightarrow> type_store \<Rightarrow> taddr \<Rightarrow> int option" where
  "type_static_length 0 ts t = None"
| "type_static_length (Suc n) ts t =
     (case ts t of
        None \<Rightarrow> None
      | Some ob \<Rightarrow>
          (case ty_kind ob of
             TBool \<Rightarrow> Some (if ty_wildcard ob then -1 else 1)
           | TCAddr \<Rightarrow> Some (if ty_wildcard ob then -1 else 8)
           | TDouble \<Rightarrow> Some (if ty_wildcard ob then -1 else 8)
           | TVoid \<Rightarrow> Some 0
           | TInteger w s \<Rightarrow> Some (if ty_wildcard ob then -1 else w sdiv 8)
           | TBitfield w \<Rightarrow> Some w
           | TTuple tys \<Rightarrow>
               if ty_wildcard ob then Some (-1) else types_static_length (type_static_length n ts) tys 0
           | TUnit ps is \<Rightarrow>
               if ty_wildcard ob then Some (-1) else fields_static_length ts (type_static_length n ts) is 0
           | _ \<Rightarrow> Some (-1)))"

text \<open>The length as an expression to be evaluated while a message is parsed; the inner option is the
  null pointer the source returns when there is none.\<close>

definition static_length_expr :: "int \<Rightarrow> expr" where
  "static_length_expr len = EConstant (CInteger len 32 True)"

definition field_default_length :: "type_store \<Rightarrow> (taddr \<Rightarrow> int option) \<Rightarrow> item \<Rightarrow> expr option option" where
  "field_default_length ts tlen i =
     (case field_static_length ts tlen i of
        None \<Rightarrow> None
      | Some l \<Rightarrow> if l \<ge> 0 then Some (Some (static_length_expr l)) else Some None)"

fun field_serialized_length ::
    "type_store \<Rightarrow> (taddr \<Rightarrow> int option) \<Rightarrow> (taddr \<Rightarrow> expr option option) \<Rightarrow> item \<Rightarrow> expr option option" where
  "field_serialized_length ts tlen ulen (AtomicType b f) =
     (case field_default_length ts tlen (AtomicType b f) of
        None \<Rightarrow> None
      | Some (Some e) \<Rightarrow> Some (Some e)
      | Some None \<Rightarrow> Some (length_attr b))"
| "field_serialized_length ts tlen ulen (UnitField b f) =
     (case it_type b of
        None \<Rightarrow> None
      | Some t \<Rightarrow> if unit_items ts t = None then None else ulen t)"
| "field_serialized_length ts tlen ulen (Vector b f inner len) =
     (case field_default_length ts tlen (Vector b f inner len) of
        None \<Rightarrow> None
      | Some (Some e) \<Rightarrow> Some (Some e)
      | Some None \<Rightarrow>
          (case field_serialized_length ts tlen ulen inner of
             None \<Rightarrow> None
           | Some None \<Rightarrow> Some None
           | Some (Some f_len) \<Rightarrow> Some (Some (EOperator op_Mult [len, f_len]))))"
| "field_serialized_length ts tlen ulen i = field_default_length ts tlen i"

fun fields_serialized_length ::
    "type_store \<Rightarrow> (taddr \<Rightarrow> int option) \<Rightarrow> (taddr \<Rightarrow> expr option option) \<Rightarrow> item list \<Rightarrow> expr option
     \<Rightarrow> expr option option" where
  "fields_serialized_length ts tlen ulen [] len = Some len"
| "fields_serialized_length ts tlen ulen (i # is) len =
     (if \<not> is_field i then fields_serialized_length ts tlen ulen is len
      else (case field_serialized_length ts tlen ulen i of
              None \<Rightarrow> None
            | Some None \<Rightarrow> Some None
            | Some (Some f_len) \<Rightarrow>
                fields_serialized_length ts tlen ulen is
                  (Some (case len of None \<Rightarrow> f_len | Some l \<Rightarrow> EOperator op_Plus [l, f_len]))))"

primrec unit_serialized_length :: "nat \<Rightarrow> type_store \<Rightarrow> taddr \<Rightarrow> expr option option" where
  "unit_serialized_length 0 ts t = None"
| "unit_serialized_length (Suc n) ts t =
     (case ts t of
        None \<Rightarrow> None
      | Some ob \<Rightarrow>
          (case ty_kind ob of
             TUnit ps is \<Rightarrow>
               if ty_wildcard ob then Some None
               else fields_serialized_length ts (type_static_length n ts) (unit_serialized_length n ts) is None
           | _ \<Rightarrow> None))"

definition static_serialized_length :: "nat \<Rightarrow> type_store \<Rightarrow> item \<Rightarrow> int option" where
  "static_serialized_length n ts i = field_static_length ts (type_static_length n ts) i"

definition serialized_length :: "nat \<Rightarrow> type_store \<Rightarrow> item \<Rightarrow> expr option option" where
  "serialized_length n ts i =
     field_serialized_length ts (type_static_length n ts) (unit_serialized_length n ts) i"

end
