(* ===== verification/Dep_Map.thy ===== *)
theory Dep_Map
  imports Dep_Closure Unit_Length
begin

text \<open>
  \<^verbatim>\<open>DependencyMapBuilder\<close> of
  \<^verbatim>\<open>generation/preprocessing/instantiation_dependency_resolver.cpp\<close>: the map of direct
  dependencies between the fields of a unit.

  The builder is a visitor with mutable members; they are the record \<open>builder\<close>, and each
  \<^verbatim>\<open>visit\<close> is a function on it.  A node's \<^verbatim>\<open>accept\<close> visits the base classes first, so an item is
  visited as \<^verbatim>\<open>Item\<close>, then as \<^verbatim>\<open>Field\<close>, then by its own class.  \<^const>\<open>None\<close> is a run that does not
  return: a null or past-the-end dereference, the top of an empty stack, or a recursion through
  unit types deeper than the fuel.  Log output has no effect on the result and is left out.
\<close>

record builder =
  db_map :: dependency_map
  db_from :: "ident list"
  db_tracking :: "ident list"
  db_unit :: ident
  db_dollar :: ident
  db_find_list :: "ident option"
  db_context :: nat

definition element_tracking_id :: ident where
  "element_tracking_id = [''[]'']"

definition ignore_attributes :: "string list" where
  "ignore_attributes = [''transform'', ''transform_to'']"

definition DependencyMapBuilder :: builder where
  "DependencyMapBuilder =
     \<lparr>db_map = [], db_from = [], db_tracking = [], db_unit = [], db_dollar = [], db_find_list = None,
      db_context = CONTEXT_PARSING AND CONTEXT_SERIALIZING\<rparr>"

section \<open>Helpers\<close>

fun add_context :: "dependency list \<Rightarrow> ident \<Rightarrow> nat \<Rightarrow> dependency list" where
  "add_context [] to ctx = [\<lparr>dep_id = to, dep_context = ctx\<rparr>]"
| "add_context (d # ds) to ctx =
     (if id_eq (dep_id d) to then d\<lparr>dep_context := dep_context d OR ctx\<rparr> # ds
      else d # add_context ds to ctx)"

fun map_update :: "string \<Rightarrow> 'v \<Rightarrow> (string \<times> 'v) list \<Rightarrow> (string \<times> 'v) list" where
  "map_update k v [] = [(k, v)]"
| "map_update k v ((k', v') # m) = (if k = k' then (k, v) # m else (k', v') # map_update k v m)"

definition addDependency :: "ident \<Rightarrow> ident \<Rightarrow> nat \<Rightarrow> builder \<Rightarrow> builder" where
  "addDependency from to ctx s =
     s\<lparr>db_map := map_update (pathAsString from) (add_context (dm_at (db_map s) from) to ctx) (db_map s)\<rparr>"

definition track :: "ident option \<Rightarrow> builder \<Rightarrow> builder option" where
  "track i s =
     (case i of
        None \<Rightarrow> Some s
      | Some path \<Rightarrow>
          if path = [] then Some s
          else (case db_tracking s of
                  [] \<Rightarrow> None
                | t # ts \<Rightarrow> Some (s\<lparr>db_tracking := addPath t path # ts\<rparr>)))"

definition trackElement :: "builder \<Rightarrow> builder option" where
  "trackElement s =
     (case db_tracking s of
        [] \<Rightarrow> None
      | t # ts \<Rightarrow> Some (s\<lparr>db_tracking := addPath t element_tracking_id # ts\<rparr>))"

definition pushTracking :: "builder \<Rightarrow> builder" where
  "pushTracking s = s\<lparr>db_tracking := [] # db_tracking s\<rparr>"

definition popTracking :: "builder \<Rightarrow> (ident \<times> builder) option" where
  "popTracking s =
     (case db_tracking s of
        [] \<Rightarrow> None
      | t # ts \<Rightarrow>
          let s' = s\<lparr>db_tracking := ts\<rparr>
          in Some (t, if t = [] then s'
                      else fold (\<lambda>from. addDependency from t (db_context s)) (db_from s) s'))"

definition pop_discard :: "builder \<Rightarrow> builder option" where
  "pop_discard s = map_option snd (popTracking s)"

section \<open>Expressions\<close>

definition op_serializing :: "builder \<Rightarrow> bool" where
  "op_serializing s \<longleftrightarrow> db_context s AND CONTEXT_SERIALIZING \<noteq> 0"

definition enter_update :: "builder \<Rightarrow> builder" where
  "enter_update s = pushTracking (s\<lparr>db_context := CONTEXT_SERIALIZING_UPDATE\<rparr>)"

definition leave_update :: "nat \<Rightarrow> builder \<Rightarrow> builder option" where
  "leave_update old_context s =
     map_option (\<lambda>s'. s'\<lparr>db_context := old_context\<rparr>) (pop_discard s)"

fun dep_expr :: "expr \<Rightarrow> builder \<Rightarrow> builder option"
and dep_operands :: "expr list \<Rightarrow> builder \<Rightarrow> builder option" where
  "dep_expr (EMemberAttribute a) s = (if db_from s = [] then Some s else track (Some a) s)"
| "dep_expr (EVariable i t init) s =
     (if db_from s = [] then Some s
      else do { s1 \<leftarrow> track (db_find_list s) s; trackElement s1 })"
| "dep_expr (EOperator kind ops) s =
     (if db_from s = [] then Some s
      else if kind \<in> {op_Attribute, op_Call, op_HasAttribute} then
        (case ops of
           a # b # _ \<Rightarrow> do { s1 \<leftarrow> dep_expr a s; dep_expr b s1 }
         | _ \<Rightarrow> None)
      else if kind = op_AttributeAssign then
        (if op_serializing s then
           (case ops of
              a # b # c # _ \<Rightarrow>
                do { s1 \<leftarrow> dep_expr a (enter_update s); s2 \<leftarrow> dep_expr b s1;
                     s3 \<leftarrow> leave_update (db_context s) s2; dep_expr c s3 }
            | _ \<Rightarrow> None)
         else (case ops of a # _ \<Rightarrow> dep_expr a s | _ \<Rightarrow> None))
      else if kind = op_Index then
        (case ops of
           a # b # _ \<Rightarrow>
             do { s1 \<leftarrow> dep_expr a s; s2 \<leftarrow> trackElement s1; s3 \<leftarrow> dep_expr b (pushTracking s2);
                  pop_discard s3 }
         | _ \<Rightarrow> None)
      else if kind = op_IndexAssign then
        (if op_serializing s then
           (case ops of
              a # b # c # _ \<Rightarrow>
                do { s1 \<leftarrow> dep_expr a (enter_update s); s2 \<leftarrow> trackElement s1;
                     s3 \<leftarrow> leave_update (db_context s) s2; dep_expr c s3 }
            | _ \<Rightarrow> None)
         else (case ops of a # b # _ \<Rightarrow> dep_expr b s | _ \<Rightarrow> None))
      else if kind = op_MethodCall then
        (case ops of
           a # b # c # _ \<Rightarrow> do { s1 \<leftarrow> dep_expr a s; dep_expr c s1 }
         | _ \<Rightarrow> None)
      else if kind \<in> {op_MinusAssign, op_PlusAssign} then
        (if op_serializing s then
           (case ops of
              a # b # _ \<Rightarrow>
                do { s1 \<leftarrow> dep_expr a (enter_update s); s2 \<leftarrow> leave_update (db_context s) s1;
                     dep_expr b s2 }
            | _ \<Rightarrow> None)
         else (case ops of a # _ \<Rightarrow> dep_expr a s | _ \<Rightarrow> None))
      else dep_operands ops s)"
| "dep_expr (EFind l ci ce fi fe nf) s =
     (if db_from s = [] then Some s
      else do {
        s1 \<leftarrow> dep_expr l (pushTracking s);
        (i, s2) \<leftarrow> popTracking s1;
        let s3 = s2\<lparr>db_find_list := Some i\<rparr>;
        s4 \<leftarrow> (if db_from s3 = [] then Some (pushTracking s3) else dep_expr ce (pushTracking s3));
        s5 \<leftarrow> pop_discard s4;
        s6 \<leftarrow> (if db_from s5 = [] then Some (pushTracking s5) else dep_expr fe (pushTracking s5));
        s7 \<leftarrow> pop_discard s6;
        pop_discard (pushTracking s7) })"
| "dep_expr (EConditional c t e) s =
     (if db_from s = [] then Some s
      else do {
        s1 \<leftarrow> dep_expr c (pushTracking s);
        s2 \<leftarrow> pop_discard s1;
        s3 \<leftarrow> dep_expr t (pushTracking s2);
        s4 \<leftarrow> pop_discard s3;
        (case e of
           None \<Rightarrow> Some s4
         | Some f \<Rightarrow> do { s5 \<leftarrow> dep_expr f (pushTracking s4); pop_discard s5 }) })"
| "dep_expr (ELambda i e) s = (if db_from s = [] then Some s else dep_expr e s)"
| "dep_expr (EParserState kind i u t) s =
     (if db_from s = [] then Some s
      else (case kind of
              SELF \<Rightarrow> track (Some (db_unit s)) s
            | DOLLARDOLLAR \<Rightarrow> track (Some (db_dollar s)) s
            | PARAMETER \<Rightarrow> Some s))"
| "dep_expr _ s = Some s"
| "dep_operands [] s = Some s"
| "dep_operands (e # es) s =
     do { s1 \<leftarrow> dep_expr e (pushTracking s); s2 \<leftarrow> pop_discard s1; dep_operands es s2 }"

definition dep_tracked :: "expr \<Rightarrow> builder \<Rightarrow> builder option" where
  "dep_tracked e s = do { s1 \<leftarrow> dep_expr e (pushTracking s); pop_discard s1 }"

section \<open>Items\<close>

definition attribute_context :: "string \<Rightarrow> nat" where
  "attribute_context key =
     (if key = ''parse'' then CONTEXT_PARSING
      else if key = ''serialize'' then CONTEXT_SERIALIZING
      else if key = ''length'' then CONTEXT_PARSING OR CONTEXT_SERIALIZING_UPDATE
      else CONTEXT_PARSING OR CONTEXT_SERIALIZING)"

definition dep_attribute :: "attribute \<Rightarrow> builder \<Rightarrow> builder option" where
  "dep_attribute a s =
     (if attr_key a \<in> set ignore_attributes then Some s
      else do {
        let s1 = (if attr_key a = ''length'' then s\<lparr>db_from := db_from s @ [length_tracking_id]\<rparr> else s);
        let s2 = s1\<lparr>db_context := attribute_context (attr_key a)\<rparr>;
        s3 \<leftarrow> (case attr_value a of None \<Rightarrow> Some s2 | Some e \<Rightarrow> dep_tracked e s2);
        Some (if attr_key a = ''length'' then s3\<lparr>db_from := butlast (db_from s3)\<rparr> else s3) })"

fun dep_attributes :: "attribute list \<Rightarrow> builder \<Rightarrow> builder option" where
  "dep_attributes [] s = Some s"
| "dep_attributes (a # as) s = do { s1 \<leftarrow> dep_attribute a s; dep_attributes as s1 }"

definition dep_base :: "item_base \<Rightarrow> builder \<Rightarrow> builder option" where
  "dep_base b s =
     map_option (\<lambda>s'. s'\<lparr>db_context := CONTEXT_PARSING OR CONTEXT_SERIALIZING\<rparr>)
       (dep_attributes (it_attributes b) s)"

definition dep_field :: "item_base \<Rightarrow> field_base \<Rightarrow> builder \<Rightarrow> builder option" where
  "dep_field b f s =
     do { s1 \<leftarrow> dep_base b s;
          (case fd_condition f of None \<Rightarrow> Some s1 | Some c \<Rightarrow> dep_tracked c s1) }"

fun dep_parameters :: "expr list \<Rightarrow> builder \<Rightarrow> builder option" where
  "dep_parameters [] s = Some s"
| "dep_parameters (p # ps) s = do { s1 \<leftarrow> dep_tracked p s; dep_parameters ps s1 }"

definition dep_switch_head :: "int \<Rightarrow> expr option \<Rightarrow> builder \<Rightarrow> builder option" where
  "dep_switch_head len e s =
     do { s1 \<leftarrow> (if len < 0
                  then do { s' \<leftarrow> track (Some (db_dollar s))
                                   (pushTracking (s\<lparr>db_from := db_from s @ [length_tracking_id]\<rparr>));
                            pop_discard s' }
                  else Some s);
          (case e of None \<Rightarrow> Some s1 | Some x \<Rightarrow> dep_tracked x s1) }"

definition enter_element :: "builder \<Rightarrow> builder" where
  "enter_element s =
     (let d = combineIDs (db_dollar s) element_tracking_id
      in s\<lparr>db_dollar := d, db_from := db_from s @ [d]\<rparr>)"

definition enter_case_item :: "item \<Rightarrow> ident \<Rightarrow> builder \<Rightarrow> builder" where
  "enter_case_item i switch_id s =
     (let d = combineIDs (db_unit s) (item_id i)
      in addDependency d switch_id (CONTEXT_PARSING OR CONTEXT_SERIALIZING)
           (s\<lparr>db_dollar := d, db_from := [d]\<rparr>))"

text \<open>\<open>slen\<close> is the static length of a switch field and \<open>dunit\<close> the visit of a type node.\<close>

fun dep_item ::
    "(item \<Rightarrow> int option) \<Rightarrow> (taddr \<Rightarrow> builder \<Rightarrow> builder option) \<Rightarrow> item \<Rightarrow> builder \<Rightarrow> builder option"
and dep_case_items ::
    "(item \<Rightarrow> int option) \<Rightarrow> (taddr \<Rightarrow> builder \<Rightarrow> builder option) \<Rightarrow> ident \<Rightarrow> item list \<Rightarrow> builder
     \<Rightarrow> builder option"
and dep_cases ::
    "(item \<Rightarrow> int option) \<Rightarrow> (taddr \<Rightarrow> builder \<Rightarrow> builder option) \<Rightarrow> ident \<Rightarrow> switch_case list \<Rightarrow> builder
     \<Rightarrow> builder option" where
  "dep_item slen dunit (Variable b d) s = dep_base b s"
| "dep_item slen dunit (Property b p) s = dep_base b s"
| "dep_item slen dunit (AtomicType b f) s = dep_field b f s"
| "dep_item slen dunit (ConstantField b f c) s = dep_field b f s"
| "dep_item slen dunit (CtorField b f c) s = dep_field b f s"
| "dep_item slen dunit (UnknownField b f i) s = dep_field b f s"
| "dep_item slen dunit (UnitField b f) s =
     do { s1 \<leftarrow> dep_field b f s;
          s2 \<leftarrow> dep_parameters (fd_parameters f) s1;
          t \<leftarrow> it_type b;
          s3 \<leftarrow> dunit t (s2\<lparr>db_unit := db_dollar s2\<rparr>);
          Some (s3\<lparr>db_unit := db_unit s2\<rparr>) }"
| "dep_item slen dunit (Switch b f e cs) s =
     do { s1 \<leftarrow> dep_field b f s;
          len \<leftarrow> slen (Switch b f e cs);
          s2 \<leftarrow> dep_switch_head len e s1;
          dep_cases slen dunit (db_dollar s2) cs s2 }"
| "dep_item slen dunit (Vector b f inner len) s =
     do { s1 \<leftarrow> dep_field b f s;
          s2 \<leftarrow> dep_tracked len (s1\<lparr>db_context := CONTEXT_PARSING OR CONTEXT_SERIALIZING_UPDATE,
                                    db_from := db_from s1 @ [length_tracking_id]\<rparr>);
          dep_item slen dunit inner
            (enter_element (s2\<lparr>db_from := butlast (db_from s2),
                               db_context := CONTEXT_PARSING OR CONTEXT_SERIALIZING\<rparr>)) }"
| "dep_item slen dunit (ListField b f inner) s =
     do { s1 \<leftarrow> dep_field b f s; dep_item slen dunit inner (enter_element s1) }"
| "dep_case_items slen dunit switch_id [] s = Some s"
| "dep_case_items slen dunit switch_id (i # is) s =
     do { s1 \<leftarrow> dep_item slen dunit i (enter_case_item i switch_id s);
          dep_case_items slen dunit switch_id is s1 }"
| "dep_cases slen dunit switch_id [] s = Some s"
| "dep_cases slen dunit switch_id (Case es is d # cs) s =
     do { s1 \<leftarrow> dep_case_items slen dunit switch_id is s; dep_cases slen dunit switch_id cs s1 }"

fun dep_unit_items ::
    "(item \<Rightarrow> int option) \<Rightarrow> (taddr \<Rightarrow> builder \<Rightarrow> builder option) \<Rightarrow> item list \<Rightarrow> builder
     \<Rightarrow> builder option" where
  "dep_unit_items slen dunit [] s = Some s"
| "dep_unit_items slen dunit (i # is) s =
     do { let d = combineIDs (db_unit s) (item_id i);
          s1 \<leftarrow> dep_item slen dunit i (s\<lparr>db_dollar := d, db_from := db_from s @ [d]\<rparr>);
          dep_unit_items slen dunit is (s1\<lparr>db_from := []\<rparr>) }"

primrec dep_type :: "nat \<Rightarrow> type_store \<Rightarrow> taddr \<Rightarrow> builder \<Rightarrow> builder option" where
  "dep_type 0 ts t s = None"
| "dep_type (Suc n) ts t s =
     (case ts t of
        None \<Rightarrow> None
      | Some ob \<Rightarrow>
          (case ty_kind ob of
             TUnit ps is \<Rightarrow> dep_unit_items (static_serialized_length n ts) (dep_type n ts) is s
           | _ \<Rightarrow> Some s))"

definition dep_run :: "nat \<Rightarrow> type_store \<Rightarrow> taddr \<Rightarrow> dependency_map option" where
  "dep_run n ts t = map_option db_map (dep_type n ts t (DependencyMapBuilder\<lparr>db_unit := []\<rparr>))"

section \<open>What the visits keep\<close>

text \<open>\<open>keeps P s s'\<close>: a visit from \<open>s\<close> to \<open>s'\<close> leaves the visitor's cursor alone, works in the topmost
  tracking frame only, and preserves the property \<open>P\<close> of the map.\<close>

definition keeps :: "(dependency_map \<Rightarrow> bool) \<Rightarrow> builder \<Rightarrow> builder \<Rightarrow> bool" where
  "keeps P s s' \<longleftrightarrow> db_from s' = db_from s \<and> db_unit s' = db_unit s \<and> db_dollar s' = db_dollar s
     \<and> db_context s' = db_context s \<and> tl (db_tracking s') = tl (db_tracking s)
     \<and> (db_tracking s' = [] \<longleftrightarrow> db_tracking s = []) \<and> (P (db_map s) \<longrightarrow> P (db_map s'))"

definition map_keeps :: "(dependency_map \<Rightarrow> bool) \<Rightarrow> builder \<Rightarrow> builder \<Rightarrow> bool" where
  "map_keeps P s s' \<longleftrightarrow> db_unit s' = db_unit s \<and> (P (db_map s) \<longrightarrow> P (db_map s'))"

definition dm_has :: "dependency_map \<Rightarrow> string \<Rightarrow> string \<Rightarrow> nat \<Rightarrow> bool" where
  "dm_has m k p b \<longleftrightarrow> (case map_of m k of None \<Rightarrow> False | Some ds \<Rightarrow> has_bit ds p b)"

lemma keeps_refl [simp]: "keeps P s s"
  by (simp add: keeps_def)

lemma keeps_trans: "keeps P s t \<Longrightarrow> keeps P t u \<Longrightarrow> keeps P s u"
  by (simp add: keeps_def)

lemma map_keeps_refl [simp]: "map_keeps P s s"
  by (simp add: map_keeps_def)

lemma map_keeps_trans: "map_keeps P s t \<Longrightarrow> map_keeps P t u \<Longrightarrow> map_keeps P s u"
  by (simp add: map_keeps_def)

lemma map_of_map_update [simp]: "map_of (map_update k v m) = (map_of m)(k \<mapsto> v)"
  by (induction k v m rule: map_update.induct) auto

lemma add_context_has_bit [simp]:
  "has_bit (add_context ds i c) p b \<longleftrightarrow> has_bit ds p b \<or> (pathAsString i = p \<and> bit c b)"
  by (induction ds i c rule: add_context.induct) (auto simp: id_eq_def bit_or_iff)

lemma addDependency_has:
  "dm_has (db_map (addDependency f i c s)) k p b \<longleftrightarrow>
     dm_has (db_map s) k p b \<or> (k = pathAsString f \<and> pathAsString i = p \<and> bit c b)"
  by (auto simp: addDependency_def dm_has_def dm_at_def split: option.splits)

lemma addDependency_fields [simp]:
  "db_from (addDependency f i c s) = db_from s" "db_unit (addDependency f i c s) = db_unit s"
  "db_dollar (addDependency f i c s) = db_dollar s" "db_context (addDependency f i c s) = db_context s"
  "db_tracking (addDependency f i c s) = db_tracking s" "db_find_list (addDependency f i c s) = db_find_list s"
  by (simp_all add: addDependency_def)

lemma fold_addDependency_fields [simp]:
  "db_from (fold (\<lambda>f. addDependency f i c) fs s) = db_from s"
  "db_unit (fold (\<lambda>f. addDependency f i c) fs s) = db_unit s"
  "db_dollar (fold (\<lambda>f. addDependency f i c) fs s) = db_dollar s"
  "db_context (fold (\<lambda>f. addDependency f i c) fs s) = db_context s"
  "db_tracking (fold (\<lambda>f. addDependency f i c) fs s) = db_tracking s"
  "db_find_list (fold (\<lambda>f. addDependency f i c) fs s) = db_find_list s"
  by (induction fs arbitrary: s) simp_all

locale map_invariant =
  fixes P :: "dependency_map \<Rightarrow> bool"
  assumes P_add: "P (db_map s) \<Longrightarrow> P (db_map (addDependency f i c s))"
begin

lemma P_fold: "P (db_map s) \<Longrightarrow> P (db_map (fold (\<lambda>f. addDependency f i c) fs s))"
  by (induction fs arbitrary: s) (simp_all add: P_add)

lemma keeps_track: "track i s = Some s' \<Longrightarrow> keeps P s s'"
  by (auto simp: track_def keeps_def split: option.splits if_splits list.splits)

lemma keeps_trackElement: "trackElement s = Some s' \<Longrightarrow> keeps P s s'"
  by (auto simp: trackElement_def keeps_def split: list.splits)

lemma keeps_pop: "keeps P (pushTracking s) s1 \<Longrightarrow> popTracking s1 = Some (i, s2) \<Longrightarrow> keeps P s s2"
  by (auto simp: popTracking_def pushTracking_def keeps_def Let_def P_fold split: list.splits if_splits)

lemma keeps_pop_discard: "keeps P (pushTracking s) s1 \<Longrightarrow> pop_discard s1 = Some s2 \<Longrightarrow> keeps P s s2"
  by (auto simp: pop_discard_def dest: keeps_pop)

lemma keeps_update:
  assumes "keeps P (enter_update s) s1" "leave_update (db_context s) s1 = Some s2"
  shows "keeps P s s2"
proof -
  obtain s3 where s3: "pop_discard s1 = Some s3" "s2 = s3\<lparr>db_context := db_context s\<rparr>"
    using assms(2) by (auto simp: leave_update_def)
  have "keeps P (s\<lparr>db_context := CONTEXT_SERIALIZING_UPDATE\<rparr>) s3"
    using keeps_pop_discard assms(1) s3(1) by (simp add: enter_update_def)
  then show ?thesis by (simp add: s3(2) keeps_def)
qed

lemma keeps_operands:
  assumes "\<And>e s s'. e \<in> set es \<Longrightarrow> dep_expr e s = Some s' \<Longrightarrow> keeps P s s'"
  shows "dep_operands es s = Some s' \<Longrightarrow> keeps P s s'"
  using assms
proof (induction es arbitrary: s)
  case (Cons e es)
  from Cons.prems(1) obtain s1 s2 where r: "dep_expr e (pushTracking s) = Some s1"
      "pop_discard s1 = Some s2" "dep_operands es s2 = Some s'"
    by (auto simp: bind_eq_Some_conv)
  have "keeps P s s2" using Cons.prems(2)[OF _ r(1)] r(2) by (simp add: keeps_pop_discard)
  moreover have "keeps P s2 s'" by (rule Cons.IH[OF r(3) Cons.prems(2)]) simp_all
  ultimately show ?case by (rule keeps_trans)
qed simp

lemma keeps_operator:
  assumes IH: "\<And>e s s'. e \<in> set ops \<Longrightarrow> dep_expr e s = Some s' \<Longrightarrow> keeps P s s'"
  shows "dep_expr (EOperator kind ops) s = Some s' \<Longrightarrow> keeps P s s'"
proof -
  assume run: "dep_expr (EOperator kind ops) s = Some s'"
  show ?thesis
  proof (cases "db_from s = []")
    case False
    consider (pair) "kind \<in> {op_Attribute, op_Call, op_HasAttribute}" | (attr) "kind = op_AttributeAssign"
      | (index) "kind = op_Index" | (iassign) "kind = op_IndexAssign" | (meth) "kind = op_MethodCall"
      | (assign) "kind \<in> {op_MinusAssign, op_PlusAssign}"
      | (other) "kind \<notin> {op_Attribute, op_Call, op_HasAttribute, op_AttributeAssign, op_Index,
          op_IndexAssign, op_MethodCall, op_MinusAssign, op_PlusAssign}"
      by blast
    then show ?thesis
    proof cases
      case pair
      then obtain a b r s1 where "ops = a # b # r" "dep_expr a s = Some s1" "dep_expr b s1 = Some s'"
        using run False by (auto simp: bind_eq_Some_conv split: list.splits)
      then show ?thesis using IH by (meson keeps_trans list.set_intros)
    next
      case attr
      show ?thesis
      proof (cases "op_serializing s")
        case True
        then obtain a b c r s1 s2 s3 where ops: "ops = a # b # c # r"
          and r: "dep_expr a (enter_update s) = Some s1" "dep_expr b s1 = Some s2"
            "leave_update (db_context s) s2 = Some s3" "dep_expr c s3 = Some s'"
          using run False attr by (auto simp: bind_eq_Some_conv split: list.splits)
        have "keeps P (enter_update s) s2" using IH r(1,2) ops by (meson keeps_trans list.set_intros)
        then show ?thesis using keeps_update[OF _ r(3)] IH[OF _ r(4)] ops by (auto intro: keeps_trans)
      next
        case f: False
        then obtain a r where "ops = a # r" "dep_expr a s = Some s'"
          using run False attr by (auto split: list.splits)
        then show ?thesis using IH[of a] by simp
      qed
    next
      case index
      then obtain a b r s1 s2 s3 where ops: "ops = a # b # r"
        and r: "dep_expr a s = Some s1" "trackElement s1 = Some s2" "dep_expr b (pushTracking s2) = Some s3"
          "pop_discard s3 = Some s'"
        using run False by (auto simp: bind_eq_Some_conv split: list.splits)
      have "keeps P s s2" using IH[OF _ r(1)] keeps_trackElement[OF r(2)] ops by (auto intro: keeps_trans)
      then show ?thesis using keeps_pop_discard[OF _ r(4)] IH[OF _ r(3)] ops by (auto intro: keeps_trans)
    next
      case iassign
      show ?thesis
      proof (cases "op_serializing s")
        case True
        then obtain a b c r s1 s2 s3 where ops: "ops = a # b # c # r"
          and r: "dep_expr a (enter_update s) = Some s1" "trackElement s1 = Some s2"
            "leave_update (db_context s) s2 = Some s3" "dep_expr c s3 = Some s'"
          using run False iassign by (auto simp: bind_eq_Some_conv split: list.splits)
        have "keeps P (enter_update s) s2"
          using IH[OF _ r(1)] keeps_trackElement[OF r(2)] ops by (auto intro: keeps_trans)
        then show ?thesis using keeps_update[OF _ r(3)] IH[OF _ r(4)] ops by (auto intro: keeps_trans)
      next
        case f: False
        then obtain a b r where "ops = a # b # r" "dep_expr b s = Some s'"
          using run False iassign by (auto split: list.splits)
        then show ?thesis using IH[of b] by simp
      qed
    next
      case meth
      then obtain a b c r s1 where "ops = a # b # c # r" "dep_expr a s = Some s1" "dep_expr c s1 = Some s'"
        using run False by (auto simp: bind_eq_Some_conv split: list.splits)
      then show ?thesis using IH by (meson keeps_trans list.set_intros)
    next
      case assign
      show ?thesis
      proof (cases "op_serializing s")
        case True
        then obtain a b r s1 s2 where ops: "ops = a # b # r"
          and r: "dep_expr a (enter_update s) = Some s1" "leave_update (db_context s) s1 = Some s2"
            "dep_expr b s2 = Some s'"
          using run False assign by (auto simp: bind_eq_Some_conv split: list.splits)
        then show ?thesis using keeps_update[OF _ r(2)] IH[OF _ r(1)] IH[OF _ r(3)] by (auto intro: keeps_trans)
      next
        case f: False
        then obtain a r where "ops = a # r" "dep_expr a s = Some s'"
          using run False assign by (auto split: list.splits)
        then show ?thesis using IH[of a] by simp
      qed
    next
      case other
      then have "dep_operands ops s = Some s'" using run False by simp
      then show ?thesis using keeps_operands IH by blast
    qed
  qed (use run in simp)
qed

lemma keeps_expr: "dep_expr e s = Some s' \<Longrightarrow> keeps P s s'"
proof (induction e arbitrary: s s' rule: measure_induct_rule[where f = size])
  case (less e)
  note IH = less.IH
  show ?case
  proof (cases "db_from s = []")
    case True
    then show ?thesis using less.prems by (cases e) simp_all
  next
    case ne: False
    show ?thesis
    proof (cases e)
      case (EOperator kind ops)
      have small: "size x < size e" if "x \<in> set ops" for x
        using size_list_estimation'[OF that order_refl, of size] EOperator by simp
      show ?thesis
        by (rule keeps_operator[OF IH[OF small] less.prems[unfolded EOperator]])
    next
      case (EFind l ci ce fi fe nf)
      then obtain s1 i s2 s4 s5 s6 s7 where r: "dep_expr l (pushTracking s) = Some s1"
          "popTracking s1 = Some (i, s2)"
          "(if db_from s2 = [] then Some (pushTracking (s2\<lparr>db_find_list := Some i\<rparr>))
            else dep_expr ce (pushTracking (s2\<lparr>db_find_list := Some i\<rparr>))) = Some s4"
          "pop_discard s4 = Some s5"
          "(if db_from s5 = [] then Some (pushTracking s5) else dep_expr fe (pushTracking s5)) = Some s6"
          "pop_discard s6 = Some s7" "pop_discard (pushTracking s7) = Some s'"
        using less.prems ne by (auto simp: bind_eq_Some_conv Let_def)
      have "keeps P (pushTracking s) s1" using IH[OF _ r(1)] EFind by simp
      then have "keeps P s s2" using keeps_pop r(2) by blast
      moreover have "keeps P s2 (s2\<lparr>db_find_list := Some i\<rparr>)" by (simp add: keeps_def)
      moreover have "keeps P (pushTracking (s2\<lparr>db_find_list := Some i\<rparr>)) s4"
        using r(3) IH[of ce] EFind by (auto split: if_splits)
      moreover have "keeps P (pushTracking s5) s6" using r(5) IH[of fe] EFind by (auto split: if_splits)
      ultimately show ?thesis
        using keeps_pop_discard r(4,6,7) by (meson keeps_refl keeps_trans)
    next
      case (EConditional c t f)
      then obtain s1 s2 s3 s4 where r: "dep_expr c (pushTracking s) = Some s1" "pop_discard s1 = Some s2"
          "dep_expr t (pushTracking s2) = Some s3" "pop_discard s3 = Some s4"
          "(case f of None \<Rightarrow> Some s4 | Some x \<Rightarrow> dep_expr x (pushTracking s4) \<bind> pop_discard) = Some s'"
        using less.prems ne by (auto simp: bind_eq_Some_conv)
      have "keeps P s s4"
        using keeps_trans[OF keeps_pop_discard[OF IH[OF _ r(1)] r(2)] keeps_pop_discard[OF IH[OF _ r(3)] r(4)]]
          EConditional by simp
      moreover have "keeps P s4 s'"
      proof (cases f)
        case (Some x)
        then show ?thesis using r(5) IH[of x "pushTracking s4"] EConditional keeps_pop_discard
          by (auto simp: bind_eq_Some_conv)
      qed (use r(5) in simp)
      ultimately show ?thesis by (rule keeps_trans)
    next
      case (ELambda i x)
      then show ?thesis using less.prems ne IH[of x] by simp
    next
      case (EVariable i t x)
      then obtain y where "track (db_find_list s) s = Some y" "trackElement y = Some s'"
        using less.prems ne by (auto simp: bind_eq_Some_conv)
      then show ?thesis by (rule keeps_trans[OF keeps_track keeps_trackElement])
    qed (use less.prems ne keeps_track in \<open>auto split: parser_state_kind.splits\<close>)
  qed
qed

lemma keeps_tracked: "dep_tracked e s = Some s' \<Longrightarrow> keeps P s s'"
  unfolding dep_tracked_def bind_eq_Some_conv using keeps_expr keeps_pop_discard by blast

lemma keeps_attribute: "dep_attribute a s = Some s' \<Longrightarrow>
    db_unit s' = db_unit s \<and> db_from s' = db_from s \<and> db_dollar s' = db_dollar s \<and> (P (db_map s) \<longrightarrow> P (db_map s'))"
  by (auto simp: dep_attribute_def bind_eq_Some_conv Let_def keeps_def
      split: if_splits option.splits dest!: keeps_tracked)

lemma keeps_attributes: "dep_attributes as s = Some s' \<Longrightarrow>
    db_unit s' = db_unit s \<and> db_from s' = db_from s \<and> db_dollar s' = db_dollar s \<and> (P (db_map s) \<longrightarrow> P (db_map s'))"
  by (induction as arbitrary: s) (auto simp: bind_eq_Some_conv dest!: keeps_attribute)

lemma keeps_base: "dep_base b s = Some s' \<Longrightarrow>
    db_unit s' = db_unit s \<and> db_from s' = db_from s \<and> db_dollar s' = db_dollar s \<and> (P (db_map s) \<longrightarrow> P (db_map s'))"
  by (auto simp: dep_base_def dest!: keeps_attributes)

lemma keeps_field: "dep_field b f s = Some s' \<Longrightarrow>
    db_unit s' = db_unit s \<and> db_from s' = db_from s \<and> db_dollar s' = db_dollar s \<and> (P (db_map s) \<longrightarrow> P (db_map s'))"
  by (auto simp: dep_field_def bind_eq_Some_conv keeps_def split: option.splits
      dest!: keeps_base keeps_tracked)

lemma keeps_parameters: "dep_parameters ps s = Some s' \<Longrightarrow>
    db_unit s' = db_unit s \<and> (P (db_map s) \<longrightarrow> P (db_map s'))"
  by (induction ps arbitrary: s) (auto simp: bind_eq_Some_conv keeps_def dest!: keeps_tracked)

lemma keeps_switch_head: "dep_switch_head len e s = Some s' \<Longrightarrow>
    db_unit s' = db_unit s \<and> (P (db_map s) \<longrightarrow> P (db_map s'))"
proof -
  assume "dep_switch_head len e s = Some s'"
  then obtain s1 where s1: "(if len < 0
        then track (Some (db_dollar s)) (pushTracking (s\<lparr>db_from := db_from s @ [length_tracking_id]\<rparr>))
               \<bind> pop_discard
        else Some s) = Some s1" "(case e of None \<Rightarrow> Some s1 | Some x \<Rightarrow> dep_tracked x s1) = Some s'"
    by (auto simp: dep_switch_head_def bind_eq_Some_conv)
  have "keeps P (s\<lparr>db_from := db_from s1\<rparr>) s1"
  proof (cases "len < 0")
    case True
    then obtain s2 where "track (Some (db_dollar s)) (pushTracking (s\<lparr>db_from := db_from s @ [length_tracking_id]\<rparr>)) = Some s2"
        "pop_discard s2 = Some s1" using s1(1) by (auto simp: bind_eq_Some_conv)
    then have "keeps P (s\<lparr>db_from := db_from s @ [length_tracking_id]\<rparr>) s1"
      using keeps_track keeps_pop_discard by blast
    then show ?thesis by (simp add: keeps_def)
  qed (use s1(1) in simp)
  moreover have "keeps P s1 s'" using s1(2) keeps_tracked by (auto split: option.splits)
  ultimately show ?thesis by (simp add: keeps_def)
qed

lemma keeps_item:
  assumes "\<And>t s s'. dunit t s = Some s' \<Longrightarrow> map_keeps P s s'"
  shows "dep_item slen dunit i s = Some s' \<Longrightarrow> map_keeps P s s'"
    and "dep_case_items slen dunit sw is s = Some s' \<Longrightarrow> map_keeps P s s'"
    and "dep_cases slen dunit sw cs s = Some s' \<Longrightarrow> map_keeps P s s'"
  using assms
proof (induction slen dunit i s and slen dunit sw "is" s and slen dunit sw cs s
    arbitrary: s' and s' and s' rule: dep_item_dep_case_items_dep_cases.induct)
  case (7 slen dunit b f s)
  from 7(1) obtain s1 s2 t s3 where "dep_field b f s = Some s1" "dep_parameters (fd_parameters f) s1 = Some s2"
      "dunit t (s2\<lparr>db_unit := db_dollar s2\<rparr>) = Some s3" "s' = s3\<lparr>db_unit := db_unit s2\<rparr>"
    by (auto simp: bind_eq_Some_conv)
  then show ?case using 7(2) unfolding map_keeps_def by (fastforce dest: keeps_field keeps_parameters)
next
  case (8 slen dunit b f e cs s)
  from 8(2) obtain s1 len s2 where r: "dep_field b f s = Some s1" "slen (Switch b f e cs) = Some len"
      "dep_switch_head len e s1 = Some s2" "dep_cases slen dunit (db_dollar s2) cs s2 = Some s'"
    by (auto simp: bind_eq_Some_conv)
  then show ?case
    using 8(1)[OF r 8(3)] keeps_field[OF r(1)] keeps_switch_head[OF r(3)] by (simp add: map_keeps_def)
next
  case (9 slen dunit b f inner len s)
  from 9(2) obtain s1 s2 where r: "dep_field b f s = Some s1"
      "dep_tracked len (s1\<lparr>db_context := CONTEXT_PARSING OR CONTEXT_SERIALIZING_UPDATE,
         db_from := db_from s1 @ [length_tracking_id]\<rparr>) = Some s2"
      "dep_item slen dunit inner (enter_element (s2\<lparr>db_from := butlast (db_from s2),
         db_context := CONTEXT_PARSING OR CONTEXT_SERIALIZING\<rparr>)) = Some s'"
    by (auto simp: bind_eq_Some_conv)
  then show ?case
    using 9(1)[OF r 9(3)] keeps_field[OF r(1)] keeps_tracked[OF r(2)]
    by (simp add: map_keeps_def keeps_def enter_element_def Let_def)
next
  case (10 slen dunit b f inner s)
  from 10(2) obtain s1 where r: "dep_field b f s = Some s1"
      "dep_item slen dunit inner (enter_element s1) = Some s'"
    by (auto simp: bind_eq_Some_conv)
  then show ?case
    using 10(1)[OF r 10(3)] keeps_field[OF r(1)] by (simp add: map_keeps_def enter_element_def Let_def)
next
  case (12 slen dunit sw i "is" s)
  from 12(3) obtain s1 where r: "dep_item slen dunit i (enter_case_item i sw s) = Some s1"
      "dep_case_items slen dunit sw is s1 = Some s'"
    by (auto simp: bind_eq_Some_conv)
  have "map_keeps P s (enter_case_item i sw s)"
    using P_add[of "s\<lparr>db_dollar := d, db_from := fr\<rparr>" for d fr]
    by (simp add: map_keeps_def enter_case_item_def Let_def)
  then show ?case using 12(1)[OF r(1) 12(4)] 12(2)[OF r 12(4)] by (meson map_keeps_trans)
next
  case (14 slen dunit sw es "is" d cs s)
  from 14(3) obtain s1 where r: "dep_case_items slen dunit sw is s = Some s1"
      "dep_cases slen dunit sw cs s1 = Some s'"
    by (auto simp: bind_eq_Some_conv)
  then show ?case using 14(1)[OF r(1) 14(4)] 14(2)[OF r 14(4)] by (meson map_keeps_trans)
qed (auto simp: map_keeps_def dest: keeps_base keeps_field)

lemma keeps_unit_items:
  assumes "\<And>t s s'. dunit t s = Some s' \<Longrightarrow> map_keeps P s s'"
  shows "dep_unit_items slen dunit is s = Some s' \<Longrightarrow> map_keeps P s s'"
proof (induction "is" arbitrary: s)
  case (Cons i "is")
  from Cons.prems obtain s1 where
      "dep_item slen dunit i (s\<lparr>db_dollar := combineIDs (db_unit s) (item_id i),
         db_from := db_from s @ [combineIDs (db_unit s) (item_id i)]\<rparr>) = Some s1"
      "dep_unit_items slen dunit is (s1\<lparr>db_from := []\<rparr>) = Some s'"
    by (auto simp: bind_eq_Some_conv Let_def)
  then show ?case using Cons.IH keeps_item(1)[OF assms] by (fastforce simp: map_keeps_def)
qed simp

lemma keeps_type: "dep_type n ts t s = Some s' \<Longrightarrow> map_keeps P s s'"
proof (induction n arbitrary: t s s')
  case (Suc n)
  then show ?case
    using keeps_unit_items[of "dep_type n ts"] by (auto split: option.splits type_kind.splits)
qed simp

end

text \<open>Recorded dependencies are never lost: the visits only add flags.\<close>

interpretation has_dep: map_invariant "\<lambda>m. dm_has m k p b" for k p b
  by unfold_locales (simp add: addDependency_has)

end
