(* ===== verification/Samples.thy ===== *)
theory Samples
  imports Unit_Length
begin

text \<open>
  A small specification on which the properties of the generation passes are evaluated:

  \<^verbatim>\<open>type Message = unit { len : uint16; tag : uint8; body : bytes &length = self.len; };\<close>

  and a unit that contains itself.  Types: 0 is \<^verbatim>\<open>uint16\<close>, 1 is \<^verbatim>\<open>uint8\<close>, 2 is \<^verbatim>\<open>bytes\<close>, 3 is the unit
  \<^verbatim>\<open>Message\<close>, 4 is the unit that contains itself, 5 is a unit with a \<^verbatim>\<open>Message\<close> inside.
\<close>

definition plain_base :: "string \<Rightarrow> taddr \<Rightarrow> taddr \<Rightarrow> attribute list \<Rightarrow> item_base" where
  "plain_base name t u as =
     \<lparr>it_id = [name], it_anonymous = False, it_parsing_only = False, it_app_accessible = True,
      it_type = Some t, it_serialized_type = None, it_attributes = as, it_unit = Some u\<rparr>"

definition plain_field :: field_base where
  "plain_field = \<lparr>fd_condition = None, fd_parameters = [], fd_sinks = []\<rparr>"

definition self_member :: "taddr \<Rightarrow> string \<Rightarrow> expr" where
  "self_member u name =
     EOperator op_Attribute [EParserState SELF None (Some u) (Some u), EMemberAttribute [name]]"

definition message_items :: "item list" where
  "message_items =
     [AtomicType (plain_base ''len'' 0 3 []) plain_field,
      AtomicType (plain_base ''tag'' 1 3 []) plain_field,
      AtomicType (plain_base ''body'' 2 3 [Attr ''length'' (Some (self_member 3 ''len'')) False]) plain_field]"

definition plain_type :: "type_kind \<Rightarrow> ident option \<Rightarrow> type_obj" where
  "plain_type k i = \<lparr>ty_kind = k, ty_id = i, ty_wildcard = False\<rparr>"

definition sample_types :: type_store where
  "sample_types t =
     (if t = 0 then Some (plain_type (TInteger 16 False) None)
      else if t = 1 then Some (plain_type (TInteger 8 False) None)
      else if t = 2 then Some (plain_type TBytes None)
      else if t = 3 then Some (plain_type (TUnit [] message_items) (Some [''Message'']))
      else if t = 4 then Some (plain_type (TUnit [] [UnitField (plain_base ''next'' 4 4 []) plain_field]) (Some [''Chain'']))
      else if t = 5 then Some (plain_type (TUnit [] [UnitField (plain_base ''msg'' 3 5 []) plain_field]) (Some [''Packet'']))
      else None)"

lemmas sample_defs = sample_types_def plain_type_def message_items_def self_member_def plain_field_def plain_base_def

end
