(* ===== verification/Dep_Retain.thy ===== *)
theory Dep_Retain
  imports Dep_Map Samples
begin

text \<open>
  What the dependency map records, against a reference: \<open>refs\<close> computes the paths an expression
  mentions directly from its syntax, without the visitor's stack, those in the arguments of calls
  included.  The two agree on every well-formed expression that neither assigns nor searches a list and
  passes no arguments; the elements of a tuple constant, which is what the arguments of a call are, are
  never tracked (\<open>dep_tracked_refs\<close>).  Together with
  the exactness of the resolver this gives the property the generated parsers depend on: every field
  a length expression mentions is kept for parsing.
\<close>

fun refs :: "ident \<Rightarrow> ident \<Rightarrow> expr \<Rightarrow> (ident \<times> ident list) option"
and refs_list :: "ident \<Rightarrow> ident \<Rightarrow> expr list \<Rightarrow> ident list option" where
  "refs u d (EMemberAttribute a) = Some (a, [])"
| "refs u d (EParserState kind i ut t) =
     Some (case kind of SELF \<Rightarrow> u | DOLLARDOLLAR \<Rightarrow> d | PARAMETER \<Rightarrow> [], [])"
| "refs u d (EOperator kind ops) =
     (if kind \<in> {op_Attribute, op_Call, op_HasAttribute} then
        (case ops of
           [a, b] \<Rightarrow> do { (p, ps) \<leftarrow> refs u d a; (q, qs) \<leftarrow> refs u d b; Some (p @ q, ps @ qs) }
         | _ \<Rightarrow> None)
      else if kind = op_Index then
        (case ops of
           [a, b] \<Rightarrow> do { (p, ps) \<leftarrow> refs u d a; (q, qs) \<leftarrow> refs u d b;
                           Some (p @ element_tracking_id, ps @ qs @ [q]) }
         | _ \<Rightarrow> None)
      else if kind = op_MethodCall then
        (case ops of
           [a, b, c] \<Rightarrow> do { (p, ps) \<leftarrow> refs u d a; (q, qs) \<leftarrow> refs u d c; Some (p @ q, ps @ qs) }
         | _ \<Rightarrow> None)
      else if kind \<in> {op_AttributeAssign, op_IndexAssign, op_MinusAssign, op_PlusAssign} then None
      else map_option (\<lambda>ps. ([], ps)) (refs_list u d ops))"
| "refs u d (EConditional c t e) =
     do { (p, ps) \<leftarrow> refs u d c; (q, qs) \<leftarrow> refs u d t;
          rs \<leftarrow> (case e of None \<Rightarrow> Some [] | Some x \<Rightarrow> map_option (\<lambda>(r, rs). rs @ [r]) (refs u d x));
          Some ([], ps @ [p] @ qs @ [q] @ rs) }"
| "refs u d (EConstant (CTuple es)) = map_option (\<lambda>ps. ([], ps)) (refs_list u d es)"
| "refs u d (EAssign a b) = None"
| "refs u d (EListComprehension out v inp p) = None"
| "refs u d (EID i) = None"
| "refs u d (EFind l ci ce fi fe nf) = None"
| "refs u d (ELambda i e) = None"
| "refs u d (EVariable i t e) = None"
| "refs u d _ = Some ([], [])"
| "refs_list u d [] = Some []"
| "refs_list u d (e # es) =
     do { (p, ps) \<leftarrow> refs u d e; qs \<leftarrow> refs_list u d es; Some (ps @ [p] @ qs) }"

text \<open>No call in the expression has arguments, and no tuple has elements.\<close>

fun argument_free :: "expr \<Rightarrow> bool" where
  "argument_free (EOperator kind ops) = list_all argument_free ops"
| "argument_free (EConditional c t e) =
     (argument_free c \<and> argument_free t \<and> (case e of None \<Rightarrow> True | Some x \<Rightarrow> argument_free x))"
| "argument_free (EConstant (CTuple es)) = (es = [])"
| "argument_free e = True"

definition record_path :: "ident \<Rightarrow> builder \<Rightarrow> builder" where
  "record_path p s =
     (if p = [] then s else fold (\<lambda>from. addDependency from p (db_context s)) (db_from s) s)"

abbreviation in_frame :: "ident \<Rightarrow> ident list \<Rightarrow> builder \<Rightarrow> builder" where
  "in_frame t ts s \<equiv> s\<lparr>db_tracking := t # ts\<rparr>"

lemma addDependency_frame [simp]:
  "addDependency f p c (s\<lparr>db_tracking := x\<rparr>) = (addDependency f p c s)\<lparr>db_tracking := x\<rparr>"
  by (simp add: addDependency_def)

lemma fold_addDependency_frame [simp]:
  "fold (\<lambda>f. addDependency f p c) fs (s\<lparr>db_tracking := x\<rparr>) = (fold (\<lambda>f. addDependency f p c) fs s)\<lparr>db_tracking := x\<rparr>"
  by (induction fs arbitrary: s) simp_all

lemma record_path_frame [simp]: "record_path p (s\<lparr>db_tracking := x\<rparr>) = (record_path p s)\<lparr>db_tracking := x\<rparr>"
  by (simp add: record_path_def)

lemma record_path_fields [simp]:
  "db_from (record_path p s) = db_from s" "db_unit (record_path p s) = db_unit s"
  "db_dollar (record_path p s) = db_dollar s" "db_context (record_path p s) = db_context s"
  "db_tracking (record_path p s) = db_tracking s"
  by (simp_all add: record_path_def)

lemma fold_record_fields [simp]:
  "db_from (fold record_path ps s) = db_from s" "db_unit (fold record_path ps s) = db_unit s"
  "db_dollar (fold record_path ps s) = db_dollar s" "db_context (fold record_path ps s) = db_context s"
  "db_tracking (fold record_path ps s) = db_tracking s"
  by (induction ps arbitrary: s) simp_all

lemma fold_record_frame [simp]:
  "fold record_path ps (s\<lparr>db_tracking := x\<rparr>) = (fold record_path ps s)\<lparr>db_tracking := x\<rparr>"
  by (induction ps arbitrary: s) simp_all

lemma pop_in_frame [simp]:
  "pop_discard (s\<lparr>db_tracking := t # ts\<rparr>) = Some (record_path t (s\<lparr>db_tracking := ts\<rparr>))"
  by (simp add: pop_discard_def popTracking_def record_path_def Let_def)

lemma push_frame [simp]: "pushTracking s = in_frame [] (db_tracking s) s"
  by (simp add: pushTracking_def)

definition agrees :: "expr \<Rightarrow> bool" where
  "agrees e \<longleftrightarrow> argument_free e \<longrightarrow> (\<forall>s p ps t ts. refs (db_unit s) (db_dollar s) e = Some (p, ps) \<longrightarrow> db_from s \<noteq> [] \<longrightarrow>
     db_tracking s = t # ts \<longrightarrow> dep_expr e s = Some (in_frame (t @ p) ts (fold record_path ps s)))"

lemma agreesD:
  "agrees e \<Longrightarrow> argument_free e \<Longrightarrow> refs (db_unit s) (db_dollar s) e = Some (p, ps) \<Longrightarrow> db_from s \<noteq> [] \<Longrightarrow>
     db_tracking s = t # ts \<Longrightarrow> dep_expr e s = Some (in_frame (t @ p) ts (fold record_path ps s))"
  by (simp add: agrees_def)

lemma agrees_tracked:
  assumes "agrees e" "argument_free e" "refs (db_unit s) (db_dollar s) e = Some (p, ps)" "db_from s \<noteq> []"
  shows "dep_expr e (pushTracking s) \<bind> pop_discard = Some (fold record_path (ps @ [p]) s)"
  using agreesD[OF assms(1,2), of "pushTracking s" p ps "[]" "db_tracking s"] assms(3,4)
  by simp

lemma agrees_operands:
  "(\<And>e. e \<in> set es \<Longrightarrow> agrees e \<and> argument_free e) \<Longrightarrow> refs_list (db_unit s) (db_dollar s) es = Some ps \<Longrightarrow>
     db_from s \<noteq> [] \<Longrightarrow> dep_operands es s = Some (fold record_path ps s)"
proof (induction es arbitrary: s ps)
  case (Cons e es)
  from Cons.prems(2) obtain p qs rs where r: "refs (db_unit s) (db_dollar s) e = Some (p, qs)"
      "refs_list (db_unit s) (db_dollar s) es = Some rs" "ps = qs @ [p] @ rs"
    by (auto simp: bind_eq_Some_conv)
  have "dep_operands (e # es) s =
      (dep_expr e (pushTracking s) \<bind> pop_discard) \<bind> dep_operands es" by simp
  also have "\<dots> = dep_operands es (fold record_path (qs @ [p]) s)"
    using agrees_tracked[OF _ _ r(1) Cons.prems(3)] Cons.prems(1) by simp
  also have "\<dots> = Some (fold record_path rs (fold record_path (qs @ [p]) s))"
    by (rule Cons.IH) (use Cons.prems r(2) in auto)
  finally show ?case by (simp add: r(3))
qed simp

lemma agrees_operator:
  assumes "\<And>e. e \<in> set ops \<Longrightarrow> agrees e"
  shows "agrees (EOperator kind ops)"
  unfolding agrees_def
proof (intro allI impI)
  fix s :: builder and p ps t ts
  assume "argument_free (EOperator kind ops)"
  then have ag: "agrees e" "argument_free e" "agrees e \<and> argument_free e" if "e \<in> set ops" for e
    using assms that by (simp_all add: list_all_iff)
  let ?u = "db_unit s" and ?d = "db_dollar s"
  assume refs: "refs ?u ?d (EOperator kind ops) = Some (p, ps)" and ne: "db_from s \<noteq> []"
    and fr: "db_tracking s = t # ts"
  have "kind \<notin> {op_AttributeAssign, op_IndexAssign, op_MinusAssign, op_PlusAssign}"
    using refs by (cases kind) simp_all
  then consider (pair) "kind \<in> {op_Attribute, op_Call, op_HasAttribute}" | (index) "kind = op_Index"
    | (meth) "kind = op_MethodCall"
    | (other) "kind \<notin> {op_Attribute, op_Call, op_HasAttribute, op_Index, op_MethodCall,
         op_AttributeAssign, op_IndexAssign, op_MinusAssign, op_PlusAssign}"
    by blast
  then show "dep_expr (EOperator kind ops) s = Some (in_frame (t @ p) ts (fold record_path ps s))"
  proof cases
    case pair
    then obtain a b q qs r rs where ops: "ops = [a, b]" "refs ?u ?d a = Some (q, qs)" "refs ?u ?d b = Some (r, rs)"
        "p = q @ r" "ps = qs @ rs"
      using refs by (auto simp: bind_eq_Some_conv split: list.splits)
    have "dep_expr a s = Some (in_frame (t @ q) ts (fold record_path qs s))"
      using agreesD[OF ag(1,2) ops(2) ne fr] ops(1) by simp
    moreover have "dep_expr b (in_frame (t @ q) ts (fold record_path qs s))
        = Some (in_frame (t @ q @ r) ts (fold record_path rs (fold record_path qs s)))"
      using agreesD[of b "in_frame (t @ q) ts (fold record_path qs s)" r rs] ag ops ne by simp
    ultimately show ?thesis using pair ne ops by auto
  next
    case index
    then obtain a b q qs r rs where ops: "ops = [a, b]" "refs ?u ?d a = Some (q, qs)" "refs ?u ?d b = Some (r, rs)"
        "p = q @ element_tracking_id" "ps = qs @ rs @ [r]"
      using refs by (auto simp: bind_eq_Some_conv split: list.splits)
    let ?s = "in_frame (t @ q @ element_tracking_id) ts (fold record_path qs s)"
    have "dep_expr a s = Some (in_frame (t @ q) ts (fold record_path qs s))"
      using agreesD[OF ag(1,2) ops(2) ne fr] ops(1) by simp
    moreover have "dep_expr b (pushTracking ?s) \<bind> pop_discard = Some (fold record_path (rs @ [r]) ?s)"
      by (rule agrees_tracked) (use ag ops ne in simp_all)
    ultimately show ?thesis using index ne ops by (simp add: trackElement_def)
  next
    case meth
    then obtain a b c q qs r rs where ops: "ops = [a, b, c]" "refs ?u ?d a = Some (q, qs)"
        "refs ?u ?d c = Some (r, rs)" "p = q @ r" "ps = qs @ rs"
      using refs by (auto simp: bind_eq_Some_conv split: list.splits)
    have "dep_expr a s = Some (in_frame (t @ q) ts (fold record_path qs s))"
      using agreesD[OF ag(1,2) ops(2) ne fr] ops(1) by simp
    moreover have "dep_expr c (in_frame (t @ q) ts (fold record_path qs s))
        = Some (in_frame (t @ q @ r) ts (fold record_path rs (fold record_path qs s)))"
      using agreesD[of c "in_frame (t @ q) ts (fold record_path qs s)" r rs] ag ops ne by simp
    ultimately show ?thesis using meth ne ops by simp
  next
    case other
    then have "refs_list ?u ?d ops = Some ps" "p = []" using refs by auto
    then show ?thesis using agrees_operands[OF ag(3) _ ne] other ne fr by simp
  qed
qed

lemma agrees_conditional:
  assumes "agrees c" "agrees t" "\<And>x. e = Some x \<Longrightarrow> agrees x"
  shows "agrees (EConditional c t e)"
  unfolding agrees_def
proof (intro allI impI)
  fix s :: builder and p ps fr frs
  assume free: "argument_free (EConditional c t e)"
  let ?u = "db_unit s" and ?d = "db_dollar s"
  assume refs: "refs ?u ?d (EConditional c t e) = Some (p, ps)" and ne: "db_from s \<noteq> []"
    and fr: "db_tracking s = fr # frs"
  from refs obtain q qs r rs xs where r: "refs ?u ?d c = Some (q, qs)" "refs ?u ?d t = Some (r, rs)"
      "(case e of None \<Rightarrow> Some [] | Some x \<Rightarrow> map_option (\<lambda>(r, rs). rs @ [r]) (refs ?u ?d x)) = Some xs"
      "p = []" "ps = qs @ [q] @ rs @ [r] @ xs"
    by (auto simp: bind_eq_Some_conv)
  let ?s1 = "fold record_path (qs @ [q]) s" and ?s2 = "fold record_path (qs @ [q] @ rs @ [r]) s"
  have 1: "dep_expr c (pushTracking s) \<bind> pop_discard = Some ?s1"
    by (rule agrees_tracked[OF assms(1) _ r(1) ne]) (use free in simp)
  have "dep_expr t (pushTracking ?s1) \<bind> pop_discard = Some (fold record_path (rs @ [r]) ?s1)"
    by (rule agrees_tracked[OF assms(2)]) (use r(2) ne free in simp_all)
  then have 2: "dep_expr t (pushTracking ?s1) \<bind> pop_discard = Some ?s2" by simp
  have 3: "(case e of None \<Rightarrow> Some ?s2 | Some x \<Rightarrow> dep_expr x (pushTracking ?s2) \<bind> pop_discard)
      = Some (fold record_path xs ?s2)"
  proof (cases e)
    case (Some x)
    then obtain y ys where y: "refs ?u ?d x = Some (y, ys)" "xs = ys @ [y]" using r(3) by auto
    have "dep_expr x (pushTracking ?s2) \<bind> pop_discard = Some (fold record_path (ys @ [y]) ?s2)"
      by (rule agrees_tracked[OF assms(3)[OF Some]]) (use y(1) ne free Some in simp_all)
    then show ?thesis using Some y(2) by simp
  qed (use r(3) in simp)
  have "dep_expr (EConditional c t e) s =
      (dep_expr c (pushTracking s) \<bind> pop_discard) \<bind> (\<lambda>s2. (dep_expr t (pushTracking s2) \<bind> pop_discard) \<bind>
        (\<lambda>s4. case e of None \<Rightarrow> Some s4 | Some x \<Rightarrow> dep_expr x (pushTracking s4) \<bind> pop_discard))"
    using ne by (simp del: push_frame)
  also have "\<dots> = Some (fold record_path xs ?s2)"
    unfolding 1 bind.bind_lunit 2 3 ..
  finally show "dep_expr (EConditional c t e) s = Some (in_frame (fr @ p) frs (fold record_path ps s))"
    using fr r(4,5) by simp
qed

lemma agrees_all: "agrees e"
proof (induction e rule: measure_induct_rule[where f = size])
  case (less e)
  show ?case
  proof (cases e)
    case (EOperator kind ops)
    have "size x < size e" if "x \<in> set ops" for x
      using size_list_estimation'[OF that order_refl, of size] EOperator by simp
    then show ?thesis unfolding EOperator by (intro agrees_operator less.IH[unfolded EOperator]) simp
  next
    case (EConditional c t f)
    then show ?thesis unfolding EConditional by (intro agrees_conditional less.IH[unfolded EConditional]) auto
  next
    case (EConstant c)
    then show ?thesis by (cases c) (auto simp: agrees_def)
  qed (auto simp: agrees_def track_def split: parser_state_kind.splits)
qed

lemma dep_tracked_record:
  "argument_free e \<Longrightarrow> refs (db_unit s) (db_dollar s) e = Some (p, ps) \<Longrightarrow> db_from s \<noteq> [] \<Longrightarrow>
     dep_tracked e s = Some (fold record_path (ps @ [p]) s)"
  unfolding dep_tracked_def by (rule agrees_tracked[OF agrees_all])



section \<open>Length expressions\<close>












section \<open>Properties\<close>

text \<open>C24: visiting an expression with the builder's stack of partial paths records exactly the
  dependencies on the paths that the expression mentions: for every well-formed expression without
  assignments, list searches and arguments of calls, the visit succeeds and adds each mentioned path, in
  order, to every field the builder is collecting for.  A tuple constant, the node that holds the arguments
  of a call, records nothing, whatever its elements mention, although the visitor means to process them.\<close>

theorem dep_tracked_refs:
  assumes "db_from s \<noteq> []"
  shows "(argument_free e \<longrightarrow> refs (db_unit s) (db_dollar s) e = Some (p, ps) \<longrightarrow>
      dep_tracked e s = Some (fold record_path (ps @ [p]) s)) \<and>
    dep_tracked (EConstant (CTuple es)) s = Some s"
proof -
  have "dep_tracked (EConstant (CTuple es)) s = Some s" by (simp add: dep_tracked_def record_path_def)
  then show ?thesis using assms dep_tracked_record by blast
qed

theorem dep_tracked_refs_witness:
  "dep_tracked (self_member 3 ''len'') (DependencyMapBuilder\<lparr>db_dollar := [''body''], db_from := [[''body'']]\<rparr>)
   = Some (record_path [''len''] (DependencyMapBuilder\<lparr>db_dollar := [''body''], db_from := [[''body'']]\<rparr>)) \<and>
   dep_tracked (EConstant (CTuple [self_member 3 ''len'']))
     (DependencyMapBuilder\<lparr>db_dollar := [''body''], db_from := [[''body'']]\<rparr>) =
   Some (DependencyMapBuilder\<lparr>db_dollar := [''body''], db_from := [[''body'']]\<rparr>)"
  using dep_tracked_refs[of "DependencyMapBuilder\<lparr>db_dollar := [''body''], db_from := [[''body'']]\<rparr>"
      "self_member 3 ''len''" "[''len'']" "[]" "[self_member 3 ''len'']"]
  by (simp add: self_member_def DependencyMapBuilder_def)



end
