(* ===== verification/Acyclic.thy ===== *)
theory Acyclic
  imports Dep_Map Samples
begin

text \<open>
  When the passes that follow field types into the type store return.

  \<open>ranked ts r\<close> says that the unit and tuple types of the store can be ranked so that every type a
  unit refers to has a smaller rank, and that the items are complete (types present, operators with
  their operands).  On such a store the length functions and the dependency map builder return as
  soon as the fuel exceeds the rank of the type, so the fuel of the model is no restriction.  On a unit that
  contains itself they never return: neither the source's recursion nor the model has a visited set.
\<close>

fun arity_ok :: "expr \<Rightarrow> bool"
and arities_ok :: "expr list \<Rightarrow> bool" where
  "arity_ok (EOperator kind ops) \<longleftrightarrow>
     (kind \<in> {op_Attribute, op_Call, op_HasAttribute, op_Index, op_MinusAssign, op_PlusAssign} \<longrightarrow> length ops \<ge> 2) \<and>
     (kind \<in> {op_AttributeAssign, op_IndexAssign, op_MethodCall} \<longrightarrow> length ops \<ge> 3) \<and> arities_ok ops"
| "arity_ok (EConditional c t e) \<longleftrightarrow> arity_ok c \<and> arity_ok t \<and> (case e of None \<Rightarrow> True | Some x \<Rightarrow> arity_ok x)"
| "arity_ok (EFind l ci ce fi fe nf) \<longleftrightarrow> arity_ok l \<and> arity_ok ce \<and> arity_ok fe"
| "arity_ok (ELambda i e) \<longleftrightarrow> arity_ok e"
| "arity_ok _ \<longleftrightarrow> True"
| "arities_ok [] \<longleftrightarrow> True"
| "arities_ok (e # es) \<longleftrightarrow> arity_ok e \<and> arities_ok es"

definition base_ok :: "item_base \<Rightarrow> bool" where
  "base_ok b \<longleftrightarrow> list_all (\<lambda>a. case attr_value a of None \<Rightarrow> True | Some e \<Rightarrow> arity_ok e) (it_attributes b)"

definition field_ok :: "item_base \<Rightarrow> field_base \<Rightarrow> bool" where
  "field_ok b f \<longleftrightarrow> base_ok b \<and> (case fd_condition f of None \<Rightarrow> True | Some c \<Rightarrow> arity_ok c) \<and> arities_ok (fd_parameters f)"

fun item_ok :: "type_store \<Rightarrow> (taddr \<Rightarrow> bool) \<Rightarrow> item \<Rightarrow> bool"
and items_ok :: "type_store \<Rightarrow> (taddr \<Rightarrow> bool) \<Rightarrow> item list \<Rightarrow> bool"
and cases_ok :: "type_store \<Rightarrow> (taddr \<Rightarrow> bool) \<Rightarrow> switch_case list \<Rightarrow> bool" where
  "item_ok ts R (Variable b d) \<longleftrightarrow> base_ok b"
| "item_ok ts R (Property b p) \<longleftrightarrow> base_ok b"
| "item_ok ts R (AtomicType b f) \<longleftrightarrow> field_ok b f \<and>
     (case serialized_type (AtomicType b f) of None \<Rightarrow> False | Some t \<Rightarrow> R t)"
| "item_ok ts R (ConstantField b f c) \<longleftrightarrow> field_ok b f"
| "item_ok ts R (CtorField b f c) \<longleftrightarrow> field_ok b f"
| "item_ok ts R (UnknownField b f i) \<longleftrightarrow> field_ok b f"
| "item_ok ts R (UnitField b f) \<longleftrightarrow> field_ok b f \<and>
     (case it_type b of None \<Rightarrow> False | Some t \<Rightarrow> R t \<and> unit_items ts t \<noteq> None)"
| "item_ok ts R (Switch b f e cs) \<longleftrightarrow> field_ok b f \<and>
     (case e of None \<Rightarrow> True | Some x \<Rightarrow> arity_ok x) \<and> cases_ok ts R cs"
| "item_ok ts R (Vector b f inner len) \<longleftrightarrow> field_ok b f \<and> arity_ok len \<and> is_field inner \<and> item_ok ts R inner"
| "item_ok ts R (ListField b f inner) \<longleftrightarrow> field_ok b f \<and> is_field inner \<and> item_ok ts R inner"
| "items_ok ts R [] \<longleftrightarrow> True"
| "items_ok ts R (i # is) \<longleftrightarrow> item_ok ts R i \<and> items_ok ts R is"
| "cases_ok ts R [] \<longleftrightarrow> True"
| "cases_ok ts R (Case es is d # cs) \<longleftrightarrow> items_ok ts R is \<and> cases_ok ts R cs"

definition ranked :: "type_store \<Rightarrow> (taddr \<Rightarrow> nat) \<Rightarrow> bool" where
  "ranked ts r \<longleftrightarrow> (\<forall>t ob. ts t = Some ob \<longrightarrow>
     (case ty_kind ob of
        TUnit ps is \<Rightarrow> items_ok ts (\<lambda>u. ts u \<noteq> None \<and> r u < r t) is
      | TTuple tys \<Rightarrow> list_all (\<lambda>u. ts u \<noteq> None \<and> r u < r t) tys
      | _ \<Rightarrow> True))"

section \<open>Lengths\<close>

lemma field_static_length_total:
  assumes "\<And>t. R t \<Longrightarrow> tlen t \<noteq> None"
  shows "item_ok ts R i \<Longrightarrow> is_field i \<Longrightarrow> field_static_length ts tlen i \<noteq> None"
    and "items_ok ts R is \<Longrightarrow> fields_static_length ts tlen is len \<noteq> None"
    and "cases_ok ts R cs \<Longrightarrow> cases_static_length ts tlen cs first last_len \<noteq> None"
  using assms
proof (induction ts tlen i and ts tlen "is" len and ts tlen cs first last_len
    rule: field_static_length_fields_static_length_cases_static_length.induct)
  case (1 ts tlen b f)
  then show ?case by (fastforce split: option.splits)
next
  case (5 ts tlen b f)
  then show ?case by (fastforce split: option.splits)
next
  case (7 ts tlen b f inner len)
  then show ?case by (cases "const_integer (Some len)") (auto split: option.splits)
next
  case (12 ts tlen i "is" len)
  then show ?case by (auto split: option.splits)
next
  case (14 ts tlen es "is" d cs first last_len)
  then show ?case by (auto split: option.splits)
qed (simp_all add: is_field_def)

lemma types_static_length_total:
  "list_all (\<lambda>t. tlen t \<noteq> None) tys \<Longrightarrow> types_static_length tlen tys len \<noteq> None"
  by (induction tys arbitrary: len) auto

lemma ranked_unit:
  "ranked ts r \<Longrightarrow> ts t = Some ob \<Longrightarrow> ty_kind ob = TUnit ps is \<Longrightarrow>
     items_ok ts (\<lambda>u. ts u \<noteq> None \<and> r u < r t) is"
  by (auto simp: ranked_def simp del: not_None_eq split: type_kind.splits)

lemma ranked_tuple:
  "ranked ts r \<Longrightarrow> ts t = Some ob \<Longrightarrow> ty_kind ob = TTuple tys \<Longrightarrow>
     list_all (\<lambda>u. ts u \<noteq> None \<and> r u < r t) tys"
  by (auto simp: ranked_def simp del: not_None_eq split: type_kind.splits)

lemma type_static_length_total:
  "ranked ts r \<Longrightarrow> ts t \<noteq> None \<Longrightarrow> r t < n \<Longrightarrow> type_static_length n ts t \<noteq> None"
proof (induction n arbitrary: t)
  case (Suc n)
  then obtain ob where ob: "ts t = Some ob" by auto
  have below: "type_static_length n ts u \<noteq> None" if "ts u \<noteq> None \<and> r u < r t" for u
    using that Suc by simp
  show ?case
  proof (cases "ty_kind ob")
    case (TUnit ps "is")
    show ?thesis
      using field_static_length_total(2)[OF below ranked_unit[OF Suc.prems(1) ob TUnit]] ob TUnit by simp
  next
    case (TTuple tys)
    have "list_all (\<lambda>u. type_static_length n ts u \<noteq> None) tys"
      using ranked_tuple[OF Suc.prems(1) ob TTuple] below by (simp add: list_all_iff)
    then show ?thesis using types_static_length_total ob TTuple by simp
  qed (simp_all add: ob)
qed simp

lemma field_serialized_length_total:
  assumes "\<And>t. R t \<Longrightarrow> tlen t \<noteq> None" and "\<And>t. R t \<Longrightarrow> unit_items ts t \<noteq> None \<Longrightarrow> ulen t \<noteq> None"
  shows "item_ok ts R i \<Longrightarrow> is_field i \<Longrightarrow> field_serialized_length ts tlen ulen i \<noteq> None"
proof (induction i rule: measure_induct_rule[where f = size])
  case (less i)
  have "field_static_length ts tlen i \<noteq> None"
    by (rule field_static_length_total(1)[OF _ less.prems]) (rule assms(1))
  then have d: "field_default_length ts tlen i \<noteq> None" by (auto simp: field_default_length_def)
  show ?case
  proof (cases i)
    case (UnitField b f)
    then obtain t where "it_type b = Some t" "R t" "unit_items ts t \<noteq> None"
      using less.prems(1) by (auto split: option.splits)
    then show ?thesis using assms(2) UnitField by simp
  next
    case (Vector b f inner len)
    then show ?thesis using less.IH[of inner] less.prems d by (auto split: option.split)
  qed (use d less.prems(2) in \<open>auto simp: is_field_def split: option.split\<close>)
qed

lemma fields_serialized_length_total:
  assumes "\<And>i. item_ok ts R i \<Longrightarrow> is_field i \<Longrightarrow> field_serialized_length ts tlen ulen i \<noteq> None"
  shows "items_ok ts R is \<Longrightarrow> fields_serialized_length ts tlen ulen is len \<noteq> None"
proof (induction "is" arbitrary: len)
  case (Cons i "is")
  then show ?case using assms[of i] by (auto split: option.split)
qed simp

lemma unit_serialized_length_total:
  "ranked ts r \<Longrightarrow> unit_items ts t \<noteq> None \<Longrightarrow> r t < n \<Longrightarrow> unit_serialized_length n ts t \<noteq> None"
proof (induction n arbitrary: t)
  case (Suc n)
  then obtain ob ps "is" where ob: "ts t = Some ob" "ty_kind ob = TUnit ps is"
    by (auto simp: unit_items_def split: option.splits type_kind.splits)
  have "fields_serialized_length ts (type_static_length n ts) (unit_serialized_length n ts) is None \<noteq> None"
    by (rule fields_serialized_length_total[OF field_serialized_length_total ranked_unit[OF Suc.prems(1) ob]])
      (use Suc type_static_length_total[OF Suc.prems(1)] in auto)
  then show ?case using ob by simp
qed simp

lemma item_lengths_total:
  assumes "ranked ts r" "unit_items ts t = Some is" "i \<in> set is" "is_field i" "r t < n"
  shows "static_serialized_length n ts i \<noteq> None" and "serialized_length n ts i \<noteq> None"
proof -
  obtain ob ps where "ts t = Some ob" "ty_kind ob = TUnit ps is"
    using assms(2) by (auto simp: unit_items_def split: option.splits type_kind.splits)
  then have items: "items_ok ts (\<lambda>u. ts u \<noteq> None \<and> r u < r t) is" using ranked_unit assms(1) by blast
  have i: "item_ok ts (\<lambda>u. ts u \<noteq> None \<and> r u < r t) i" using items assms(3) by (induction "is") auto
  have tlen: "type_static_length n ts u \<noteq> None" if "ts u \<noteq> None \<and> r u < r t" for u
    using that type_static_length_total[OF assms(1), of u n] assms(5) by simp
  show "static_serialized_length n ts i \<noteq> None"
    unfolding static_serialized_length_def by (rule field_static_length_total(1)[OF tlen i assms(4)])
  show "serialized_length n ts i \<noteq> None"
    unfolding serialized_length_def
    by (rule field_serialized_length_total[OF tlen _ i assms(4)])
      (use unit_serialized_length_total[OF assms(1)] assms(5) in auto)
qed

section \<open>The dependency map\<close>

text \<open>\<open>returns f\<close>: the visit \<open>f\<close> returns from every state that has a tracking frame and touches only
  the topmost one.\<close>

definition returns :: "(builder \<Rightarrow> builder option) \<Rightarrow> bool" where
  "returns f \<longleftrightarrow> (\<forall>s t ts. db_tracking s = t # ts \<longrightarrow> (\<exists>s' t'. f s = Some s' \<and> db_tracking s' = t' # ts))"

lemma returnsD: "returns f \<Longrightarrow> db_tracking s = t # ts \<Longrightarrow> \<exists>s' t'. f s = Some s' \<and> db_tracking s' = t' # ts"
  by (simp add: returns_def)

lemma returns_bind: "returns f \<Longrightarrow> returns g \<Longrightarrow> returns (\<lambda>s. f s \<bind> g)"
  unfolding returns_def by fastforce

lemma returns_track: "returns (track i)" "returns (\<lambda>s. track (f s) s)" "returns trackElement" "returns Some"
  by (auto simp: returns_def track_def trackElement_def split: option.splits)

lemma pop_discard_returns: "db_tracking s = t # ts \<Longrightarrow> \<exists>s'. pop_discard s = Some s' \<and> db_tracking s' = ts"
  by (simp add: popTracking_def pop_discard_def Let_def)

lemma returns_framed:
  assumes "returns f"
  shows "\<exists>s'. f (pushTracking s) \<bind> pop_discard = Some s' \<and> db_tracking s' = db_tracking s"
proof -
  have "db_tracking (pushTracking s) = [] # db_tracking s" by (simp add: pushTracking_def)
  then obtain s1 t where "f (pushTracking s) = Some s1" "db_tracking s1 = t # db_tracking s"
    using returnsD[OF assms] by blast
  then show ?thesis using pop_discard_returns by fastforce
qed

lemma returns_update:
  assumes "returns f"
  shows "returns (\<lambda>s. f (enter_update s) \<bind> leave_update (db_context s))"
  unfolding returns_def
proof (intro allI impI)
  fix s :: builder and t ts
  assume s: "db_tracking s = t # ts"
  obtain s' where "f (enter_update s) \<bind> pop_discard = Some s'" "db_tracking s' = t # ts"
    using returns_framed[OF assms, of "s\<lparr>db_context := CONTEXT_SERIALIZING_UPDATE\<rparr>"] s
    by (auto simp: enter_update_def)
  then show "\<exists>s' t'. f (enter_update s) \<bind> leave_update (db_context s) = Some s' \<and> db_tracking s' = t' # ts"
    by (auto simp: leave_update_def bind_eq_Some_conv)
qed

lemma returns_if: "returns f \<Longrightarrow> returns g \<Longrightarrow> returns (\<lambda>s. if c s then f s else g s)"
  by (simp add: returns_def)

lemma returns_framed':
  assumes "returns f"
  shows "returns (\<lambda>s. f (pushTracking s) \<bind> pop_discard)"
  unfolding returns_def
proof (intro allI impI)
  fix s :: builder and t ts
  assume "db_tracking s = t # ts"
  then show "\<exists>s' t'. f (pushTracking s) \<bind> pop_discard = Some s' \<and> db_tracking s' = t' # ts"
    using returns_framed[OF assms, of s] by auto
qed

lemma returns_guard:
  assumes "returns F" "\<And>s. db_from s = [] \<Longrightarrow> g s = Some s" "\<And>s. db_from s \<noteq> [] \<Longrightarrow> g s = F s"
  shows "returns g"
  using assms unfolding returns_def by (intro allI impI, case_tac "db_from s = []") simp_all

lemma arities_ok_iff: "arities_ok es \<longleftrightarrow> (\<forall>e\<in>set es. arity_ok e)"
  by (induction es) auto

lemma returns_operands: "(\<And>e. e \<in> set es \<Longrightarrow> returns (dep_expr e)) \<Longrightarrow> returns (dep_operands es)"
proof (induction es)
  case Nil
  then show ?case by (simp add: returns_def)
next
  case (Cons e es)
  have "dep_operands (e # es) = (\<lambda>s. (dep_expr e (pushTracking s) \<bind> pop_discard) \<bind> dep_operands es)"
    by (intro ext) simp
  moreover have "returns (dep_expr e)" "returns (dep_operands es)" using Cons by simp_all
  ultimately show ?case by (simp only: returns_bind[OF returns_framed'])
qed

lemma returns_operator:
  assumes ok: "arity_ok (EOperator kind ops)" and ret: "\<And>e. e \<in> set ops \<Longrightarrow> returns (dep_expr e)"
  shows "returns (dep_expr (EOperator kind ops))"
proof -
  note step = returns_guard[of _ "dep_expr (EOperator kind ops)"]
  consider (pair) "kind \<in> {op_Attribute, op_Call, op_HasAttribute}" | (attr) "kind = op_AttributeAssign"
    | (index) "kind = op_Index" | (iassign) "kind = op_IndexAssign" | (meth) "kind = op_MethodCall"
    | (assign) "kind \<in> {op_MinusAssign, op_PlusAssign}"
    | (other) "kind \<notin> {op_Attribute, op_Call, op_HasAttribute, op_AttributeAssign, op_Index,
        op_IndexAssign, op_MethodCall, op_MinusAssign, op_PlusAssign}"
    by blast
  then show ?thesis
  proof cases
    case pair
    then obtain a b r where ops: "ops = a # b # r" using ok by (cases ops; cases "tl ops") auto
    show ?thesis
      by (rule step[of "\<lambda>s. dep_expr a s \<bind> dep_expr b"],
          rule returns_bind[OF ret ret])
         (use pair ops in auto)
  next
    case attr
    then obtain a b c r where ops: "ops = a # b # c # r" using ok by (cases ops; cases "tl ops"; cases "tl (tl ops)") auto
    show ?thesis
      by (rule step[of "\<lambda>s. if op_serializing s then ((\<lambda>s. dep_expr a s \<bind> dep_expr b) (enter_update s)
            \<bind> leave_update (db_context s)) \<bind> dep_expr c else dep_expr a s"],
          rule returns_if[OF returns_bind[OF returns_update[OF returns_bind[OF ret ret]] ret] ret])
         (use attr ops in auto)
  next
    case index
    then obtain a b r where ops: "ops = a # b # r" using ok by (cases ops; cases "tl ops") auto
    show ?thesis
      by (rule step[of "\<lambda>s. (dep_expr a s \<bind> trackElement) \<bind> (\<lambda>s. dep_expr b (pushTracking s) \<bind> pop_discard)"],
          rule returns_bind[OF returns_bind[OF ret returns_track(3)] returns_framed'[OF ret]])
         (use index ops in auto)
  next
    case iassign
    then obtain a b c r where ops: "ops = a # b # c # r" using ok by (cases ops; cases "tl ops"; cases "tl (tl ops)") auto
    show ?thesis
      by (rule step[of "\<lambda>s. if op_serializing s then ((\<lambda>s. dep_expr a s \<bind> trackElement) (enter_update s)
            \<bind> leave_update (db_context s)) \<bind> dep_expr c else dep_expr b s"],
          rule returns_if[OF returns_bind[OF returns_update[OF returns_bind[OF ret returns_track(3)]] ret] ret])
         (use iassign ops in auto)
  next
    case meth
    then obtain a b c r where ops: "ops = a # b # c # r" using ok by (cases ops; cases "tl ops"; cases "tl (tl ops)") auto
    show ?thesis
      by (rule step[of "\<lambda>s. dep_expr a s \<bind> dep_expr c"],
          rule returns_bind[OF ret ret])
         (use meth ops in auto)
  next
    case assign
    then obtain a b r where ops: "ops = a # b # r" using ok by (cases ops; cases "tl ops") auto
    show ?thesis
      by (rule step[of "\<lambda>s. if op_serializing s then
            (dep_expr a (enter_update s) \<bind> leave_update (db_context s)) \<bind> dep_expr b else dep_expr a s"],
          rule returns_if[OF returns_bind[OF returns_update[OF ret] ret] ret])
         (use assign ops in auto)
  next
    case other
    show ?thesis by (rule step[of "dep_operands ops"]) (use other ret in \<open>auto intro!: returns_operands\<close>)
  qed
qed

lemma returns_conditional:
  assumes "returns (dep_expr c)" "returns (dep_expr t)" "\<And>x. e = Some x \<Longrightarrow> returns (dep_expr x)"
  shows "returns (dep_expr (EConditional c t e))"
proof -
  let ?F = "\<lambda>s. ((dep_expr c (pushTracking s) \<bind> pop_discard) \<bind> (\<lambda>s. dep_expr t (pushTracking s) \<bind> pop_discard))
    \<bind> (case e of None \<Rightarrow> Some | Some x \<Rightarrow> (\<lambda>s. dep_expr x (pushTracking s) \<bind> pop_discard))"
  have "returns (case e of None \<Rightarrow> Some | Some x \<Rightarrow> (\<lambda>s. dep_expr x (pushTracking s) \<bind> pop_discard))"
    using assms(3) by (cases e) (simp_all only: option.case returns_track returns_framed')
  then have F: "returns ?F" by (intro returns_bind[OF returns_bind[OF returns_framed' returns_framed']] assms)
  show ?thesis by (rule returns_guard[OF F]; cases e) simp_all
qed

lemma returns_search:
  assumes "returns f"
  shows "returns (\<lambda>s. f (pushTracking s) \<bind> (\<lambda>s1. popTracking s1 \<bind> (\<lambda>(i, s2). Some (s2\<lparr>db_find_list := Some i\<rparr>))))"
  unfolding returns_def
proof (intro allI impI)
  fix s :: builder and t ts
  assume s: "db_tracking s = t # ts"
  have "db_tracking (pushTracking s) = [] # t # ts" by (simp add: pushTracking_def s)
  then obtain s1 t1 where "f (pushTracking s) = Some s1" "db_tracking s1 = t1 # t # ts"
    using returnsD[OF assms] by blast
  then show "\<exists>s' t'. f (pushTracking s) \<bind> (\<lambda>s1. popTracking s1 \<bind> (\<lambda>(i, s2). Some (s2\<lparr>db_find_list := Some i\<rparr>)))
      = Some s' \<and> db_tracking s' = t' # ts"
    by (simp add: popTracking_def Let_def)
qed

lemma push_from: "db_from (pushTracking s) = db_from s"
  by (simp add: pushTracking_def)

lemma returns_find:
  assumes "returns (dep_expr l)" "returns (dep_expr ce)" "returns (dep_expr fe)"
  shows "returns (dep_expr (EFind l ci ce fi fe nf))"
proof -
  let ?body = "\<lambda>e s. if db_from s = [] then Some s else dep_expr e s"
  let ?F = "\<lambda>s. (((dep_expr l (pushTracking s) \<bind> (\<lambda>s1. popTracking s1 \<bind> (\<lambda>(i, s2). Some (s2\<lparr>db_find_list := Some i\<rparr>))))
    \<bind> (\<lambda>s. ?body ce (pushTracking s) \<bind> pop_discard)) \<bind> (\<lambda>s. ?body fe (pushTracking s) \<bind> pop_discard))
    \<bind> (\<lambda>s. Some (pushTracking s) \<bind> pop_discard)"
  have F: "returns ?F"
    by (intro returns_bind[OF returns_bind[OF returns_bind[OF returns_search returns_framed'] returns_framed']
          returns_framed'] returns_if assms returns_track)
  have "dep_expr (EFind l ci ce fi fe nf) s = ?F s" if "db_from s \<noteq> []" for s
    using that by (simp add: Let_def case_prod_unfold push_from)
  then show ?thesis by (intro returns_guard[OF F]) simp_all
qed

lemma returns_expr: "arity_ok e \<Longrightarrow> returns (dep_expr e)"
proof (induction e rule: measure_induct_rule[where f = size])
  case (less e)
  show ?case
  proof (cases e)
    case (EOperator kind ops)
    have "size x < size e" "arity_ok x" if "x \<in> set ops" for x
      using size_list_estimation'[OF that order_refl, of size] that less.prems EOperator
      by (simp_all add: arities_ok_iff)
    then have "returns (dep_expr x)" if "x \<in> set ops" for x using that less.IH by blast
    then show ?thesis unfolding EOperator by (rule returns_operator[OF less.prems[unfolded EOperator]])
  next
    case (EConditional c t f)
    show ?thesis unfolding EConditional by (rule returns_conditional) (use less EConditional in auto)
  next
    case (EFind l ci ce fi fe nf)
    show ?thesis unfolding EFind by (rule returns_find) (use less EFind in auto)
  next
    case (ELambda i x)
    then have "returns (dep_expr x)" using less by simp
    then show ?thesis unfolding ELambda by (simp add: returns_def)
  qed (auto simp: returns_def track_def trackElement_def split: parser_state_kind.splits option.splits)
qed

lemma dep_tracked_total: "arity_ok e \<Longrightarrow> \<exists>s'. dep_tracked e s = Some s'"
  unfolding dep_tracked_def using returns_framed[OF returns_expr] by blast

lemma dep_attributes_total:
  "list_all (\<lambda>a. case attr_value a of None \<Rightarrow> True | Some e \<Rightarrow> arity_ok e) as \<Longrightarrow> \<exists>s'. dep_attributes as s = Some s'"
proof (induction as arbitrary: s)
  case (Cons a as)
  have "\<exists>s'. dep_attribute a s = Some s'"
    using Cons.prems dep_tracked_total
    by (cases "attr_value a") (fastforce simp: dep_attribute_def Let_def bind_eq_Some_conv)+
  then show ?case using Cons by auto
qed simp

lemma dep_field_total: "field_ok b f \<Longrightarrow> \<exists>s'. dep_field b f s = Some s'"
proof -
  assume ok: "field_ok b f"
  then obtain s1 where "dep_attributes (it_attributes b) s = Some s1"
    using dep_attributes_total[of "it_attributes b" s] by (auto simp: field_ok_def base_ok_def)
  then show ?thesis
    using ok dep_tracked_total by (cases "fd_condition f") (auto simp: dep_field_def dep_base_def field_ok_def)
qed

lemma dep_base_total: "base_ok b \<Longrightarrow> \<exists>s'. dep_base b s = Some s'"
  using dep_attributes_total[of "it_attributes b" s] by (auto simp: base_ok_def dep_base_def)

lemma dep_parameters_total: "arities_ok ps \<Longrightarrow> \<exists>s'. dep_parameters ps s = Some s'"
proof (induction ps arbitrary: s)
  case (Cons p ps)
  then obtain s1 where "dep_tracked p s = Some s1" using dep_tracked_total[of p s] by auto
  then show ?case using Cons by simp
qed simp

lemma dep_switch_head_total:
  "(case e of None \<Rightarrow> True | Some x \<Rightarrow> arity_ok x) \<Longrightarrow> \<exists>s'. dep_switch_head len e s = Some s'"
proof -
  assume ok: "case e of None \<Rightarrow> True | Some x \<Rightarrow> arity_ok x"
  have "\<exists>s'. (case e of None \<Rightarrow> Some s1 | Some x \<Rightarrow> dep_tracked x s1) = Some s'" for s1
    using ok dep_tracked_total by (auto split: option.splits)
  moreover obtain s1 where "track (Some (db_dollar s))
      (pushTracking (s\<lparr>db_from := db_from s @ [length_tracking_id]\<rparr>)) \<bind> pop_discard = Some s1"
    using returns_framed[OF returns_track(1)] by blast
  ultimately show ?thesis unfolding dep_switch_head_def by (cases "len < 0") simp_all
qed

lemma dep_item_total:
  assumes "\<And>t s. R t \<Longrightarrow> \<exists>s'. dunit t s = Some s'"
    and "\<And>b f e cs. cases_ok ts R cs \<Longrightarrow> slen (Switch b f e cs) \<noteq> None"
  shows "item_ok ts R i \<Longrightarrow> \<exists>s'. dep_item slen dunit i s = Some s'"
    and "items_ok ts R is \<Longrightarrow> \<exists>s'. dep_case_items slen dunit sw is s = Some s'"
    and "cases_ok ts R cs \<Longrightarrow> \<exists>s'. dep_cases slen dunit sw cs s = Some s'"
  using assms
proof (induction slen dunit i s and slen dunit sw "is" s and slen dunit sw cs s
    rule: dep_item_dep_case_items_dep_cases.induct)
  case (7 slen dunit b f s)
  then obtain t s1 where t: "it_type b = Some t" "R t" "dep_field b f s = Some s1"
    using dep_field_total[of b f s] by (auto split: option.splits)
  obtain s2 where "dep_parameters (fd_parameters f) s1 = Some s2"
    using 7(1) dep_parameters_total by (auto simp: field_ok_def)
  moreover obtain s3 where "dunit t (s2\<lparr>db_unit := db_dollar s2\<rparr>) = Some s3" using 7(2) t(2) by blast
  ultimately show ?case using t by simp
next
  case (8 slen dunit b f e cs s)
  obtain s1 where s1: "dep_field b f s = Some s1" using 8(2) dep_field_total[of b f s] by auto
  obtain len where len: "slen (Switch b f e cs) = Some len" using 8(2,4) by fastforce
  obtain s2 where s2: "dep_switch_head len e s1 = Some s2" using 8(2) dep_switch_head_total[of e len s1] by auto
  show ?case using 8(1)[OF s1 len s2 _ 8(3,4)] 8(2) s1 len s2 by simp
next
  case (9 slen dunit b f inner len s)
  obtain s1 where s1: "dep_field b f s = Some s1" using 9(2) dep_field_total[of b f s] by auto
  obtain s2 where s2: "dep_tracked len (s1\<lparr>db_context := CONTEXT_PARSING OR CONTEXT_SERIALIZING_UPDATE,
      db_from := db_from s1 @ [length_tracking_id]\<rparr>) = Some s2"
    using 9(2) dep_tracked_total by fastforce
  show ?case using 9(1)[OF s1 s2 _ 9(3,4)] 9(2) s1 s2 by simp
next
  case (10 slen dunit b f inner s)
  obtain s1 where s1: "dep_field b f s = Some s1" using 10(2) dep_field_total[of b f s] by auto
  show ?case using 10(1)[OF s1 _ 10(3,4)] 10(2) s1 by simp
next
  case (12 slen dunit sw i "is" s)
  obtain s1 where s1: "dep_item slen dunit i (enter_case_item i sw s) = Some s1"
    using 12(1)[OF _ 12(4,5)] 12(3) by auto
  show ?case using 12(2)[OF s1 _ 12(4,5)] 12(3) s1 by simp
next
  case (14 slen dunit sw es "is" d cs s)
  obtain s1 where s1: "dep_case_items slen dunit sw is s = Some s1" using 14(1)[OF _ 14(4,5)] 14(3) by auto
  show ?case using 14(2)[OF s1 _ 14(4,5)] 14(3) s1 by simp
qed (auto intro: dep_base_total dep_field_total)

lemma dep_unit_items_total:
  assumes "\<And>t s. R t \<Longrightarrow> \<exists>s'. dunit t s = Some s'"
    and "\<And>b f e cs. cases_ok ts R cs \<Longrightarrow> slen (Switch b f e cs) \<noteq> None"
  shows "items_ok ts R is \<Longrightarrow> \<exists>s'. dep_unit_items slen dunit is s = Some s'"
proof (induction "is" arbitrary: s)
  case (Cons i "is")
  let ?d = "combineIDs (db_unit s) (item_id i)"
  obtain s1 where "dep_item slen dunit i (s\<lparr>db_dollar := ?d, db_from := db_from s @ [?d]\<rparr>) = Some s1"
    using dep_item_total(1)[where R = R and dunit = dunit and ts = ts and slen = slen and i = i] assms Cons.prems
    by (meson items_ok.simps(2))
  then show ?case using Cons by (simp add: Let_def)
qed simp

lemma dep_type_total:
  "ranked ts r \<Longrightarrow> ts t \<noteq> None \<Longrightarrow> r t < n \<Longrightarrow> \<exists>s'. dep_type n ts t s = Some s'"
proof (induction n arbitrary: t s)
  case (Suc n)
  then obtain ob where ob: "ts t = Some ob" by auto
  let ?R = "\<lambda>u. ts u \<noteq> None \<and> r u < r t"
  have below: "\<exists>s'. dep_type n ts u s = Some s'" "type_static_length n ts u \<noteq> None" if "?R u" for u s
    using that Suc type_static_length_total[OF Suc.prems(1), of u n] by simp_all
  show ?case
  proof (cases "ty_kind ob")
    case (TUnit ps "is")
    have "\<exists>s'. dep_unit_items (static_serialized_length n ts) (dep_type n ts) is s = Some s'"
    proof (rule dep_unit_items_total[where R = ?R and ts = ts])
      fix b f e cs assume "cases_ok ts ?R cs"
      then show "static_serialized_length n ts (Switch b f e cs) \<noteq> None"
        using field_static_length_total(3)[OF below(2)] by (simp add: static_serialized_length_def)
    qed (use below ranked_unit[OF Suc.prems(1) ob TUnit] in auto)
    then show ?thesis using ob TUnit by simp
  qed (simp_all add: ob)
qed simp

lemma dep_unit_items_stuck:
  assumes "UnitField b f \<in> set is" "it_type b = Some t" "\<And>s. dunit t s = None"
  shows "dep_unit_items slen dunit is s = None"
  using assms(1)
proof (induction "is" arbitrary: s)
  case (Cons i "is")
  show ?case
  proof (cases "i = UnitField b f")
    case True
    then show ?thesis using assms(2,3) by (simp add: Let_def bind_eq_None_conv) 
  next
    case False
    then show ?thesis using Cons by (auto simp: Let_def split: bind_splits)
  qed
qed simp

section \<open>Properties\<close>

text \<open>C22: on a specification whose unit types do not contain each other in a cycle and whose items are
  complete, the passes return: the static length of every type, the length expression of every unit, the
  two lengths of every field of a unit, and the dependency map builder.  The number of nested types bounds
  the depth of their recursion.\<close>

theorem passes_return:
  assumes "ranked ts r" "ts t \<noteq> None" "r t < n"
  shows "type_static_length n ts t \<noteq> None \<and> dep_run n ts t \<noteq> None \<and>
    (\<forall>is. unit_items ts t = Some is \<longrightarrow> unit_serialized_length n ts t \<noteq> None \<and>
      (\<forall>i\<in>set is. is_field i \<longrightarrow> static_serialized_length n ts i \<noteq> None \<and> serialized_length n ts i \<noteq> None))"
  using type_static_length_total[OF assms] dep_type_total[OF assms] unit_serialized_length_total[OF assms(1) _ assms(3)]
    item_lengths_total[OF assms(1) _ _ _ assms(3)]
  by (simp add: dep_run_def)

theorem passes_return_witness:
  "dep_run 3 sample_types 5 \<noteq> None \<and>
   unit_serialized_length 3 (\<lambda>t. if t = 4 then None else sample_types t) 5 \<noteq> None"
proof -
  let ?ts = "\<lambda>t. if t = 4 then None else sample_types t"
  have "ranked ?ts (\<lambda>t. if t = 5 then 2 else if t = 3 then 1 else 0)"
    unfolding ranked_def
    by (auto simp: sample_defs field_ok_def base_ok_def serialized_type_def unit_items_def split: if_splits)
  then have "dep_run 3 ?ts 5 \<noteq> None \<and> unit_serialized_length 3 ?ts 5 \<noteq> None"
    using passes_return[of ?ts _ 5 3] by (simp add: sample_types_def unit_items_def plain_type_def)
  moreover have "dep_run 3 ?ts 5 = dep_run 3 sample_types 5" by code_simp
  ultimately show ?thesis by simp
qed

text \<open>C26: a unit that has a field of its own type sends the dependency map builder into an endless
  recursion: no amount of fuel lets it return.\<close>

theorem recursive_unit_diverges:
  assumes "unit_items ts t = Some is" "UnitField b f \<in> set is" "it_type b = Some t"
  shows "dep_run n ts t = None"
proof -
  have "dep_type n ts t s = None" for s
  proof (induction n arbitrary: s)
    case (Suc n)
    then show ?case
      using assms(1) dep_unit_items_stuck[OF assms(2,3), of "dep_type n ts"]
      by (auto simp: unit_items_def split: option.splits type_kind.splits)
  qed simp
  then show ?thesis by (simp add: dep_run_def)
qed

theorem recursive_unit_diverges_witness: "dep_run 1000 sample_types 4 = None"
  by (rule recursive_unit_diverges[of sample_types 4 "[UnitField (plain_base ''next'' 4 4 []) plain_field]"
        "plain_base ''next'' 4 4 []" plain_field])
     (simp_all add: unit_items_def sample_types_def plain_type_def plain_base_def)

end
