(* ===== verification/Decimal.thy ===== *)
theory Decimal
  imports Util_String
begin

text \<open>
  Decimal text of numbers, as \<^verbatim>\<open>std::to_string\<close> and the \<^verbatim>\<open>%d\<close> and \<^verbatim>\<open>%i\<close> conversions of the format
  functions produce it.  Distinct numbers have distinct texts, and the texts consist of digits only;
  the uniqueness of generated names and labels rests on that.
\<close>

definition digit_char :: "nat \<Rightarrow> char" where
  "digit_char d = char_of (48 + d)"

fun dec_nat :: "nat \<Rightarrow> string" where
  "dec_nat n = (if n < 10 then [digit_char n] else dec_nat (n div 10) @ [digit_char (n mod 10)])"

declare dec_nat.simps [simp del]

definition dec_int :: "int \<Rightarrow> string" where
  "dec_int i = (if i < 0 then CHR ''-'' # dec_nat (nat (- i)) else dec_nat (nat i))"

primrec dec_val :: "nat \<Rightarrow> string \<Rightarrow> nat" where
  "dec_val a [] = a"
| "dec_val a (c # s) = dec_val (10 * a + (of_char c - 48)) s"

lemma digit_char_val [simp]: "d < 10 \<Longrightarrow> of_char (digit_char d) = (48 + d :: nat)"
  by (simp add: digit_char_def of_char_of)

lemma dec_val_append: "dec_val a (s @ t) = dec_val (dec_val a s) t"
  by (induction s arbitrary: a) simp_all

lemma dec_val_dec_nat [simp]: "dec_val 0 (dec_nat n) = n"
proof (induction n rule: dec_nat.induct)
  case (1 n)
  then show ?case by (subst dec_nat.simps) (simp add: dec_val_append)
qed

lemma dec_nat_inj [simp]: "dec_nat m = dec_nat n \<longleftrightarrow> m = n"
  by (metis dec_val_dec_nat)

lemma dec_nat_nonempty [simp]: "dec_nat n \<noteq> []"
  by (subst dec_nat.simps) simp

lemma digit_char_isdigit: "d < 10 \<Longrightarrow> c_isdigit (digit_char d)"
  by (simp add: c_isdigit_def less_eq_char_def)

lemma dec_nat_digits: "c \<in> set (dec_nat n) \<Longrightarrow> c_isdigit c"
proof (induction n rule: dec_nat.induct)
  case (1 n)
  show ?case
  proof (cases "n < 10")
    case True
    then show ?thesis using 1(2) digit_char_isdigit by (simp add: dec_nat.simps[of n])
  next
    case False
    then have "c \<in> set (dec_nat (n div 10)) \<or> c = digit_char (n mod 10)" using 1(2) by (auto simp: dec_nat.simps[of n])
    then show ?thesis using 1(1) False digit_char_isdigit[of "n mod 10"] by auto
  qed
qed

lemma dec_nat_no_char: "\<not> c_isdigit c \<Longrightarrow> c \<notin> set (dec_nat n)"
  using dec_nat_digits by blast

lemma dec_int_inj [simp]: "dec_int i = dec_int j \<longleftrightarrow> i = j"
proof -
  have "dec_nat n \<noteq> CHR ''-'' # s" for n s
    using dec_nat_no_char[of "CHR ''-''" n] by (auto simp: c_isdigit_def)
  then show ?thesis by (auto simp: dec_int_def dest: sym)
qed

end
