(* ===== verification/Clone.thy ===== *)
theory Clone
  imports Unit_Length Decimal
begin

text \<open>
  Copying syntax: the \<^verbatim>\<open>clone\<close> methods of \<^verbatim>\<open>spec/ast/expression/*.cpp\<close>, \<^verbatim>\<open>attribute.cpp\<close> and
  \<^verbatim>\<open>type/unit.cpp\<close>.

  New nodes need an address and anonymous items a number; both come from the record \<open>alloc\<close>, which
  holds the type store, the next free address and the static counter \<^verbatim>\<open>Item::id_counter_\<close>.  A clone
  of an expression equals the expression as a tree; what the functions below add is where cloning
  dereferences a null pointer (\<^const>\<open>None\<close>) and which members the constructors called by the
  clone methods do not copy.
\<close>

record alloc =
  al_types :: type_store
  al_next :: taddr
  al_anon :: nat

definition new_type :: "type_obj \<Rightarrow> alloc \<Rightarrow> taddr \<times> alloc" where
  "new_type ob a = (al_next a, a\<lparr>al_types := (al_types a)(al_next a \<mapsto> ob), al_next := al_next a + 1\<rparr>)"

definition bytes_type :: type_obj where
  "bytes_type = \<lparr>ty_kind = TBytes, ty_id = None, ty_wildcard = False\<rparr>"

section \<open>Expressions and attributes\<close>

fun clone_expr :: "expr \<Rightarrow> expr option"
and clone_exprs :: "expr list \<Rightarrow> expr list option" where
  "clone_expr (EAssign dst src) = do { d \<leftarrow> clone_expr dst; s \<leftarrow> clone_expr src; Some (EAssign d s) }"
| "clone_expr (EConditional c t f) =
     do { f' \<leftarrow> (case f of None \<Rightarrow> Some None | Some x \<Rightarrow> map_option Some (clone_expr x));
          c' \<leftarrow> clone_expr c; t' \<leftarrow> clone_expr t; Some (EConditional c' t' f') }"
| "clone_expr (EFind l ci ce fi fe nf) =
     do { l' \<leftarrow> clone_expr l; ce' \<leftarrow> clone_expr ce; fe' \<leftarrow> clone_expr fe;
          (case nf of
             None \<Rightarrow> None
           | Some x \<Rightarrow> do { x' \<leftarrow> clone_expr x; Some (EFind l' ci ce' fi fe' (Some x')) }) }"
| "clone_expr (ELambda i e) = do { e' \<leftarrow> clone_expr e; Some (ELambda i e') }"
| "clone_expr (EListComprehension out v inp p) =
     do { out' \<leftarrow> clone_expr out; inp' \<leftarrow> clone_expr inp;
          (case p of
             None \<Rightarrow> None
           | Some x \<Rightarrow> do { x' \<leftarrow> clone_expr x; Some (EListComprehension out' v inp' (Some x')) }) }"
| "clone_expr (EOperator kind ops) = do { ops' \<leftarrow> clone_exprs ops; Some (EOperator kind ops') }"
| "clone_expr e = Some e"
| "clone_exprs [] = Some []"
| "clone_exprs (e # es) = do { e' \<leftarrow> clone_expr e; es' \<leftarrow> clone_exprs es; Some (e' # es') }"

definition clone_cond :: "expr option \<Rightarrow> expr option option" where
  "clone_cond c = (case c of None \<Rightarrow> Some None | Some e \<Rightarrow> map_option Some (clone_expr e))"

definition clone_attribute :: "attribute \<Rightarrow> attribute option" where
  "clone_attribute a =
     (case attr_value a of
        None \<Rightarrow> None
      | Some e \<Rightarrow> map_option (\<lambda>e'. Attribute (attr_key a) (Some e') (attr_internal a)) (clone_expr e))"

fun clonedAttributes :: "attribute list \<Rightarrow> attribute list option" where
  "clonedAttributes [] = Some []"
| "clonedAttributes (a # as) =
     do { a' \<leftarrow> clone_attribute a; as' \<leftarrow> clonedAttributes as; Some (a' # as') }"

section \<open>Items\<close>

definition Item :: "ident option \<Rightarrow> taddr option \<Rightarrow> attribute list \<Rightarrow> alloc \<Rightarrow> item_base \<times> alloc" where
  "Item i t attrs al =
     (let mk = (\<lambda>name anon. \<lparr>it_id = name, it_anonymous = anon, it_parsing_only = False,
                              it_app_accessible = True, it_type = t, it_serialized_type = None,
                              it_attributes = AttributeMap attrs, it_unit = None\<rparr>)
      in case i of
           Some name \<Rightarrow> (mk name False, al)
         | None \<Rightarrow> (mk [''__anon'' @ dec_nat (al_anon al + 1)] True, al\<lparr>al_anon := al_anon al + 1\<rparr>))"

definition clone_flags :: "item_base \<Rightarrow> item_base \<Rightarrow> item_base" where
  "clone_flags b v =
     v\<lparr>it_anonymous := it_anonymous b, it_parsing_only := it_parsing_only b,
       it_serialized_type := (if it_serialized_type b = None then it_serialized_type v
                              else it_serialized_type b)\<rparr>"

definition clone_base :: "item_base \<Rightarrow> taddr option \<Rightarrow> alloc \<Rightarrow> (item_base \<times> alloc) option" where
  "clone_base b t al =
     (case clonedAttributes (it_attributes b) of
        None \<Rightarrow> None
      | Some attrs \<Rightarrow> (case Item (Some (it_id b)) t attrs al of (v, al') \<Rightarrow> Some (clone_flags b v, al')))"

definition clone_field :: "field_base \<Rightarrow> bool \<Rightarrow> field_base option" where
  "clone_field f with_parameters =
     do { sinks \<leftarrow> clone_exprs (fd_sinks f);
          params \<leftarrow> (if with_parameters then clone_exprs (fd_parameters f) else Some []);
          cond \<leftarrow> clone_cond (fd_condition f);
          Some \<lparr>fd_condition = cond, fd_parameters = params, fd_sinks = sinks\<rparr> }"

fun clone_item :: "item \<Rightarrow> alloc \<Rightarrow> (item \<times> alloc) option"
and clone_items :: "item list \<Rightarrow> alloc \<Rightarrow> (item list \<times> alloc) option"
and clone_cases :: "switch_case list \<Rightarrow> alloc \<Rightarrow> (switch_case list \<times> alloc) option" where
  "clone_item (Variable b d) al =
     do { d' \<leftarrow> clone_cond d;
          attrs \<leftarrow> clonedAttributes (it_attributes b);
          let (v, al') = Item (Some (it_id b)) (it_type b) attrs al;
          Some (Variable (v\<lparr>it_parsing_only := it_parsing_only b\<rparr>) d', al') }"
| "clone_item (Property b p) al =
     do { p' \<leftarrow> clone_attribute p;
          i \<leftarrow> ID (''%'' @ attr_key p');
          let (v, al') = Item (Some i) None [] al;
          Some (Property v p', al') }"
| "clone_item (AtomicType b f) al =
     do { f' \<leftarrow> clone_field f False; (b', al') \<leftarrow> clone_base b (it_type b) al; Some (AtomicType b' f', al') }"
| "clone_item (ConstantField b f c) al =
     do { f' \<leftarrow> clone_field f False; (b', al') \<leftarrow> clone_base b (it_type b) al; Some (ConstantField b' f' c, al') }"
| "clone_item (CtorField b f c) al =
     do { f' \<leftarrow> clone_field f False;
          let (t, al1) = new_type bytes_type al;
          (b', al') \<leftarrow> clone_base b (Some t) al1;
          Some (CtorField b' f' c, al') }"
| "clone_item (UnknownField b f i) al =
     do { f' \<leftarrow> clone_field f True; (b', al') \<leftarrow> clone_base b None al; Some (UnknownField b' f' i, al') }"
| "clone_item (UnitField b f) al =
     do { f' \<leftarrow> clone_field f True; (b', al') \<leftarrow> clone_base b (it_type b) al; Some (UnitField b' f', al') }"
| "clone_item (Switch b f e cs) al =
     do { _ \<leftarrow> clone_exprs (fd_sinks f);
          (cs', al1) \<leftarrow> clone_cases cs al;
          cond \<leftarrow> clone_cond (fd_condition f);
          e' \<leftarrow> clone_cond e;
          let (v, al') = Item None None [] al1;
          Some (Switch (v\<lparr>it_id := it_id b, it_anonymous := it_anonymous b, it_parsing_only := it_parsing_only b\<rparr>)
                  \<lparr>fd_condition = cond, fd_parameters = [], fd_sinks = []\<rparr> e' cs', al') }"
| "clone_item (Vector b f inner len) al =
     do { f' \<leftarrow> clone_field f False;
          (inner', al1) \<leftarrow> clone_item inner al;
          len' \<leftarrow> clone_expr len;
          let (t, al2) = new_type bytes_type al1;
          (b', al') \<leftarrow> clone_base b (Some t) al2;
          Some (Vector b' f' inner' len', al') }"
| "clone_item (ListField b f inner) al =
     do { f' \<leftarrow> clone_field f False;
          (inner', al1) \<leftarrow> clone_item inner al;
          let (t, al2) = new_type bytes_type al1;
          (b', al') \<leftarrow> clone_base b (Some t) al2;
          Some (ListField b' f' inner', al') }"
| "clone_items [] al = Some ([], al)"
| "clone_items (i # is) al =
     do { (i', al1) \<leftarrow> clone_item i al; (is', al2) \<leftarrow> clone_items is al1; Some (i' # is', al2) }"
| "clone_cases [] al = Some ([], al)"
| "clone_cases (Case es is d # cs) al =
     do { es' \<leftarrow> clone_exprs es;
          (is', al1) \<leftarrow> clone_items is al;
          (cs', al2) \<leftarrow> clone_cases cs al1;
          Some (Case es' is' False # cs', al2) }"

end
