(* ===== verification/Module.thy ===== *)
theory Module
  imports Ast Dep_Closure
begin

text \<open>
  Modules and declarations (\<^verbatim>\<open>spec/ast/module.cpp\<close>, \<^verbatim>\<open>spec/ast/declaration\<close>), and how the compiler merges a module
  with the files it includes.

  The identifier of a function or transform declaration is that of its function or transform.  The items
  of an instantiation are their identifiers, all that the dependency resolver reads of them.
\<close>

datatype linkage = EXPORTED | PRIVATE | IMPORTED

record inst_node =
  ui_id :: ident
  ui_linkage :: linkage
  ui_unit_id :: ident
  ui_unit :: "taddr option"
  ui_items :: "ident list"
  ui_dependencies :: "dependency list"
  ui_compacted :: "(ident \<times> taddr) list"

definition Instantiation :: "ident \<Rightarrow> ident \<Rightarrow> ident list \<Rightarrow> inst_node" where
  "Instantiation i unit_id items =
     \<lparr>ui_id = i, ui_linkage = EXPORTED, ui_unit_id = unit_id, ui_unit = None, ui_items = items,
      ui_dependencies = [], ui_compacted = []\<rparr>"

datatype decl =
  DConstant ident linkage expr
| DFunction linkage function_node
| DTransform linkage transform_node
| DType ident linkage taddr
| DInstantiation inst_node

text \<open>\<open>mo_units\<close> are the units whose \<^verbatim>\<open>module_\<close> the module is.\<close>

record module_node =
  mo_id :: ident
  mo_properties :: "attribute list"
  mo_decls :: "decl list"
  mo_units :: "taddr list"

definition is_unit :: "type_store \<Rightarrow> taddr \<Rightarrow> bool" where
  "is_unit ts t = (case ts t of Some ob \<Rightarrow> (case ty_kind ob of TUnit ps is \<Rightarrow> True | _ \<Rightarrow> False) | None \<Rightarrow> False)"

definition addDeclaration :: "type_store \<Rightarrow> decl \<Rightarrow> module_node \<Rightarrow> module_node" where
  "addDeclaration ts d m =
     (let m1 = m\<lparr>mo_decls := mo_decls m @ [d]\<rparr>
      in case d of
           DType i l t \<Rightarrow> if is_unit ts t then m1\<lparr>mo_units := mo_units m1 @ [t]\<rparr> else m1
         | _ \<Rightarrow> m1)"

definition addDeclarations :: "type_store \<Rightarrow> decl list \<Rightarrow> module_node \<Rightarrow> module_node" where
  "addDeclarations ts ds m = foldl (\<lambda>m d. addDeclaration ts d m) m ds"

definition addProperty :: "attribute \<Rightarrow> module_node \<Rightarrow> module_node" where
  "addProperty p m = m\<lparr>mo_properties := attrs_add p (mo_properties m)\<rparr>"

text \<open>Merging a module with a file it includes, as \<^verbatim>\<open>Compiler::run\<close> does: the declarations of \<open>m\<close> go to the
  included module \<open>m2\<close>, with which the compiler continues; the properties of \<open>m\<close> are added to \<open>m\<close>.\<close>

definition merge_include :: "type_store \<Rightarrow> module_node \<Rightarrow> module_node \<Rightarrow> module_node \<times> module_node" where
  "merge_include ts m m2 =
     (let m2' = addDeclarations ts (mo_decls m) m2;
          m' = foldl (\<lambda>m p. addProperty p m) m (mo_properties m)
      in (m', m2'))"

end
