(* ===== verification/Inst_Type.thy ===== *)
theory Inst_Type
  imports Clone Module
begin

text \<open>
  The pass that builds the compacted unit of an instantiation
  (\<^verbatim>\<open>generation/preprocessing/instantiation_type_generator.cpp\<close>).

  Items some dependency asks for are copied; every maximal run of unneeded fields with a known
  length becomes one anonymous bytes field of the summed length; unneeded fields of unknown length
  are copied, unneeded variables dropped.  The copies then get their parser-state expressions
  redirected to the new unit.  The fuel \<open>n\<close> is the nesting depth of units the length computations
  may follow; \<^const>\<open>None\<close> stands for a dereferenced null pointer or exhausted fuel.
\<close>

section \<open>Redirecting parser-state expressions\<close>

fun replace_self :: "taddr \<Rightarrow> expr \<Rightarrow> expr"
and replace_selfs :: "taddr \<Rightarrow> expr list \<Rightarrow> expr list" where
  "replace_self u (EAssign dst src) = EAssign (replace_self u dst) (replace_self u src)"
| "replace_self u (EConditional c t f) =
     EConditional (replace_self u c) (replace_self u t)
       (case f of None \<Rightarrow> None | Some x \<Rightarrow> Some (replace_self u x))"
| "replace_self u (EFind l ci ce fi fe nf) =
     EFind (replace_self u l) ci (replace_self u ce) fi (replace_self u fe)
       (case nf of None \<Rightarrow> None | Some x \<Rightarrow> Some (replace_self u x))"
| "replace_self u (ELambda i e) = ELambda i (replace_self u e)"
| "replace_self u (EListComprehension out v inp p) =
     EListComprehension (replace_self u out) v (replace_self u inp)
       (case p of None \<Rightarrow> None | Some x \<Rightarrow> Some (replace_self u x))"
| "replace_self u (EOperator kind ops) = EOperator kind (replace_selfs u ops)"
| "replace_self u (EParserState kind i _ t) =
     EParserState kind i (Some u) (if kind = SELF then Some u else t)"
| "replace_self u e = e"
| "replace_selfs u [] = []"
| "replace_selfs u (e # es) = replace_self u e # replace_selfs u es"

definition replace_attr :: "taddr \<Rightarrow> attribute \<Rightarrow> attribute option" where
  "replace_attr u a =
     (case attr_value a of
        None \<Rightarrow> None
      | Some e \<Rightarrow> Some (Attr (attr_key a) (Some (replace_self u e)) (attr_internal a)))"

fun replace_attrs :: "taddr \<Rightarrow> attribute list \<Rightarrow> attribute list option" where
  "replace_attrs u [] = Some []"
| "replace_attrs u (a # as) = do { a' \<leftarrow> replace_attr u a; as' \<leftarrow> replace_attrs u as; Some (a' # as') }"

definition replace_base :: "taddr \<Rightarrow> item_base \<Rightarrow> item_base option" where
  "replace_base u b = map_option (\<lambda>as. b\<lparr>it_attributes := as\<rparr>) (replace_attrs u (it_attributes b))"

definition replace_field :: "taddr \<Rightarrow> field_base \<Rightarrow> field_base" where
  "replace_field u f =
     f\<lparr>fd_parameters := replace_selfs u (fd_parameters f), fd_sinks := replace_selfs u (fd_sinks f)\<rparr>"

fun replace_item :: "taddr \<Rightarrow> item \<Rightarrow> item option" where
  "replace_item u (Variable b d) =
     map_option (\<lambda>b'. Variable b' (map_option (replace_self u) d)) (replace_base u b)"
| "replace_item u (Property b p) =
     do { b' \<leftarrow> replace_base u b; p' \<leftarrow> replace_attr u p; Some (Property b' p') }"
| "replace_item u (AtomicType b f) =
     map_option (\<lambda>b'. AtomicType b' (replace_field u f)) (replace_base u b)"
| "replace_item u (ConstantField b f c) =
     map_option (\<lambda>b'. ConstantField b' (replace_field u f) c) (replace_base u b)"
| "replace_item u (CtorField b f c) =
     map_option (\<lambda>b'. CtorField b' (replace_field u f) c) (replace_base u b)"
| "replace_item u (UnknownField b f i) =
     map_option (\<lambda>b'. UnknownField b' (replace_field u f) i) (replace_base u b)"
| "replace_item u (UnitField b f) =
     map_option (\<lambda>b'. UnitField b' (replace_field u f)) (replace_base u b)"
| "replace_item u (Switch b f e cs) =
     map_option (\<lambda>b'. Switch b' (replace_field u f) (map_option (replace_self u) e) cs) (replace_base u b)"
| "replace_item u (Vector b f inner len) =
     map_option (\<lambda>b'. Vector b' (replace_field u f) inner (replace_self u len)) (replace_base u b)"
| "replace_item u (ListField b f inner) =
     map_option (\<lambda>b'. ListField b' (replace_field u f) inner) (replace_base u b)"

fun replace_items :: "taddr \<Rightarrow> item list \<Rightarrow> item list option" where
  "replace_items u [] = Some []"
| "replace_items u (i # is) =
     do { i' \<leftarrow> replace_item u i; is' \<leftarrow> replace_items u is; Some (i' # is') }"

section \<open>Unit types\<close>

definition base_set_unit :: "taddr \<Rightarrow> item_base \<Rightarrow> item_base" where
  "base_set_unit u b = b\<lparr>it_unit := Some u\<rparr>"

fun set_unit :: "taddr \<Rightarrow> item \<Rightarrow> item"
and set_units :: "taddr \<Rightarrow> item list \<Rightarrow> item list"
and set_unit_cases :: "taddr \<Rightarrow> switch_case list \<Rightarrow> switch_case list" where
  "set_unit u (Variable b d) = Variable (base_set_unit u b) d"
| "set_unit u (Property b p) = Property (base_set_unit u b) p"
| "set_unit u (AtomicType b f) = AtomicType (base_set_unit u b) f"
| "set_unit u (ConstantField b f c) = ConstantField (base_set_unit u b) f c"
| "set_unit u (CtorField b f c) = CtorField (base_set_unit u b) f c"
| "set_unit u (UnknownField b f i) = UnknownField (base_set_unit u b) f i"
| "set_unit u (UnitField b f) = UnitField (base_set_unit u b) f"
| "set_unit u (Switch b f e cs) = Switch (base_set_unit u b) f e (set_unit_cases u cs)"
| "set_unit u (Vector b f inner len) = Vector (base_set_unit u b) f (set_unit u inner) len"
| "set_unit u (ListField b f inner) = ListField (base_set_unit u b) f (set_unit u inner)"
| "set_units u [] = []"
| "set_units u (i # is) = set_unit u i # set_units u is"
| "set_unit_cases u [] = []"
| "set_unit_cases u (Case es is d # cs) = Case es (set_units u is) d # set_unit_cases u cs"

section \<open>The pass\<close>

record type_generator =
  tg_deps :: "dependency list"
  tg_decls :: "(ident \<times> taddr) list"
  tg_unit_name :: ident
  tg_unit_id :: ident
  tg_items :: "item list"
  tg_compactable :: "item list"
  tg_alloc :: alloc

definition dependencyContextFor :: "dependency list \<Rightarrow> ident \<Rightarrow> nat" where
  "dependencyContextFor deps i =
     foldl (\<lambda>c d. if prefixOf (dep_id d) i then c OR dep_context d else c) 0 deps"

definition push_item :: "item \<Rightarrow> type_generator \<Rightarrow> type_generator" where
  "push_item i s = s\<lparr>tg_items := tg_items s @ [i]\<rparr>"

definition copyItem :: "item \<Rightarrow> type_generator \<Rightarrow> (item \<times> type_generator) option" where
  "copyItem i s =
     map_option (\<lambda>(i', al). (i', s\<lparr>tg_alloc := al\<rparr>)) (clone_item i (tg_alloc s))"

definition addFieldOfLength :: "expr \<Rightarrow> type_generator \<Rightarrow> type_generator option" where
  "addFieldOfLength len s =
     (let (t, al1) = new_type bytes_type (tg_alloc s);
          (b, al2) = Item None (Some t) [] al1
      in map_option
           (\<lambda>len'. push_item
              (AtomicType (b\<lparr>it_app_accessible := False,
                             it_attributes := attrs_add (Attribute ''length'' (Some len') False) (it_attributes b)\<rparr>)
                 \<lparr>fd_condition = None, fd_parameters = [], fd_sinks = []\<rparr>)
              (s\<lparr>tg_alloc := al2\<rparr>))
           (clone_expr len))"

fun compact_loop :: "nat \<Rightarrow> item list \<Rightarrow> expr option \<Rightarrow> type_generator \<Rightarrow> type_generator option" where
  "compact_loop n [] None s = Some s"
| "compact_loop n [] (Some len) s = addFieldOfLength len s"
| "compact_loop n (f # fs) len s =
     do { f_len \<leftarrow> serialized_length n (al_types (tg_alloc s)) f;
          (case f_len of
             Some l \<Rightarrow>
               compact_loop n fs
                 (Some (case len of Some l0 \<Rightarrow> EOperator op_Plus [l0, l] | None \<Rightarrow> l)) s
           | None \<Rightarrow>
               do { s1 \<leftarrow> (case len of Some l0 \<Rightarrow> addFieldOfLength l0 s | None \<Rightarrow> Some s);
                    (f', s2) \<leftarrow> copyItem f s1;
                    compact_loop n fs None (push_item f' s2) }) }"

definition compactAndAddItems :: "nat \<Rightarrow> type_generator \<Rightarrow> type_generator option" where
  "compactAndAddItems n s =
     map_option (\<lambda>s'. s'\<lparr>tg_compactable := []\<rparr>) (compact_loop n (tg_compactable s) None s)"

fun map_base :: "(item_base \<Rightarrow> item_base) \<Rightarrow> item \<Rightarrow> item" where
  "map_base g (Variable b d) = Variable (g b) d"
| "map_base g (Property b p) = Property (g b) p"
| "map_base g (AtomicType b f) = AtomicType (g b) f"
| "map_base g (ConstantField b f c) = ConstantField (g b) f c"
| "map_base g (CtorField b f c) = CtorField (g b) f c"
| "map_base g (UnknownField b f i) = UnknownField (g b) f i"
| "map_base g (UnitField b f) = UnitField (g b) f"
| "map_base g (Switch b f e cs) = Switch (g b) f e cs"
| "map_base g (Vector b f inner len) = Vector (g b) f inner len"
| "map_base g (ListField b f inner) = ListField (g b) f inner"

definition set_parsing_only :: "item \<Rightarrow> item" where
  "set_parsing_only = map_base (\<lambda>b. b\<lparr>it_parsing_only := True\<rparr>)"

definition generate_item :: "nat \<Rightarrow> item \<Rightarrow> type_generator \<Rightarrow> type_generator option" where
  "generate_item n i s =
     (let ctx = dependencyContextFor (tg_deps s) (combineIDs (tg_unit_id s) (item_id i))
      in if ctx \<noteq> 0 then
           do { s1 \<leftarrow> (if is_variable i then Some s else compactAndAddItems n s);
                (i', s2) \<leftarrow> copyItem i s1;
                Some (push_item (if ctx = CONTEXT_PARSING then set_parsing_only i' else i') s2) }
         else if is_field i then Some (s\<lparr>tg_compactable := tg_compactable s @ [i]\<rparr>)
         else if is_variable i then Some s
         else do { (i', s1) \<leftarrow> copyItem i s; Some (push_item i' s1) })"

fun generate_items :: "nat \<Rightarrow> item list \<Rightarrow> type_generator \<Rightarrow> type_generator option" where
  "generate_items n [] s = Some s"
| "generate_items n (i # is) s = do { s1 \<leftarrow> generate_item n i s; generate_items n is s1 }"

definition generate_unit ::
  "nat \<Rightarrow> parameter list \<Rightarrow> item list \<Rightarrow> type_generator \<Rightarrow> type_generator option" where
  "generate_unit n ps is s =
     do { s1 \<leftarrow> generate_items n is (s\<lparr>tg_items := []\<rparr>);
          s2 \<leftarrow> compactAndAddItems n s1;
          let u = al_next (tg_alloc s2);
          items \<leftarrow> replace_items u (set_units u (tg_items s2));
          let (u', al) = new_type \<lparr>ty_kind = TUnit ps items, ty_id = Some (tg_unit_name s2),
                                   ty_wildcard = False\<rparr> (tg_alloc s2);
          Some (s2\<lparr>tg_alloc := al, tg_decls := tg_decls s2 @ [(tg_unit_name s2, u')]\<rparr>) }"

definition generate_instantiation ::
  "nat \<Rightarrow> ident \<Rightarrow> taddr \<Rightarrow> dependency list \<Rightarrow> alloc \<Rightarrow> ((ident \<times> taddr) list \<times> alloc) option" where
  "generate_instantiation n name u deps al =
     (case al_types al u of
        None \<Rightarrow> None
      | Some ob \<Rightarrow>
          (case ty_kind ob of
             TUnit ps is \<Rightarrow>
               map_option (\<lambda>s. (tg_decls s, tg_alloc s))
                 (generate_unit n ps is
                    \<lparr>tg_deps = deps, tg_decls = [], tg_unit_name = name, tg_unit_id = [],
                     tg_items = [], tg_compactable = [], tg_alloc = al\<rparr>)
           | _ \<Rightarrow> None))"

text \<open>The pass visits the declarations of the module.  An instantiation gets the units made for it, which stay
  declarations of the instantiation only; an instantiation whose unit is not resolved is a null pointer.\<close>

definition visit_instantiation :: "nat \<Rightarrow> inst_node \<Rightarrow> alloc \<Rightarrow> (inst_node \<times> alloc) option" where
  "visit_instantiation n d al =
     do { u \<leftarrow> ui_unit d;
          (decls, al') \<leftarrow> generate_instantiation n (ui_id d) u (ui_dependencies d) al;
          Some (d\<lparr>ui_compacted := decls\<rparr>, al') }"

fun visit_declarations :: "nat \<Rightarrow> decl list \<Rightarrow> alloc \<Rightarrow> (decl list \<times> alloc) option" where
  "visit_declarations n [] al = Some ([], al)"
| "visit_declarations n (d # ds) al =
     do { (d', al1) \<leftarrow> (case d of
             DInstantiation x \<Rightarrow> map_option (\<lambda>(x', al'). (DInstantiation x', al')) (visit_instantiation n x al)
           | _ \<Rightarrow> Some (d, al));
          (ds', al2) \<leftarrow> visit_declarations n ds al1;
          Some (d' # ds', al2) }"

definition run_type_generator :: "nat \<Rightarrow> module_node \<Rightarrow> alloc \<Rightarrow> (module_node \<times> alloc) option" where
  "run_type_generator n m al =
     map_option (\<lambda>(ds, al'). (m\<lparr>mo_decls := ds\<rparr>, al')) (visit_declarations n (mo_decls m) al)"

end
