(* ===== verification/Store_Local.thy ===== *)
theory Store_Local
  imports Inst_Type
begin

text \<open>
  Lengths only depend on the part of the type store an item can reach.  A store is closed when no
  type object refers to an address that is not allocated yet; allocating new nodes in a closed store
  keeps every length, and so does cloning an item.
\<close>

section \<open>Closed stores\<close>

definition below :: "taddr \<Rightarrow> taddr option \<Rightarrow> bool" where
  "below N t = (case t of None \<Rightarrow> True | Some u \<Rightarrow> u < N)"

definition attrs_ok :: "attribute list \<Rightarrow> bool" where
  "attrs_ok as \<longleftrightarrow> attrs_sorted as \<and> (\<forall>a\<in>set as. strip_marks (attr_key a) = attr_key a)"

definition base_below :: "taddr \<Rightarrow> item_base \<Rightarrow> bool" where
  "base_below N b \<longleftrightarrow> below N (it_type b) \<and> below N (it_serialized_type b) \<and> attrs_ok (it_attributes b)"

fun item_below :: "taddr \<Rightarrow> item \<Rightarrow> bool"
and items_below :: "taddr \<Rightarrow> item list \<Rightarrow> bool"
and cases_below :: "taddr \<Rightarrow> switch_case list \<Rightarrow> bool" where
  "item_below N (Variable b d) = base_below N b"
| "item_below N (Property b p) = base_below N b"
| "item_below N (AtomicType b f) = base_below N b"
| "item_below N (ConstantField b f c) = base_below N b"
| "item_below N (CtorField b f c) = base_below N b"
| "item_below N (UnknownField b f i) = base_below N b"
| "item_below N (UnitField b f) = base_below N b"
| "item_below N (Switch b f e cs) = (base_below N b \<and> cases_below N cs)"
| "item_below N (Vector b f inner len) = (base_below N b \<and> item_below N inner)"
| "item_below N (ListField b f inner) = (base_below N b \<and> item_below N inner)"
| "items_below N [] = True"
| "items_below N (i # is) = (item_below N i \<and> items_below N is)"
| "cases_below N [] = True"
| "cases_below N (Case es is d # cs) = (items_below N is \<and> cases_below N cs)"

fun kind_below :: "taddr \<Rightarrow> type_kind \<Rightarrow> bool" where
  "kind_below N (TTuple tys) = list_all (\<lambda>t. t < N) tys"
| "kind_below N (TUnit ps is) = items_below N is"
| "kind_below N k = True"

definition closed_store :: "alloc \<Rightarrow> bool" where
  "closed_store al \<longleftrightarrow>
     (\<forall>u ob. al_types al u = Some ob \<longrightarrow> u < al_next al \<and> kind_below (al_next al) (ty_kind ob))"

definition extends :: "alloc \<Rightarrow> alloc \<Rightarrow> bool" where
  "extends al al' \<longleftrightarrow> al_next al \<le> al_next al' \<and> (\<forall>u < al_next al. al_types al' u = al_types al u)"

lemma extends_refl [simp]: "extends al al"
  by (simp add: extends_def)

lemma extends_trans: "extends a b \<Longrightarrow> extends b c \<Longrightarrow> extends a c"
  by (auto simp: extends_def)

lemma extends_next: "extends a b \<Longrightarrow> al_next a \<le> al_next b"
  by (simp add: extends_def)

lemma below_mono: "below N t \<Longrightarrow> N \<le> M \<Longrightarrow> below M t"
  by (auto simp: below_def split: option.splits)

lemma base_below_mono: "base_below N b \<Longrightarrow> N \<le> M \<Longrightarrow> base_below M b"
  by (auto simp: base_below_def intro: below_mono)

lemma item_below_mono:
  "item_below N i \<Longrightarrow> N \<le> M \<Longrightarrow> item_below M i"
  "items_below N is \<Longrightarrow> N \<le> M \<Longrightarrow> items_below M is"
  "cases_below N cs \<Longrightarrow> N \<le> M \<Longrightarrow> cases_below M cs"
  by (induction N i and N "is" and N cs rule: item_below_items_below_cases_below.induct)
    (auto intro: base_below_mono)

lemma items_below_list: "items_below N is \<longleftrightarrow> (\<forall>i\<in>set is. item_below N i)"
  by (induction "is") auto

lemma item_below_base: "item_below N i \<Longrightarrow> base_below N (base_of i)"
  by (cases i) auto

lemma kind_below_mono: "kind_below N k \<Longrightarrow> N \<le> M \<Longrightarrow> kind_below M k"
  by (cases k) (auto intro: item_below_mono(2) simp: list_all_iff)

section \<open>Lengths are local\<close>

lemma field_static_local:
  assumes "\<forall>t < N. tlen' t = tlen t" and "\<forall>t < N. ts' t = ts t"
  shows "item_below N i \<Longrightarrow> field_static_length ts' tlen' i = field_static_length ts tlen i"
    and "items_below N is \<Longrightarrow> fields_static_length ts' tlen' is l = fields_static_length ts tlen is l"
    and "cases_below N cs \<Longrightarrow> cases_static_length ts' tlen' cs fst' l = cases_static_length ts tlen cs fst' l"
  using assms
proof (induction ts tlen i and ts tlen "is" l and ts tlen cs fst' l
    rule: field_static_length_fields_static_length_cases_static_length.induct)
  case (1 ts tlen b f)
  then show ?case
    by (auto simp: serialized_type_def base_below_def below_def split: option.splits)
next
  case (5 ts tlen b f)
  then show ?case by (auto simp: unit_items_def base_below_def below_def split: option.splits)
qed (simp_all split: option.splits)

lemma types_static_local:
  "\<forall>t < N. tlen' t = tlen t \<Longrightarrow> list_all (\<lambda>t. t < N) tys \<Longrightarrow>
     types_static_length tlen' tys l = types_static_length tlen tys l"
  by (induction tys arbitrary: l) (auto split: option.splits)

lemma type_static_local:
  assumes "closed_store al" and "extends al al'"
  shows "t < al_next al \<Longrightarrow> type_static_length n (al_types al') t = type_static_length n (al_types al) t"
proof (induction n arbitrary: t)
  case (Suc n)
  have same: "\<forall>t < al_next al. al_types al' t = al_types al t"
    using assms(2) by (simp add: extends_def)
  show ?case
  proof (cases "al_types al t")
    case None
    then show ?thesis using same Suc.prems by simp
  next
    case (Some ob)
    then have "kind_below (al_next al) (ty_kind ob)"
      using assms(1) by (simp add: closed_store_def)
    then show ?thesis
      using same Suc Some
        types_static_local[of "al_next al" "type_static_length n (al_types al')" "type_static_length n (al_types al)"]
        field_static_local(2)[of "al_next al" "type_static_length n (al_types al')"
          "type_static_length n (al_types al)" "al_types al'" "al_types al"]
      by (cases "ty_kind ob") simp_all
  qed
qed simp

lemma field_default_local:
  "\<forall>t < N. tlen' t = tlen t \<Longrightarrow> \<forall>t < N. ts' t = ts t \<Longrightarrow> item_below N i \<Longrightarrow>
     field_default_length ts' tlen' i = field_default_length ts tlen i"
  using field_static_local(1)[of N tlen' tlen ts' ts i] by (simp add: field_default_length_def)

lemma field_serialized_local:
  assumes "\<forall>t < N. tlen' t = tlen t" and "\<forall>t < N. ts' t = ts t" and "\<forall>t < N. ulen' t = ulen t"
  shows "item_below N i \<Longrightarrow> field_serialized_length ts' tlen' ulen' i = field_serialized_length ts tlen ulen i"
  using assms
proof (induction ts tlen ulen i rule: field_serialized_length.induct)
  case (1 ts tlen ulen b f)
  then show ?case using field_default_local[OF 1(2,3,1)] by simp
next
  case (2 ts tlen ulen b f)
  then show ?case by (auto simp: unit_items_def base_below_def below_def split: option.splits)
next
  case (3 ts tlen ulen b f inner len)
  have default_: "field_default_length ts' tlen' (Vector b f inner len) = field_default_length ts tlen (Vector b f inner len)"
    using 3(3,4,2) by (rule field_default_local)
  have "item_below N inner" using 3(2) by simp
  then have "field_default_length ts tlen (Vector b f inner len) = Some None \<Longrightarrow>
      field_serialized_length ts' tlen' ulen' inner = field_serialized_length ts tlen ulen inner"
    using 3 by simp
  then show ?case
    by (cases "field_default_length ts tlen (Vector b f inner len) = Some None")
      (simp_all add: default_ split: option.split)
qed (simp_all add: field_default_local[where N = N and ts' = ts' and tlen' = tlen'])

lemma fields_serialized_local:
  assumes "\<forall>t < N. tlen' t = tlen t" and "\<forall>t < N. ts' t = ts t" and "\<forall>t < N. ulen' t = ulen t"
  shows "items_below N is \<Longrightarrow> fields_serialized_length ts' tlen' ulen' is l = fields_serialized_length ts tlen ulen is l"
  using field_serialized_local[OF assms] by (induction "is" arbitrary: l) (auto split: option.splits)

lemma unit_serialized_local:
  assumes "closed_store al" and "extends al al'"
  shows "t < al_next al \<Longrightarrow> unit_serialized_length n (al_types al') t = unit_serialized_length n (al_types al) t"
proof (induction n arbitrary: t)
  case (Suc n)
  have same: "\<forall>t < al_next al. al_types al' t = al_types al t"
    using assms(2) by (simp add: extends_def)
  show ?case
  proof (cases "al_types al t")
    case (Some ob)
    then have "kind_below (al_next al) (ty_kind ob)"
      using assms(1) by (simp add: closed_store_def)
    moreover have "\<forall>t < al_next al. type_static_length n (al_types al') t = type_static_length n (al_types al) t"
      using type_static_local[OF assms] by simp
    ultimately show ?thesis
      using same Suc Some
        fields_serialized_local[of "al_next al" "type_static_length n (al_types al')" "type_static_length n (al_types al)"
          "al_types al'" "al_types al" "unit_serialized_length n (al_types al')" "unit_serialized_length n (al_types al)"]
      by (cases "ty_kind ob") simp_all
  qed (use same Suc.prems in simp)
qed simp

lemma serialized_length_local:
  assumes "closed_store al" and "extends al al'" and "item_below (al_next al) i"
  shows "serialized_length n (al_types al') i = serialized_length n (al_types al) i"
  unfolding serialized_length_def
  by (rule field_serialized_local[OF _ _ _ assms(3)])
    (use type_static_local[OF assms(1,2)] unit_serialized_local[OF assms(1,2)] assms(2) in
      \<open>simp_all add: extends_def\<close>)

end
