(* ===== verification/Clone_Length.thy ===== *)
theory Clone_Length
  imports Store_Local
begin

text \<open>
  A clone has the length of the item it is made from, although the clone methods do not copy every
  member and allocate new type nodes.
\<close>

section \<open>Clones\<close>

definition faithful_copy :: "'a option \<Rightarrow> 'a \<Rightarrow> bool" where
  "faithful_copy m x \<longleftrightarrow> m = None \<or> m = Some x"

lemma faithful_copy_bind:
  "faithful_copy m x \<Longrightarrow> (m = Some x \<Longrightarrow> faithful_copy (f x) y) \<Longrightarrow> faithful_copy (m \<bind> f) y"
  by (auto simp: faithful_copy_def)

lemma faithful_copy_map: "faithful_copy m x \<Longrightarrow> faithful_copy (map_option Some m) (Some x)"
  by (auto simp: faithful_copy_def)

lemma faithful_copy_simps [simp]: "faithful_copy (Some x) x" "faithful_copy None x"
  by (simp_all add: faithful_copy_def)

lemmas clone_copy_intros =
  faithful_copy_bind[where m = "clone_expr z" and x = z for z]
  faithful_copy_bind[where m = "clone_exprs zs" and x = zs for zs]
  faithful_copy_bind[where m = "map_option Some (clone_expr z)" and x = "Some z" for z, OF faithful_copy_map]

lemma clone_expr_copy:
  "faithful_copy (clone_expr e) e"
  "faithful_copy (clone_exprs es) es"
  by (induction e and es rule: clone_expr_clone_exprs.induct)
    (auto intro!: clone_copy_intros split: option.split)

lemma clone_expr_same:
  "clone_expr e = Some e' \<Longrightarrow> e' = e"
  "clone_exprs es = Some es' \<Longrightarrow> es' = es"
  using clone_expr_copy(1)[of e] clone_expr_copy(2)[of es] by (simp_all add: faithful_copy_def)

lemma clone_attribute_same:
  "clone_attribute a = Some a' \<Longrightarrow> strip_marks (attr_key a) = attr_key a \<Longrightarrow> a' = a"
  by (cases a) (auto simp: clone_attribute_def Attribute_def split: option.splits dest: clone_expr_same(1))

lemma attrs_add_last: "\<forall>x\<in>set as. attr_key x < attr_key a \<Longrightarrow> attrs_add a as = as @ [a]"
proof (induction as)
  case (Cons b bs)
  then have "attr_key b < attr_key a" by simp
  then show ?case using Cons less_not_sym less_imp_neq by fastforce
qed simp

lemma AttributeMap_sorted: "attrs_sorted as \<Longrightarrow> AttributeMap as = as"
proof (induction as rule: rev_induct)
  case (snoc a as)
  then show ?case by (simp add: AttributeMap_def attrs_sorted_def sorted_wrt_append attrs_add_last)
qed (simp add: AttributeMap_def)

lemma clonedAttributes_same:
  "clonedAttributes as = Some as' \<Longrightarrow> \<forall>a\<in>set as. strip_marks (attr_key a) = attr_key a \<Longrightarrow> as' = as"
  by (induction as arbitrary: as') (auto simp: bind_eq_Some_conv dest: clone_attribute_same)

lemma clonedAttributes_map:
  "clonedAttributes as = Some as' \<Longrightarrow> attrs_ok as \<Longrightarrow> AttributeMap as' = as"
  using clonedAttributes_same AttributeMap_sorted by (simp add: attrs_ok_def) metis

lemma clone_base_same:
  assumes "clone_base b t al = Some (b', al')" and "attrs_ok (it_attributes b)"
  shows "al' = al \<and> b' = b\<lparr>it_type := t, it_app_accessible := True, it_unit := None\<rparr>"
  using assms by (auto simp: clone_base_def clone_flags_def Item_def clonedAttributes_map split: option.splits)

lemma new_type_extends: "new_type ob al = (t, al') \<Longrightarrow> extends al al'"
  by (auto simp: new_type_def extends_def)

lemma new_type_closed:
  "new_type ob al = (t, al') \<Longrightarrow> closed_store al \<Longrightarrow> kind_below (al_next al + 1) (ty_kind ob) \<Longrightarrow>
     closed_store al' \<and> t < al_next al'"
  using kind_below_mono[of "al_next al" _ "Suc (al_next al)"]
  by (auto simp: new_type_def closed_store_def less_SucI split: if_splits)

lemma new_bytes:
  assumes "new_type bytes_type al = (t, al')" and "closed_store al"
  shows "closed_store al'" and "t < al_next al'" and "extends al al'" and "al_next al \<le> al_next al'"
  using new_type_closed[OF assms] new_type_extends[OF assms(1)] by (simp_all add: bytes_type_def extends_def)

abbreviation static_in :: "nat \<Rightarrow> alloc \<Rightarrow> item \<Rightarrow> int option" where
  "static_in n al \<equiv> field_static_length (al_types al) (type_static_length n (al_types al))"

abbreviation statics_in :: "nat \<Rightarrow> alloc \<Rightarrow> item list \<Rightarrow> int \<Rightarrow> int option" where
  "statics_in n al \<equiv> fields_static_length (al_types al) (type_static_length n (al_types al))"

abbreviation switch_in :: "nat \<Rightarrow> alloc \<Rightarrow> switch_case list \<Rightarrow> bool \<Rightarrow> int \<Rightarrow> int option" where
  "switch_in n al \<equiv> cases_static_length (al_types al) (type_static_length n (al_types al))"

lemma static_in_local:
  assumes "closed_store al" and "extends al al'"
  shows "item_below (al_next al) i \<Longrightarrow> static_in n al' i = static_in n al i"
    and "items_below (al_next al) is \<Longrightarrow> statics_in n al' is l = statics_in n al is l"
    and "cases_below (al_next al) cs \<Longrightarrow> switch_in n al' cs fst' l = switch_in n al cs fst' l"
  using field_static_local[of "al_next al" "type_static_length n (al_types al')" "type_static_length n (al_types al)"
      "al_types al'" "al_types al"] type_static_local[OF assms] assms(2)
  by (simp_all add: extends_def)

definition copied :: "nat \<Rightarrow> alloc \<Rightarrow> alloc \<Rightarrow> item \<Rightarrow> item \<Rightarrow> bool" where
  "copied n al al' i i' \<longleftrightarrow>
     extends al al' \<and> closed_store al' \<and> item_below (al_next al') i' \<and>
     is_field i' = is_field i \<and> static_in n al' i' = static_in n al i"

definition copied_all :: "nat \<Rightarrow> alloc \<Rightarrow> alloc \<Rightarrow> item list \<Rightarrow> item list \<Rightarrow> bool" where
  "copied_all n al al' is is' \<longleftrightarrow>
     extends al al' \<and> closed_store al' \<and> items_below (al_next al') is' \<and>
     (\<forall>l. statics_in n al' is' l = statics_in n al is l)"

definition copied_cases :: "nat \<Rightarrow> alloc \<Rightarrow> alloc \<Rightarrow> switch_case list \<Rightarrow> switch_case list \<Rightarrow> bool" where
  "copied_cases n al al' cs cs' \<longleftrightarrow>
     extends al al' \<and> closed_store al' \<and> cases_below (al_next al') cs' \<and>
     (\<forall>fst' l. switch_in n al' cs' fst' l = switch_in n al cs fst' l)"

lemma copied_Cons:
  assumes "copied n al al1 i i'" and "copied_all n al1 al2 is is'" and "closed_store al"
    and "items_below (al_next al) is"
  shows "copied_all n al al2 (i # is) (i' # is')"
proof -
  note c = assms[unfolded copied_def copied_all_def]
  have "static_in n al2 i' = static_in n al i" and "statics_in n al1 is l = statics_in n al is l" for l
    using static_in_local(1)[of al1 al2 i' n] static_in_local(2)[of al al1 "is" n l] c by simp_all
  then show ?thesis
    using c extends_trans extends_next[of al1 al2] item_below_mono(1)
    by (auto simp: copied_all_def split: option.split)
qed

lemma copied_Case:
  assumes "copied_all n al al1 is is'" and "copied_cases n al1 al2 cs cs'" and "closed_store al"
    and "cases_below (al_next al) cs"
  shows "copied_cases n al al2 (Case es is d # cs) (Case es' is' d' # cs')"
proof -
  note c = assms[unfolded copied_all_def copied_cases_def]
  have "statics_in n al2 is' l = statics_in n al is l" and "switch_in n al1 cs f l = switch_in n al cs f l" for f l
    using static_in_local(2)[of al1 al2 is' n l] static_in_local(3)[of al al1 cs n f l] c by simp_all
  then show ?thesis
    using c extends_trans extends_next[of al1 al2] item_below_mono(2)
    by (auto simp: copied_cases_def split: option.split)
qed

lemma base_below_clone:
  "base_below N b \<Longrightarrow> below M t \<Longrightarrow> N \<le> M \<Longrightarrow>
     base_below M (b\<lparr>it_type := t, it_app_accessible := True, it_unit := None\<rparr>)"
  by (auto simp: base_below_def intro: below_mono)

lemma below_None [simp]: "below N None"
  by (simp add: below_def)

lemma anon_counter_simps [simp]:
  "closed_store (al\<lparr>al_anon := k\<rparr>) = closed_store al"
  "extends al0 (al\<lparr>al_anon := k\<rparr>) = extends al0 al"
  by (simp_all add: closed_store_def extends_def)

lemma is_field_simps [simp]:
  "\<not> is_field (Variable b d)" "\<not> is_field (Property b p)" "is_field (AtomicType b f)"
  "is_field (ConstantField b f c)" "is_field (CtorField b f k)" "is_field (UnknownField b f i)"
  "is_field (UnitField b f)" "is_field (Switch b f e cs)" "is_field (Vector b f inner len)"
  "is_field (ListField b f inner)"
  by (simp_all add: is_field_def)

lemma attrs_ok_empty [simp]: "attrs_ok []"
  by (simp add: attrs_ok_def attrs_sorted_def)

lemma AttributeMap_empty [simp]: "AttributeMap [] = []"
  by (simp add: AttributeMap_def)

lemma clone_item_copied:
  "clone_item i al = Some (i', al') \<Longrightarrow> closed_store al \<Longrightarrow> item_below (al_next al) i \<Longrightarrow> copied n al al' i i'"
  "clone_items is al = Some (is', al') \<Longrightarrow> closed_store al \<Longrightarrow> items_below (al_next al) is \<Longrightarrow> copied_all n al al' is is'"
  "clone_cases cs al = Some (cs', al') \<Longrightarrow> closed_store al \<Longrightarrow> cases_below (al_next al) cs \<Longrightarrow> copied_cases n al al' cs cs'"
proof (induction i al and "is" al and cs al arbitrary: i' al' and is' al' and cs' al'
    rule: clone_item_clone_items_clone_cases.induct)
  case (1 b d al)
  then show ?case
    by (auto simp: bind_eq_Some_conv Item_def copied_def base_below_def clonedAttributes_map)
next
  case (2 b p al)
  then show ?case
    by (auto simp: bind_eq_Some_conv Item_def copied_def base_below_def below_def)
next
  case (3 b f al)
  then show ?case
    by (auto simp: bind_eq_Some_conv copied_def base_below_def serialized_type_def length_attr_def
        dest!: clone_base_same split: option.splits)
next
  case (4 b f c al)
  then show ?case
    by (auto simp: bind_eq_Some_conv copied_def base_below_def dest!: clone_base_same)
next
  case (5 b f c al)
  then obtain t al1 where t: "new_type bytes_type al = (t, al1)" by (cases "new_type bytes_type al") simp
  then show ?case using 5 new_bytes[OF t]
    by (auto simp: bind_eq_Some_conv copied_def base_below_def below_def
        dest!: clone_base_same split: option.splits)
next
  case (6 b f i al)
  then show ?case
    by (auto simp: bind_eq_Some_conv copied_def base_below_def dest!: clone_base_same)
next
  case (7 b f al)
  then show ?case
    by (auto simp: bind_eq_Some_conv copied_def base_below_def dest!: clone_base_same)
next
  case (8 b f e cs al)
  from 8(2) obtain cs1 al1 where c: "clone_cases cs al = Some (cs1, al1)"
    and i': "\<exists>b' f' e'. i' = Switch b' f' e' cs1 \<and> base_below (al_next al1) b'"
    and al': "al' = al1\<lparr>al_anon := al_anon al1 + 1\<rparr>"
    by (auto simp: bind_eq_Some_conv Item_def Let_def base_below_def)
  have "copied_cases n al al1 cs cs1" using 8 c by (auto simp: bind_eq_Some_conv)
  then show ?case using i' al' by (auto simp: copied_def copied_cases_def)
next
  case (9 b f inner len al)
  from 9(2) obtain f' inner1 al1 len1 t al2 b' where run: "clone_field f False = Some f'"
      "clone_item inner al = Some (inner1, al1)" "clone_expr len = Some len1"
      "new_type bytes_type al1 = (t, al2)" "clone_base b (Some t) al2 = Some (b', al')" "i' = Vector b' f' inner1 len1"
    by (auto simp: bind_eq_Some_conv Let_def new_type_def)
  have c: "copied n al al1 inner inner1" using 9 run(1,2) by auto
  have b': "al' = al2" "base_below (al_next al2) b'"
    using clone_base_same[OF run(5)] 9(4) new_bytes[OF run(4)] c
    by (auto simp: base_below_def copied_def below_def extends_def split: option.splits)
  have "static_in n al2 inner1 = static_in n al1 inner1"
    using c new_bytes[OF run(4)] by (intro static_in_local(1)) (simp_all add: copied_def)
  then show ?case
    using c b' run(6) new_bytes[OF run(4)] clone_expr_same(1)[OF run(3)] item_below_mono(1) extends_trans
    by (auto simp: copied_def split: option.splits)
next
  case (10 b f inner al)
  from 10(2) obtain f' inner1 al1 t al2 b' where run: "clone_field f False = Some f'"
      "clone_item inner al = Some (inner1, al1)"
      "new_type bytes_type al1 = (t, al2)" "clone_base b (Some t) al2 = Some (b', al')" "i' = ListField b' f' inner1"
    by (auto simp: bind_eq_Some_conv Let_def new_type_def)
  have c: "copied n al al1 inner inner1" using 10 run(1,2) by auto
  have b': "al' = al2" "base_below (al_next al2) b'"
    using clone_base_same[OF run(4)] 10(4) new_bytes[OF run(3)] c
    by (auto simp: base_below_def copied_def below_def extends_def split: option.splits)
  then show ?case
    using c run(5) new_bytes[OF run(3)] item_below_mono(1) extends_trans by (auto simp: copied_def)
next
  case (11 al)
  then show ?case by (simp add: copied_all_def)
next
  case (12 i "is" al)
  from 12(3) obtain i1 al1 is1 where run: "clone_item i al = Some (i1, al1)"
      "clone_items is al1 = Some (is1, al')" "is' = i1 # is1"
    by (auto simp: bind_eq_Some_conv)
  have c: "copied n al al1 i i1" using 12 run by simp
  then have "closed_store al1" "items_below (al_next al1) is"
    using 12(5) item_below_mono(2) by (auto simp: copied_def extends_def)
  then have "copied_all n al1 al' is is1" using 12(2)[OF run(1) refl run(2)] by simp
  then show ?case using copied_Cons[OF c] run(3) 12(4,5) by simp
next
  case (13 al)
  then show ?case by (simp add: copied_cases_def)
next
  case (14 es "is" d cs al)
  from 14(3) obtain es1 is1 al1 cs1 where run: "clone_exprs es = Some es1" "clone_items is al = Some (is1, al1)"
      "clone_cases cs al1 = Some (cs1, al')" "cs' = Case es1 is1 False # cs1"
    by (auto simp: bind_eq_Some_conv)
  have c: "copied_all n al al1 is is1" using 14 run by simp
  then have "closed_store al1" "cases_below (al_next al1) cs"
    using 14(5) item_below_mono(3) by (auto simp: copied_all_def extends_def)
  then have "copied_cases n al1 al' cs cs1" using 14(2)[OF run(1,2) refl run(3)] by simp
  then show ?case using copied_Case[OF c] run(4) 14(4,5) by simp
qed

lemma clone_Vector_cases:
  assumes "clone_item (Vector b f inner len) al = Some (i', al')"
  obtains f' inner1 al1 t al2 b' where
    "clone_item inner al = Some (inner1, al1)" "clone_expr len = Some len"
    "new_type bytes_type al1 = (t, al2)" "clone_base b (Some t) al2 = Some (b', al')" "i' = Vector b' f' inner1 len"
  using assms clone_expr_same(1)[of len] by (auto simp: bind_eq_Some_conv Let_def new_type_def)

lemma default_length_copied:
  "copied n al al' i i' \<Longrightarrow>
     field_default_length (al_types al') (type_static_length n (al_types al')) i' =
     field_default_length (al_types al) (type_static_length n (al_types al)) i"
  by (simp add: copied_def field_default_length_def)

lemma clone_serialized_length:
  "clone_item i al = Some (i', al') \<Longrightarrow> closed_store al \<Longrightarrow> item_below (al_next al) i \<Longrightarrow>
     serialized_length n (al_types al') i' = serialized_length n (al_types al) i"
proof (induction i arbitrary: i' al' rule: measure_induct_rule[where f = size])
  case (less i)
  have c: "copied n al al' i i'" using clone_item_copied(1)[OF less.prems] .
  note d = default_length_copied[OF c]
  show ?case
  proof (cases i)
    case (Vector b f inner len)
    obtain f' inner1 al1 t al2 b' where run: "clone_item inner al = Some (inner1, al1)" "clone_expr len = Some len"
      "new_type bytes_type al1 = (t, al2)" "clone_base b (Some t) al2 = Some (b', al')" "i' = Vector b' f' inner1 len"
      using less.prems(1) unfolding Vector by (rule clone_Vector_cases)
    have inner: "item_below (al_next al) inner" using less.prems(3) Vector by simp
    have c1: "copied n al al1 inner inner1" by (rule clone_item_copied(1)[OF run(1) less.prems(2) inner])
    have "al' = al2" using clone_base_same[OF run(4)] less.prems(3) Vector by (simp add: base_below_def)
    then have "serialized_length n (al_types al') inner1 = serialized_length n (al_types al) inner"
      using serialized_length_local[of al1 al2 inner1 n] c1 new_bytes[OF run(3)]
        less.IH[OF _ run(1) less.prems(2) inner] Vector by (simp add: copied_def)
    then show ?thesis using d Vector run(5) by (simp add: serialized_length_def split: option.split)
  next
    case (AtomicType b f)
    obtain b' f' where "i' = AtomicType b' f'" "clone_base b (it_type b) al = Some (b', al')"
      using less.prems(1) AtomicType by (auto simp: bind_eq_Some_conv)
    then show ?thesis using d AtomicType less.prems(3) clone_base_same[of b "it_type b" al b' al']
      by (auto simp: serialized_length_def base_below_def length_attr_def split: option.split)
  next
    case (UnitField b f)
    obtain b' f' where "i' = UnitField b' f'" "clone_base b (it_type b) al = Some (b', al')"
      using less.prems(1) UnitField by (auto simp: bind_eq_Some_conv)
    then show ?thesis using UnitField less.prems(3) clone_base_same[of b "it_type b" al b' al']
      by (auto simp: serialized_length_def base_below_def)
  qed (use less.prems(1) d in \<open>auto simp: bind_eq_Some_conv serialized_length_def Item_def Let_def new_type_def\<close>)
qed

end
