(* ===== verification/Compaction.thy ===== *)
theory Compaction
  imports Clone_Length Samples
begin

text \<open>
  The compacted unit describes the same bytes as the unit it is made from: the fields kept by the
  type generator start at the offsets they had, and both units have the same extent.
\<close>

section \<open>Layout of a list of items\<close>

text \<open>The value of a length expression in a message in which the field named \<open>i\<close> has the integer value
  \<open>env i\<close>.\<close>

definition self_field :: "expr \<Rightarrow> expr \<Rightarrow> ident option" where
  "self_field a b =
     (case a of
        EParserState kind i u t \<Rightarrow>
          (if kind = SELF then (case b of EMemberAttribute m \<Rightarrow> Some m | _ \<Rightarrow> None) else None)
      | _ \<Rightarrow> None)"

definition arith :: "op_kind \<Rightarrow> int \<Rightarrow> int \<Rightarrow> int option" where
  "arith kind x y =
     (if kind = op_Plus then Some (x + y) else if kind = op_Minus then Some (x - y)
      else if kind = op_Mult then Some (x * y) else None)"

fun length_value :: "(ident \<Rightarrow> int option) \<Rightarrow> expr \<Rightarrow> int option" where
  "length_value env (EOperator kind ops) =
     (case ops of
        [a, b] \<Rightarrow>
          (if kind = op_Attribute then (case self_field a b of None \<Rightarrow> None | Some m \<Rightarrow> env m)
           else do { x \<leftarrow> length_value env a; y \<leftarrow> length_value env b; arith kind x y })
      | _ \<Rightarrow> None)"
| "length_value env e = const_integer (Some e)"

text \<open>The number of bytes a field occupies in a message, from the field alone: an integer has its width,
  \<^verbatim>\<open>bytes\<close> the value of \<^verbatim>\<open>&length\<close> in the unit's own fields, a vector the sum of its elements.  Fields with a
  condition, embedded units, switches, constants, bitfields and lists occupy whatever the message \<open>sz\<close>
  has there.\<close>

definition atomic_width :: "(ident \<Rightarrow> int option) \<Rightarrow> type_store \<Rightarrow> item_base \<Rightarrow> field_base \<Rightarrow> int option" where
  "atomic_width env ts b f =
     (case (fd_condition f, serialized_type (AtomicType b f)) of
        (None, Some t) \<Rightarrow>
          (case ts t of
             None \<Rightarrow> None
           | Some ob \<Rightarrow>
               if ty_wildcard ob then None
               else (case ty_kind ob of
                       TInteger w s \<Rightarrow> if w \<in> {8, 16, 32, 64} then Some (w div 8) else None
                     | TBytes \<Rightarrow> (case length_attr b of None \<Rightarrow> None | Some e \<Rightarrow> length_value env e)
                     | _ \<Rightarrow> None))
      | _ \<Rightarrow> None)"

fun field_width :: "(ident \<Rightarrow> int option) \<Rightarrow> type_store \<Rightarrow> item \<Rightarrow> int option" where
  "field_width env ts (AtomicType b f) = atomic_width env ts b f"
| "field_width env ts (Vector b f (AtomicType b' f') len) =
     (case (fd_condition f, length_value env len, atomic_width env ts b' f') of
        (None, Some c, Some l) \<Rightarrow> Some (c * l)
      | _ \<Rightarrow> None)"
| "field_width env ts i = None"

definition width :: "(ident \<Rightarrow> int option) \<Rightarrow> (ident \<Rightarrow> int) \<Rightarrow> alloc \<Rightarrow> item \<Rightarrow> int" where
  "width env sz al i = (case field_width env (al_types al) i of None \<Rightarrow> sz (item_id i) | Some l \<Rightarrow> l)"

fun layout :: "(item \<Rightarrow> bool) \<Rightarrow> (item \<Rightarrow> int) \<Rightarrow> item list \<Rightarrow> int \<Rightarrow> (ident \<times> int) list" where
  "layout P w [] pos = []"
| "layout P w (i # is) pos =
     (if is_field i then (if P i then [(item_id i, pos)] else []) @ layout P w is (pos + w i)
      else layout P w is pos)"

definition span :: "(item \<Rightarrow> int) \<Rightarrow> item list \<Rightarrow> int" where
  "span w is = sum_list (map w (filter is_field is))"

text \<open>The generator's length expression of the field, where there is one, has the field's width as value.\<close>

definition measured :: "(ident \<Rightarrow> int option) \<Rightarrow> (ident \<Rightarrow> int) \<Rightarrow> nat \<Rightarrow> alloc \<Rightarrow> item \<Rightarrow> bool" where
  "measured env sz n al i \<longleftrightarrow>
     (case serialized_length n (al_types al) i of
        Some (Some e) \<Rightarrow> length_value env e = Some (width env sz al i)
      | _ \<Rightarrow> True)"

definition unmeasured :: "nat \<Rightarrow> alloc \<Rightarrow> item \<Rightarrow> bool" where
  "unmeasured n al i \<longleftrightarrow> serialized_length n (al_types al) i = Some None"

definition needed :: "dependency list \<Rightarrow> ident \<Rightarrow> item \<Rightarrow> bool" where
  "needed deps uid i \<longleftrightarrow> dependencyContextFor deps (combineIDs uid (item_id i)) \<noteq> 0"

definition kept :: "dependency list \<Rightarrow> ident \<Rightarrow> nat \<Rightarrow> alloc \<Rightarrow> item \<Rightarrow> bool" where
  "kept deps uid n al i \<longleftrightarrow> needed deps uid i \<or> unmeasured n al i"

definition accessible :: "item \<Rightarrow> bool" where
  "accessible i \<longleftrightarrow> it_app_accessible (base_of i)"

lemma span_simps [simp]:
  "span w [] = 0"
  "span w (i # is) = (if is_field i then w i + span w is else span w is)"
  "span w (is @ js) = span w is + span w js"
  by (simp_all add: span_def)

lemma layout_append [simp]: "layout P w (is @ js) pos = layout P w is pos @ layout P w js (pos + span w is)"
  by (induction "is" arbitrary: pos) (auto simp: algebra_simps)

lemma layout_cong:
  "(\<And>i. i \<in> set is \<Longrightarrow> is_field i \<Longrightarrow> P i = Q i \<and> w i = v i) \<Longrightarrow> layout P w is pos = layout Q v is pos"
  by (induction "is" arbitrary: pos) auto

lemma span_cong: "(\<And>i. i \<in> set is \<Longrightarrow> is_field i \<Longrightarrow> w i = v i) \<Longrightarrow> span w is = span v is"
  by (induction "is") auto

lemma items_below_append [simp]: "items_below N (is @ js) \<longleftrightarrow> items_below N is \<and> items_below N js"
  by (auto simp: items_below_list)

lemma atomic_width_base:
  "it_type b' = it_type b \<Longrightarrow> it_serialized_type b' = it_serialized_type b \<Longrightarrow> fd_condition f' = fd_condition f \<Longrightarrow>
     map_option (length_value env) (length_attr b') = map_option (length_value env) (length_attr b) \<Longrightarrow>
     atomic_width env ts b' f' = atomic_width env ts b f"
proof -
  assume same: "it_type b' = it_type b" "it_serialized_type b' = it_serialized_type b" "fd_condition f' = fd_condition f"
    and len: "map_option (length_value env) (length_attr b') = map_option (length_value env) (length_attr b)"
  have "(case length_attr b' of None \<Rightarrow> None | Some e \<Rightarrow> length_value env e) =
      (case length_attr b of None \<Rightarrow> None | Some e \<Rightarrow> length_value env e)"
    using len by (cases "length_attr b"; cases "length_attr b'") simp_all
  then show ?thesis unfolding atomic_width_def by (simp only: serialized_type_def same base_of.simps)
qed

lemma atomic_width_local:
  "extends al al' \<Longrightarrow> base_below (al_next al) b \<Longrightarrow>
     atomic_width env (al_types al') b f = atomic_width env (al_types al) b f"
  by (auto simp: atomic_width_def serialized_type_def base_below_def below_def extends_def split: option.split)

lemma field_width_local:
  "extends al al' \<Longrightarrow> item_below (al_next al) i \<Longrightarrow> field_width env (al_types al') i = field_width env (al_types al) i"
  by (induction env "al_types al" i rule: field_width.induct) (simp_all add: atomic_width_local[of al al'])

lemma width_local:
  "closed_store al \<Longrightarrow> extends al al' \<Longrightarrow> item_below (al_next al) i \<Longrightarrow> width env sz al' i = width env sz al i"
  by (simp add: width_def field_width_local[of al al' i])

lemma unmeasured_local:
  "closed_store al \<Longrightarrow> extends al al' \<Longrightarrow> item_below (al_next al) i \<Longrightarrow> unmeasured n al' i = unmeasured n al i"
  by (simp add: unmeasured_def serialized_length_local[of al al' i n])

lemma measured_local:
  "closed_store al \<Longrightarrow> extends al al' \<Longrightarrow> item_below (al_next al) i \<Longrightarrow> measured env sz n al' i = measured env sz n al i"
  unfolding measured_def by (simp only: serialized_length_local[of al al' i n] width_local[of al al' i])

lemma layout_local:
  assumes "closed_store al" and "extends al al'" and "items_below (al_next al) is"
  shows "layout P (width env sz al') is pos = layout P (width env sz al) is pos"
    and "span (width env sz al') is = span (width env sz al) is"
    and "layout (kept deps uid n al') (width env sz al') is pos = layout (kept deps uid n al) (width env sz al) is pos"
    and "layout (unmeasured n al') (width env sz al') is pos = layout (unmeasured n al) (width env sz al) is pos"
proof -
  have same: "width env sz al' i = width env sz al i \<and> unmeasured n al' i = unmeasured n al i" if "i \<in> set is" for i
    using assms that width_local[of al al' i env sz] unmeasured_local[of al al' i n] by (simp add: items_below_list)
  show "layout P (width env sz al') is pos = layout P (width env sz al) is pos"
    by (rule layout_cong) (simp add: same)
  show "span (width env sz al') is = span (width env sz al) is"
    by (rule span_cong) (simp add: same)
  show "layout (kept deps uid n al') (width env sz al') is pos = layout (kept deps uid n al) (width env sz al) is pos"
    by (rule layout_cong) (simp add: same kept_def)
  show "layout (unmeasured n al') (width env sz al') is pos = layout (unmeasured n al) (width env sz al) is pos"
    by (rule layout_cong) (simp add: same)
qed

section \<open>What a step of the generator emits\<close>

definition emitted ::
  "(ident \<Rightarrow> int option) \<Rightarrow> (ident \<Rightarrow> int) \<Rightarrow> type_generator \<Rightarrow> type_generator
   \<Rightarrow> (int \<Rightarrow> (ident \<times> int) list) \<Rightarrow> int \<Rightarrow> bool" where
  "emitted env sz s s' L d \<longleftrightarrow>
     (\<exists>new. tg_items s' = tg_items s @ new \<and> extends (tg_alloc s) (tg_alloc s') \<and> closed_store (tg_alloc s') \<and>
        items_below (al_next (tg_alloc s')) new \<and>
        (\<forall>pos. layout accessible (width env sz (tg_alloc s')) new pos = L pos) \<and>
        span (width env sz (tg_alloc s')) new = d) \<and>
     tg_deps s' = tg_deps s \<and> tg_unit_id s' = tg_unit_id s \<and> tg_unit_name s' = tg_unit_name s \<and>
     tg_decls s' = tg_decls s"

lemma emitted_refl: "closed_store (tg_alloc s) \<Longrightarrow> emitted env sz s s (\<lambda>pos. []) 0"
  by (simp add: emitted_def)

lemma emittedE:
  assumes "emitted env sz s s' L d"
  obtains new where "tg_items s' = tg_items s @ new" "extends (tg_alloc s) (tg_alloc s')"
    "closed_store (tg_alloc s')" "items_below (al_next (tg_alloc s')) new"
    "\<forall>pos. layout accessible (width env sz (tg_alloc s')) new pos = L pos"
    "span (width env sz (tg_alloc s')) new = d"
  using assms unfolding emitted_def by (elim conjE exE) (rule that; assumption)

lemma emitted_trans:
  assumes "emitted env sz s s1 L d" and "emitted env sz s1 s2 M e"
  shows "emitted env sz s s2 (\<lambda>pos. L pos @ M (pos + d)) (d + e)"
proof -
  obtain new1 where n1: "tg_items s1 = tg_items s @ new1" "extends (tg_alloc s) (tg_alloc s1)"
    "closed_store (tg_alloc s1)" "items_below (al_next (tg_alloc s1)) new1"
    "\<forall>pos. layout accessible (width env sz (tg_alloc s1)) new1 pos = L pos"
    "span (width env sz (tg_alloc s1)) new1 = d"
    using assms(1) by (rule emittedE)
  obtain new2 where n2: "tg_items s2 = tg_items s1 @ new2" "extends (tg_alloc s1) (tg_alloc s2)"
    "closed_store (tg_alloc s2)" "items_below (al_next (tg_alloc s2)) new2"
    "\<forall>pos. layout accessible (width env sz (tg_alloc s2)) new2 pos = M pos"
    "span (width env sz (tg_alloc s2)) new2 = e"
    using assms(2) by (rule emittedE)
  have "items_below (al_next (tg_alloc s2)) (new1 @ new2)"
    using item_below_mono(2)[OF n1(4) extends_next[OF n2(2)]] n2(4) by simp
  moreover have "tg_deps s2 = tg_deps s \<and> tg_unit_id s2 = tg_unit_id s \<and> tg_unit_name s2 = tg_unit_name s \<and>
      tg_decls s2 = tg_decls s"
    using assms by (simp add: emitted_def)
  moreover note extends_trans[OF n1(2) n2(2)] layout_local(1,2)[OF n1(3) n2(2) n1(4)]
  ultimately show ?thesis
    using n1(1,5,6) n2(1,3,5,6) unfolding emitted_def
    by (intro conjI exI[of _ "new1 @ new2"]) (simp_all del: layout.simps)
qed

lemma emitted_item:
  assumes "tg_items s' = tg_items s @ [i]" and "extends (tg_alloc s) (tg_alloc s')" and "closed_store (tg_alloc s')"
    and "item_below (al_next (tg_alloc s')) i"
    and "tg_deps s' = tg_deps s" "tg_unit_id s' = tg_unit_id s" "tg_unit_name s' = tg_unit_name s"
      "tg_decls s' = tg_decls s"
  shows "emitted env sz s s' (\<lambda>pos. if is_field i \<and> accessible i then [(item_id i, pos)] else [])
    (if is_field i then width env sz (tg_alloc s') i else 0)"
  using assms unfolding emitted_def by (intro conjI exI[of _ "[i]"]) simp_all

lemma length_value_const: "const_integer (Some e) = Some v \<Longrightarrow> length_value env e = Some v"
  by (cases e) (auto simp: const_integer_def split: const.splits)

lemma addFieldOfLength_emitted:
  assumes "addFieldOfLength len s = Some s'" and "closed_store (tg_alloc s)"
    and v: "length_value env len = Some v"
  shows "emitted env sz s s' (\<lambda>pos. []) v"
proof -
  obtain t al1 where t: "new_type bytes_type (tg_alloc s) = (t, al1)" by fastforce
  define b where "b = fst (Item None (Some t) [] al1)"
  define i where "i = AtomicType (b\<lparr>it_app_accessible := False,
      it_attributes := attrs_add (Attribute ''length'' (Some len) False) (it_attributes b)\<rparr>)
      \<lparr>fd_condition = None, fd_parameters = [], fd_sinks = []\<rparr>"
  have s': "s' = push_item i (s\<lparr>tg_alloc := al1\<lparr>al_anon := al_anon al1 + 1\<rparr>\<rparr>)"
    using assms(1) t by (auto simp: addFieldOfLength_def Item_def i_def b_def dest!: clone_expr_same(1))
  have attrs: "it_attributes (base_of i) = [Attr ''length'' (Some len) False]"
    by (simp add: i_def b_def Item_def Attribute_def)
  have below: "item_below (al_next al1) i"
    using attrs new_bytes[OF t assms(2)]
    by (simp add: i_def b_def Item_def base_below_def below_def attrs_ok_def attrs_sorted_def)
  have "al_types al1 t = Some bytes_type" using t by (auto simp: new_type_def)
  then have "width env sz al1 i = v"
    using attrs v by (simp add: width_def atomic_width_def i_def b_def Item_def serialized_type_def length_attr_def
        bytes_type_def)
  moreover have "is_field i" "\<not> accessible i" by (simp_all add: i_def accessible_def)
  ultimately show ?thesis
    using emitted_item[of s' s i env sz] below new_bytes[OF t assms(2)] unfolding s' push_item_def
    by (simp add: width_def)
qed

lemma clone_item_base:
  assumes "clone_item i al = Some (i', al')" and "is_field i" and "item_below (al_next al) i"
  shows "item_id i' = item_id i \<and> accessible i'"
  using assms
  by (cases i) (auto simp: bind_eq_Some_conv Let_def new_type_def Item_def accessible_def base_below_def dest!: clone_base_same)

lemma map_base_width:
  assumes g: "\<And>b. it_type (g b) = it_type b \<and> it_serialized_type (g b) = it_serialized_type b \<and>
      it_attributes (g b) = it_attributes b \<and> it_id (g b) = it_id b"
  shows "width env sz al (map_base g i) = width env sz al i"
proof -
  have "atomic_width env ts (g b) f = atomic_width env ts b f" for ts b f
    using g by (intro atomic_width_base) (simp_all add: length_attr_def cong: option.case_cong)
  then have "field_width env ts (map_base g i) = field_width env ts i" for ts
    by (induction env ts i rule: field_width.induct) simp_all
  moreover have "item_id (map_base g i) = item_id i" using g by (cases i) simp_all
  ultimately show ?thesis unfolding width_def by (simp only:)
qed

lemma clone_field_condition: "clone_field f p = Some f' \<Longrightarrow> fd_condition f' = fd_condition f"
  by (auto simp: clone_field_def clone_cond_def bind_eq_Some_conv split: option.splits dest: clone_expr_same(1))

lemma clone_atomic_width:
  assumes "clone_field f p = Some f'" and "clone_base b (it_type b) al = Some (b', al')" and "attrs_ok (it_attributes b)"
  shows "atomic_width env ts b' f' = atomic_width env ts b f"
  using clone_base_same[OF assms(2,3)] clone_field_condition[OF assms(1)]
  by (intro atomic_width_base) (simp_all add: length_attr_def)

lemma clone_field_width:
  assumes "clone_item i al = Some (i', al')" and "closed_store al" and "item_below (al_next al) i"
  shows "field_width env (al_types al') i' = field_width env (al_types al) i"
proof (cases i)
  case (AtomicType b f)
  then show ?thesis
    using assms clone_base_same[of b "it_type b" al _ al'] clone_atomic_width[of f False _ b al _ al' env "al_types al"]
    by (auto simp: bind_eq_Some_conv base_below_def)
next
  case (Vector b f inner len)
  obtain f' inner1 al1 t al2 b' where run: "clone_field f False = Some f'" "clone_item inner al = Some (inner1, al1)"
    "clone_expr len = Some len" "new_type bytes_type al1 = (t, al2)" "clone_base b (Some t) al2 = Some (b', al')"
    "i' = Vector b' f' inner1 len"
    using assms(1) clone_expr_same(1)[of len] unfolding Vector by (auto simp: bind_eq_Some_conv Let_def new_type_def)
  have al': "al' = al2" using clone_base_same[OF run(5)] assms(3) Vector by (simp add: base_below_def)
  show ?thesis
  proof (cases inner)
    case (AtomicType c g)
    obtain g' c' where in1: "clone_field g False = Some g'" "clone_base c (it_type c) al = Some (c', al1)"
      "inner1 = AtomicType c' g'"
      using run(2) AtomicType by (auto simp: bind_eq_Some_conv)
    have c: "base_below (al_next al) c" using assms(3) Vector AtomicType by simp
    then have al1: "al1 = al" using clone_base_same[OF in1(2)] by (simp add: base_below_def)
    have "atomic_width env (al_types al2) c' g' = atomic_width env (al_types al2) c g"
      using clone_atomic_width[OF in1(1,2)] c by (simp add: base_below_def)
    also have "\<dots> = atomic_width env (al_types al) c g"
      using atomic_width_local[OF new_type_extends[OF run(4)[unfolded al1]] c] .
    finally show ?thesis
      using Vector AtomicType in1(3) run(6) al' clone_field_condition[OF run(1)] by simp
  qed (use run Vector in \<open>auto simp: bind_eq_Some_conv Let_def Item_def new_type_def split: prod.splits\<close>)
qed (use assms(1) in \<open>auto simp: bind_eq_Some_conv Let_def Item_def new_type_def split: prod.splits\<close>)

lemma copyItem_emitted:
  assumes "copyItem i s = Some (i', s1)" and "closed_store (tg_alloc s)" and "item_below (al_next (tg_alloc s)) i"
    and g: "\<And>b. it_type (g b) = it_type b \<and> it_serialized_type (g b) = it_serialized_type b \<and>
      it_attributes (g b) = it_attributes b \<and> it_id (g b) = it_id b \<and> it_app_accessible (g b) = it_app_accessible b"
  shows "emitted env sz s (push_item (map_base g i') s1)
    (\<lambda>pos. if is_field i then [(item_id i, pos)] else [])
    (if is_field i then width env sz (tg_alloc s) i else 0)"
proof -
  obtain al' where c: "clone_item i (tg_alloc s) = Some (i', al')" and s1: "s1 = s\<lparr>tg_alloc := al'\<rparr>"
    using assms(1) by (auto simp: copyItem_def)
  note copied = clone_item_copied(1)[OF c assms(2,3), of 0, unfolded copied_def]
  have same: "base_of (map_base g i') = g (base_of i')" "is_field (map_base g i') = is_field i'"
    "item_below (al_next al') (map_base g i') = item_below (al_next al') i'"
    using g by (cases i'; simp add: base_below_def)+
  have "width env sz al' (map_base g i') = width env sz al' i'"
    using g by (intro map_base_width) simp
  then have "is_field i \<Longrightarrow> width env sz al' (map_base g i') = width env sz (tg_alloc s) i"
    using clone_field_width[OF c assms(2,3), of env] clone_item_base[OF c _ assms(3)]
    by (simp add: width_def cong: option.case_cong)
  then show ?thesis
    using emitted_item[of "push_item (map_base g i') s1" s "map_base g i'" env sz] copied same g
      clone_item_base[OF c _ assms(3)]
    by (cases "is_field i") (simp_all add: s1 push_item_def accessible_def)
qed

lemma emitted_cong:
  "emitted env sz s s' L d \<Longrightarrow> (\<And>pos. L pos = M pos) \<Longrightarrow> d = e \<Longrightarrow> emitted env sz s s' M e"
  by (simp add: emitted_def)

lemma emitted_state:
  "emitted env sz s s' L d \<Longrightarrow> closed_store (tg_alloc s') \<and> extends (tg_alloc s) (tg_alloc s') \<and>
     tg_deps s' = tg_deps s \<and> tg_unit_id s' = tg_unit_id s \<and> tg_unit_name s' = tg_unit_name s \<and> tg_decls s' = tg_decls s"
  by (auto simp: emitted_def)

lemma emitted_below:
  "emitted env sz s s' L d \<Longrightarrow> items_below (al_next (tg_alloc s)) is \<Longrightarrow> items_below (al_next (tg_alloc s')) is"
  using emitted_state[of env sz s s' L d] by (auto simp: extends_def intro: item_below_mono(2))

lemma map_base_id [simp]: "map_base (\<lambda>b. b) i = i"
  by (cases i) simp_all

definition pending_value :: "(ident \<Rightarrow> int option) \<Rightarrow> expr option \<Rightarrow> int" where
  "pending_value env len = (case len of None \<Rightarrow> 0 | Some e \<Rightarrow> the (length_value env e))"

definition pending_ok :: "(ident \<Rightarrow> int option) \<Rightarrow> expr option \<Rightarrow> bool" where
  "pending_ok env len = (case len of None \<Rightarrow> True | Some e \<Rightarrow> length_value env e \<noteq> None)"

lemma pending_plus:
  "pending_ok env len \<Longrightarrow> length_value env l = Some v \<Longrightarrow>
     length_value env (case len of None \<Rightarrow> l | Some l0 \<Rightarrow> EOperator op_Plus [l0, l]) = Some (pending_value env len + v)"
  by (auto simp: pending_ok_def pending_value_def arith_def split: option.splits)

lemma flush_emitted:
  assumes "(case len of None \<Rightarrow> Some s | Some l \<Rightarrow> addFieldOfLength l s) = Some s'"
    and "closed_store (tg_alloc s)" and "pending_ok env len"
  shows "emitted env sz s s' (\<lambda>pos. []) (pending_value env len)"
proof (cases len)
  case None
  then show ?thesis using assms emitted_refl[of s] by (simp add: pending_value_def)
next
  case (Some l)
  then show ?thesis
    using assms addFieldOfLength_emitted[of l s s' env "the (length_value env l)" sz]
    by (auto simp: pending_ok_def pending_value_def)
qed

lemma compact_loop_emitted:
  "compact_loop n fs len s = Some s' \<Longrightarrow> closed_store (tg_alloc s) \<Longrightarrow>
    items_below (al_next (tg_alloc s)) fs \<Longrightarrow> \<forall>f\<in>set fs. is_field f \<and> measured env sz n (tg_alloc s) f \<Longrightarrow>
    pending_ok env len \<Longrightarrow>
    emitted env sz s s'
      (\<lambda>pos. layout (unmeasured n (tg_alloc s)) (width env sz (tg_alloc s)) fs (pos + pending_value env len))
      (pending_value env len + span (width env sz (tg_alloc s)) fs)"
proof (induction n fs len s arbitrary: s' rule: compact_loop.induct)
  case (1 n s)
  then show ?case by (simp add: emitted_refl pending_value_def)
next
  case (2 n len s)
  then show ?case using flush_emitted[where len = "Some len" and s = s and s' = s' and env = env and sz = sz] by simp
next
  case (3 n f fs len s)
  obtain f_len where f_len: "serialized_length n (al_types (tg_alloc s)) f = Some f_len"
    using 3(3) by (auto simp: bind_eq_Some_conv)
  show ?case
  proof (cases f_len)
    case (Some l)
    obtain v where v: "length_value env l = Some v" "width env sz (tg_alloc s) f = v"
      using 3(6) f_len Some by (auto simp: measured_def)
    have "\<not> unmeasured n (tg_alloc s) f"
      using f_len Some by (simp add: unmeasured_def)
    moreover note p = pending_plus[OF 3(7) v(1)]
    ultimately show ?thesis
      using 3(2)[OF f_len Some, of s'] 3(3-7) f_len Some v(2)
      by (simp add: pending_ok_def pending_value_def algebra_simps)
  next
    case None
    obtain s1 f' s2 where run: "(case len of None \<Rightarrow> Some s | Some l0 \<Rightarrow> addFieldOfLength l0 s) = Some s1"
      "copyItem f s1 = Some (f', s2)" "compact_loop n fs None (push_item f' s2) = Some s'"
      using 3(3) f_len None by (auto simp: bind_eq_Some_conv)
    let ?s3 = "push_item f' s2"
    have e1: "emitted env sz s s1 (\<lambda>pos. []) (pending_value env len)"
      using flush_emitted[OF run(1)] 3 by simp
    have f: "item_below (al_next (tg_alloc s)) f" "is_field f" using 3(5,6) by simp_all
    have fs: "items_below (al_next (tg_alloc s)) fs" using 3(5) by simp
    note st1 = emitted_state[OF e1]
    have e2: "emitted env sz s1 ?s3 (\<lambda>pos. [(item_id f, pos)]) (width env sz (tg_alloc s) f)"
      using copyItem_emitted[OF run(2), of "\<lambda>b. b" env sz] st1 f emitted_below[OF e1, of "[f]"]
        width_local[OF 3(4), of "tg_alloc s1" f env sz] by simp
    have e12: "emitted env sz s ?s3 (\<lambda>pos. [(item_id f, pos + pending_value env len)])
        (pending_value env len + width env sz (tg_alloc s) f)"
      using emitted_trans[OF e1 e2] by simp
    note st2 = emitted_state[OF e12]
    have "emitted env sz ?s3 s' (\<lambda>pos. layout (unmeasured n (tg_alloc ?s3)) (width env sz (tg_alloc ?s3)) fs pos)
        (span (width env sz (tg_alloc ?s3)) fs)"
      using 3(1)[OF f_len None run(1,2) refl run(3)] 3(6) st2 fs emitted_below[OF e12 fs]
        measured_local[OF 3(4), of "tg_alloc ?s3" _ env sz n]
      by (simp add: pending_value_def pending_ok_def items_below_list)
    then have e3: "emitted env sz ?s3 s' (\<lambda>pos. layout (unmeasured n (tg_alloc s)) (width env sz (tg_alloc s)) fs pos)
        (span (width env sz (tg_alloc s)) fs)"
      using layout_local(2,4)[OF 3(4) _ fs, of "tg_alloc ?s3"] st2 by simp
    have "unmeasured n (tg_alloc s) f" using f_len None by (simp add: unmeasured_def)
    then show ?thesis using emitted_trans[OF e12 e3] f(2) by (simp add: algebra_simps)
  qed
qed

section \<open>The generator's length expressions\<close>

text \<open>The length expression the generator computes for a field of a supported kind has the field's width as
  its value.\<close>

lemma atomic_serialized_length:
  assumes "atomic_width env ts b f = Some l"
  shows "\<exists>e. field_serialized_length ts (type_static_length (Suc n) ts) ulen (AtomicType b f) = Some (Some e) \<and>
    length_value env e = Some l"
    and "field_static_length ts (type_static_length (Suc n) ts) (AtomicType b f) = Some k \<Longrightarrow> 0 \<le> k \<Longrightarrow> k = l"
    and "\<exists>k. field_static_length ts (type_static_length (Suc n) ts) (AtomicType b f) = Some k"
proof -
  obtain t ob where t: "serialized_type (AtomicType b f) = Some t" "ts t = Some ob" "\<not> ty_wildcard ob"
    using assms by (auto simp: atomic_width_def split: option.splits if_splits)
  consider (int) w sg where "ty_kind ob = TInteger w sg" "w \<in> {8, 16, 32, 64}" "l = w div 8"
    | (bytes) e where "ty_kind ob = TBytes" "length_attr b = Some e" "length_value env e = Some l"
    using assms t by (auto simp: atomic_width_def split: option.splits if_splits type_kind.splits)
  note kinds = this
  show "\<exists>e. field_serialized_length ts (type_static_length (Suc n) ts) ulen (AtomicType b f) = Some (Some e) \<and>
      length_value env e = Some l"
    using kinds t length_value_const[of _ _ env]
    by cases (auto simp: field_default_length_def static_length_expr_def const_integer_def split: option.splits)
  show "field_static_length ts (type_static_length (Suc n) ts) (AtomicType b f) = Some k \<Longrightarrow> 0 \<le> k \<Longrightarrow> k = l"
    using kinds t length_value_const[of _ _ env] by cases (auto split: option.splits)
  show "\<exists>k. field_static_length ts (type_static_length (Suc n) ts) (AtomicType b f) = Some k"
    using kinds t by cases (auto split: option.splits)
qed

lemma field_width_measured:
  assumes "field_width env (al_types al) i = Some l" and "0 < n"
  shows "measured env sz n al i"
proof -
  obtain m where n: "n = Suc m" using assms(2) by (cases n) simp_all
  have "\<exists>e. serialized_length n (al_types al) i = Some (Some e) \<and> length_value env e = Some l"
    using assms(1)
  proof (induction env "al_types al" i rule: field_width.induct)
    case (2 env b f b' f' len)
    then obtain c k where k: "length_value env len = Some c" "atomic_width env (al_types al) b' f' = Some k" "l = c * k"
      by (auto split: option.splits)
    note a = atomic_serialized_length[OF k(2), of m]
    obtain j where j: "field_static_length (al_types al) (type_static_length (Suc m) (al_types al)) (AtomicType b' f') = Some j"
      using a(3) by blast
    then have "0 \<le> j \<Longrightarrow> j = k" using a(2) by blast
    then show ?case
      using a(1)[of "unit_serialized_length (Suc m) (al_types al)"] j k length_value_const[of len _ env]
      by (auto simp: serialized_length_def n field_default_length_def static_length_expr_def const_integer_def arith_def
          simp del: field_static_length.simps(1) field_serialized_length.simps(1) split: option.splits)
  qed (use atomic_serialized_length(1) in \<open>auto simp: serialized_length_def n simp del: field_serialized_length.simps(1)\<close>)
  then show ?thesis using assms(1) by (auto simp: measured_def width_def)
qed

section \<open>The pass\<close>

lemma emitted_compactable [simp]:
  "emitted env sz (s\<lparr>tg_compactable := c\<rparr>) s' L d = emitted env sz s s' L d"
  "emitted env sz s (s'\<lparr>tg_compactable := c\<rparr>) L d = emitted env sz s s' L d"
  by (simp_all add: emitted_def)

definition pass_ok :: "(ident \<Rightarrow> int option) \<Rightarrow> (ident \<Rightarrow> int) \<Rightarrow> nat \<Rightarrow> type_generator \<Rightarrow> item list \<Rightarrow> bool" where
  "pass_ok env sz n s is \<longleftrightarrow>
     closed_store (tg_alloc s) \<and> items_below (al_next (tg_alloc s)) (tg_compactable s @ is) \<and>
     (\<forall>i\<in>set (tg_compactable s). is_field i \<and> \<not> needed (tg_deps s) (tg_unit_id s) i) \<and>
     (\<forall>i\<in>set (tg_compactable s @ is).
        is_field i \<longrightarrow> \<not> needed (tg_deps s) (tg_unit_id s) i \<longrightarrow> measured env sz n (tg_alloc s) i)"

abbreviation kept_layout where
  "kept_layout env sz n s is pos \<equiv>
     layout (kept (tg_deps s) (tg_unit_id s) n (tg_alloc s)) (width env sz (tg_alloc s)) is pos"

lemma compactAndAddItems_emitted:
  assumes "compactAndAddItems n s = Some s'" and "pass_ok env sz n s is"
  shows "emitted env sz s s' (\<lambda>pos. kept_layout env sz n s (tg_compactable s) pos)
      (span (width env sz (tg_alloc s)) (tg_compactable s))"
    and "tg_compactable s' = []"
proof -
  obtain s1 where s1: "compact_loop n (tg_compactable s) None s = Some s1" "s' = s1\<lparr>tg_compactable := []\<rparr>"
    using assms(1) by (auto simp: compactAndAddItems_def)
  have "layout (unmeasured n (tg_alloc s)) (width env sz (tg_alloc s)) (tg_compactable s) pos =
      kept_layout env sz n s (tg_compactable s) pos" for pos
    using assms(2) by (intro layout_cong) (simp add: pass_ok_def kept_def)
  then show "emitted env sz s s' (\<lambda>pos. kept_layout env sz n s (tg_compactable s) pos)
      (span (width env sz (tg_alloc s)) (tg_compactable s))"
    using compact_loop_emitted[OF s1(1), of env sz] assms(2) s1(2)
    by (simp add: pass_ok_def pending_ok_def pending_value_def)
  show "tg_compactable s' = []" using s1(2) by simp
qed

lemma pass_ok_step:
  assumes "pass_ok env sz n s (i # is)" and "emitted env sz s s' L d"
    and "set (tg_compactable s') \<subseteq> set (tg_compactable s)"
  shows "pass_ok env sz n s' is"
proof -
  have st: "closed_store (tg_alloc s)" "items_below (al_next (tg_alloc s)) (tg_compactable s @ is)"
    using assms(1) by (simp_all add: pass_ok_def)
  note e = emitted_state[OF assms(2)]
  have "items_below (al_next (tg_alloc s')) (tg_compactable s' @ is)"
    using emitted_below[OF assms(2) st(2)] assms(3) by (auto simp: items_below_list)
  moreover have "measured env sz n (tg_alloc s') j"
    if "j \<in> set (tg_compactable s' @ is)" "is_field j" "\<not> needed (tg_deps s) (tg_unit_id s) j" for j
    using that st e assms(1,3) measured_local[of "tg_alloc s" "tg_alloc s'" j env sz n]
    by (auto simp: pass_ok_def items_below_list)
  ultimately show ?thesis using assms e by (auto simp: pass_ok_def)
qed

lemma kept_layout_local:
  assumes "closed_store (tg_alloc s)" and "emitted env sz s s' L d" and "items_below (al_next (tg_alloc s)) is"
  shows "kept_layout env sz n s' is pos = kept_layout env sz n s is pos"
    and "span (width env sz (tg_alloc s')) is = span (width env sz (tg_alloc s)) is"
  using layout_local(2,3)[OF assms(1) _ assms(3), of "tg_alloc s'"] emitted_state[OF assms(2)] by simp_all

lemma copy_push_emitted:
  assumes "copyItem i s = Some (i', s')" and "closed_store (tg_alloc s)" and "item_below (al_next (tg_alloc s)) i"
  shows "emitted env sz s (push_item (if c then set_parsing_only i' else i') s')
      (\<lambda>pos. if is_field i then [(item_id i, pos)] else []) (if is_field i then width env sz (tg_alloc s) i else 0)"
    and "tg_compactable (push_item j s') = tg_compactable s"
  using copyItem_emitted[OF assms, of "\<lambda>b. b\<lparr>it_parsing_only := True\<rparr>" env sz]
    copyItem_emitted[OF assms, of "\<lambda>b. b" env sz] assms(1)
  by (auto simp: set_parsing_only_def push_item_def copyItem_def)

lemma variable_no_field: "is_variable i \<Longrightarrow> \<not> is_field i"
  by (cases i) (simp_all add: is_variable_def)

lemma generate_items_emitted:
  "generate_items n is s = Some s1 \<Longrightarrow> compactAndAddItems n s1 = Some s2 \<Longrightarrow> pass_ok env sz n s is \<Longrightarrow>
     emitted env sz s s2 (\<lambda>pos. kept_layout env sz n s (tg_compactable s @ is) pos)
       (span (width env sz (tg_alloc s)) (tg_compactable s @ is))"
proof (induction "is" arbitrary: s)
  case Nil
  then show ?case using compactAndAddItems_emitted(1)[OF Nil(2), of env sz "[]"] by simp
next
  case (Cons i "is")
  obtain t where t: "generate_item n i s = Some t" "generate_items n is t = Some s1"
    using Cons.prems(1) by (auto simp: bind_eq_Some_conv)
  have closed: "closed_store (tg_alloc s)" and i: "item_below (al_next (tg_alloc s)) i"
    and is_: "items_below (al_next (tg_alloc s)) is"
    and pend: "items_below (al_next (tg_alloc s)) (tg_compactable s)"
    using Cons.prems(3) by (simp_all add: pass_ok_def)
  have next_: ?case if e: "emitted env sz s t L d" and sub: "set (tg_compactable t) \<subseteq> set (tg_compactable s)"
    and L: "\<And>pos. L pos @ kept_layout env sz n s (tg_compactable t @ is) (pos + d) =
        kept_layout env sz n s (tg_compactable s @ i # is) pos"
    and d: "d + span (width env sz (tg_alloc s)) (tg_compactable t @ is) =
        span (width env sz (tg_alloc s)) (tg_compactable s @ i # is)" for L d
  proof -
    have b: "items_below (al_next (tg_alloc s)) (tg_compactable t @ is)"
      using sub pend is_ by (auto simp: items_below_list)
    show ?thesis
      using emitted_trans[OF e Cons.IH[OF t(2) Cons.prems(2) pass_ok_step[OF Cons.prems(3) e sub]]]
        kept_layout_local[OF closed e b] L d by (simp del: span_simps layout_append layout.simps)
  qed
  have ctx: "dependencyContextFor (tg_deps s) (combineIDs (tg_unit_id s) (item_id i)) \<noteq> 0 \<longleftrightarrow>
      needed (tg_deps s) (tg_unit_id s) i"
    by (simp add: needed_def)
  consider "needed (tg_deps s) (tg_unit_id s) i" "is_variable i"
    | "needed (tg_deps s) (tg_unit_id s) i" "\<not> is_variable i"
    | "\<not> needed (tg_deps s) (tg_unit_id s) i" "is_field i"
    | "\<not> needed (tg_deps s) (tg_unit_id s) i" "is_variable i"
    | "\<not> needed (tg_deps s) (tg_unit_id s) i" "\<not> is_field i" "\<not> is_variable i"
    by blast
  then show ?case
  proof cases
    case 1
    then obtain i' s' c where "copyItem i s = Some (i', s')" "t = push_item (if c then set_parsing_only i' else i') s'"
      using t(1) ctx by (auto simp: generate_item_def bind_eq_Some_conv Let_def)
    then show ?thesis
      using next_[of "\<lambda>pos. []" 0] copy_push_emitted(1)[of i s i' s' env sz c] copy_push_emitted(2)[of i s i' s'] closed i 1 variable_no_field by simp
  next
    case 2
    then obtain s' i' s'' c where r: "compactAndAddItems n s = Some s'" "copyItem i s' = Some (i', s'')"
      "t = push_item (if c then set_parsing_only i' else i') s''"
      using t(1) ctx by (auto simp: generate_item_def bind_eq_Some_conv Let_def)
    note e1 = compactAndAddItems_emitted(1)[OF r(1) Cons.prems(3)]
      compactAndAddItems_emitted(2)[OF r(1) Cons.prems(3)]
    have "emitted env sz s' t (\<lambda>pos. if is_field i then [(item_id i, pos)] else [])
        (if is_field i then width env sz (tg_alloc s) i else 0)" and "tg_compactable t = []"
      using copy_push_emitted(1)[OF r(2), of env sz c] copy_push_emitted(2)[OF r(2)] e1(2) emitted_state[OF e1(1)] emitted_below[OF e1(1), of "[i]"]
        i width_local[OF closed _ i, of "tg_alloc s'" env sz] r(3)
      by (simp_all split del: if_split cong: if_cong)
    then show ?thesis
      using next_[OF emitted_trans[OF e1(1)]] 2 by (auto simp: kept_def algebra_simps)
  next
    case 3
    then have t': "t = s\<lparr>tg_compactable := tg_compactable s @ [i]\<rparr>"
      using t(1) ctx by (simp add: generate_item_def Let_def)
    then have "pass_ok env sz n t is" using Cons.prems(3) 3 by (auto simp: pass_ok_def)
    then show ?thesis using Cons.IH[OF t(2) Cons.prems(2)] t' by simp
  next
    case 4
    then have "t = s" using t(1) ctx variable_no_field by (simp add: generate_item_def Let_def)
    then show ?thesis using next_[of "\<lambda>pos. []" 0] emitted_refl[OF closed] 4 variable_no_field by simp
  next
    case 5
    then obtain i' s' where "copyItem i s = Some (i', s')" "t = push_item i' s'"
      using t(1) ctx by (auto simp: generate_item_def bind_eq_Some_conv Let_def)
    then show ?thesis
      using next_[of "\<lambda>pos. []" 0] copy_push_emitted(1)[of i s i' s' env sz False] copy_push_emitted(2)[of i s i' s'] closed i 5 by simp
  qed
qed

section \<open>Redirecting the copies\<close>

lemma base_set_unit_simps [simp]:
  "it_id (base_set_unit u b) = it_id b" "it_app_accessible (base_set_unit u b) = it_app_accessible b"
  "base_below N (base_set_unit u b) = base_below N b" "length_attr (base_set_unit u b) = length_attr b"
  "it_type (base_set_unit u b) = it_type b" "it_serialized_type (base_set_unit u b) = it_serialized_type b"
  by (simp_all add: base_set_unit_def base_below_def length_attr_def)

lemma set_unit_base [simp]: "base_of (set_unit u i) = base_set_unit u (base_of i)"
  by (cases i) simp_all

lemma set_unit_field [simp]: "is_field (set_unit u i) = is_field i"
  by (cases i) simp_all

lemma set_unit_below [simp]:
  "item_below N (set_unit u i) = item_below N i"
  "items_below N (set_units u is) = items_below N is"
  "cases_below N (set_unit_cases u cs) = cases_below N cs"
  by (induction u i and u "is" and u cs rule: set_unit_set_units_set_unit_cases.induct) simp_all

lemma set_unit_width: "width env sz al (set_unit u i) = width env sz al i"
proof -
  have "field_width env ts (set_unit u i) = field_width env ts i" for ts
    by (induction env ts i rule: field_width.induct)
      (simp_all add: atomic_width_base[of "base_set_unit u b" b for b] cong: option.case_cong)
  then show ?thesis unfolding width_def by (simp only: set_unit_base base_set_unit_simps)
qed

lemma replace_self_value:
  "length_value env (replace_self u e) = length_value env e"
  "map (length_value env) (replace_selfs u es) = map (length_value env) es"
proof (induction u e and u es rule: replace_self_replace_selfs.induct)
  case (6 u kind ops)
  have "self_field (replace_self u a) (replace_self u b) = self_field a b" for a b
    by (cases a; cases b) (auto simp: self_field_def)
  then show ?case using 6 by (auto split: list.splits)
qed (auto simp: const_integer_def)

lemma replace_attrs_lookup:
  "replace_attrs u as = Some as' \<Longrightarrow>
     map attr_key as' = map attr_key as \<and>
     attrs_lookup as' k = (case attrs_lookup as k of None \<Rightarrow> None
        | Some a \<Rightarrow> Some (Attr (attr_key a) (map_option (replace_self u) (attr_value a)) (attr_internal a)))"
  by (induction as arbitrary: as')
    (auto simp: bind_eq_Some_conv replace_attr_def split: option.splits)

lemma attrs_ok_keys: "map attr_key as' = map attr_key as \<Longrightarrow> attrs_ok as' = attrs_ok as"
proof -
  assume keys: "map attr_key as' = map attr_key as"
  have ok: "attrs_ok xs \<longleftrightarrow> sorted_wrt (<) (map attr_key xs) \<and> (\<forall>k\<in>set (map attr_key xs). strip_marks k = k)" for xs
    by (simp add: attrs_ok_def attrs_sorted_def sorted_wrt_map)
  show ?thesis unfolding ok keys ..
qed

lemma replace_base_same:
  assumes "replace_base u b = Some b'"
  shows "it_id b' = it_id b \<and> it_app_accessible b' = it_app_accessible b \<and> it_type b' = it_type b \<and>
    it_serialized_type b' = it_serialized_type b \<and> base_below N b' = base_below N b \<and>
    length_attr b' = map_option (replace_self u) (length_attr b)"
proof -
  obtain as where as: "replace_attrs u (it_attributes b) = Some as" "b' = b\<lparr>it_attributes := as\<rparr>"
    using assms by (auto simp: replace_base_def)
  then show ?thesis
    using replace_attrs_lookup[OF as(1), of "''length''"] attrs_ok_keys[of as "it_attributes b"]
    by (auto simp: base_below_def length_attr_def split: option.splits)
qed

lemma replace_item_same:
  assumes "replace_item u i = Some i'"
  shows "item_id i' = item_id i \<and> is_field i' = is_field i \<and> accessible i' = accessible i \<and>
    item_below N i' = item_below N i"
  using assms
  by (cases i) (auto simp: bind_eq_Some_conv accessible_def dest!: replace_base_same[where N = N])

lemma replace_item_width:
  assumes "replace_item u i = Some i'"
  shows "width env sz al i' = width env sz al i"
proof -
  have atomic: "atomic_width env ts b' (replace_field u f) = atomic_width env ts b f" if "replace_base u b = Some b'" for env ts b b' f
    using replace_base_same[OF that]
    by (intro atomic_width_base) (simp_all add: replace_field_def option.map_comp comp_def replace_self_value(1) cong: option.map_cong)
  have cond: "fd_condition (replace_field u f) = fd_condition f" for f
    by (simp add: replace_field_def)
  have "field_width env ts i' = field_width env ts i" for ts
    using assms by (induction env ts i rule: field_width.induct)
      (auto simp: bind_eq_Some_conv atomic cond replace_self_value(1))
  then show ?thesis
    unfolding width_def by (simp only: replace_item_same[OF assms])
qed

lemma redirect_layout:
  assumes "replace_items u (set_units u is) = Some is'"
  shows "layout accessible (width env sz al) is' pos = layout accessible (width env sz al) is pos"
    and "span (width env sz al) is' = span (width env sz al) is"
    and "items_below N is' = items_below N is"
proof -
  have one: "item_id j = item_id i \<and> is_field j = is_field i \<and> accessible j = accessible i \<and>
      item_below N j = item_below N i \<and> width env sz al j = width env sz al i"
    if "replace_item u (set_unit u i) = Some j" for i j
    using replace_item_same[OF that, of N] replace_item_width[OF that, of env sz al]
    by (simp add: accessible_def set_unit_width)
  show "layout accessible (width env sz al) is' pos = layout accessible (width env sz al) is pos"
    using assms one by (induction "is" arbitrary: is' pos) (auto simp: bind_eq_Some_conv)
  show "span (width env sz al) is' = span (width env sz al) is"
    using assms one by (induction "is" arbitrary: is') (auto simp: bind_eq_Some_conv)
  show "items_below N is' = items_below N is"
    using assms one by (induction "is" arbitrary: is') (auto simp: bind_eq_Some_conv)
qed

lemma generate_unit_layout:
  assumes "generate_unit n ps is s = Some s'" and "tg_compactable s = []" and "pass_ok env sz n s is"
  shows "\<exists>u' is'. tg_decls s' = tg_decls s @ [(tg_unit_name s, u')] \<and>
    unit_items (al_types (tg_alloc s')) u' = Some is' \<and>
    layout accessible (width env sz (tg_alloc s')) is' 0 = kept_layout env sz n s is 0 \<and>
    span (width env sz (tg_alloc s')) is' = span (width env sz (tg_alloc s)) is"
proof -
  obtain s1 s2 items where run: "generate_items n is (s\<lparr>tg_items := []\<rparr>) = Some s1" "compactAndAddItems n s1 = Some s2"
    "replace_items (al_next (tg_alloc s2)) (set_units (al_next (tg_alloc s2)) (tg_items s2)) = Some items"
    using assms(1) by (auto simp: generate_unit_def bind_eq_Some_conv Let_def)
  obtain u' al where al: "new_type \<lparr>ty_kind = TUnit ps items, ty_id = Some (tg_unit_name s2), ty_wildcard = False\<rparr>
      (tg_alloc s2) = (u', al)" by fastforce
  have s': "s' = s2\<lparr>tg_alloc := al, tg_decls := tg_decls s2 @ [(tg_unit_name s2, u')]\<rparr>"
    using assms(1) run al by (simp add: generate_unit_def Let_def)
  have "pass_ok env sz n (s\<lparr>tg_items := []\<rparr>) is" using assms(3) by (simp add: pass_ok_def)
  from generate_items_emitted[OF run(1,2) this]
  have e: "emitted env sz (s\<lparr>tg_items := []\<rparr>) s2 (kept_layout env sz n s is) (span (width env sz (tg_alloc s)) is)"
    using assms(2) by simp
  obtain "new" where new: "tg_items s2 = new" "closed_store (tg_alloc s2)" "items_below (al_next (tg_alloc s2)) new"
    "\<forall>pos. layout accessible (width env sz (tg_alloc s2)) new pos = kept_layout env sz n s is pos"
    "span (width env sz (tg_alloc s2)) new = span (width env sz (tg_alloc s)) is"
    using e by (rule emittedE) simp
  note below = redirect_layout(3)[OF run(3), of "al_next (tg_alloc s2)"]
  have ext: "extends (tg_alloc s2) al" by (rule new_type_extends[OF al])
  have "items_below (al_next (tg_alloc s2)) items" using below new by simp
  note local = layout_local(1,2)[OF new(2) ext this]
  have "unit_items (al_types al) u' = Some items" using al by (auto simp: new_type_def unit_items_def)
  then show ?thesis
    using s' emitted_state[OF e] local redirect_layout(1,2)[OF run(3)] new by simp
qed

definition sample_alloc :: alloc where
  "sample_alloc = \<lparr>al_types = sample_types, al_next = 6, al_anon = 0\<rparr>"

definition sample_deps :: "dependency list" where
  "sample_deps = [\<lparr>dep_id = [''len''], dep_context = 2\<rparr>, \<lparr>dep_id = [''body''], dep_context = 1\<rparr>]"

definition sample_env :: "ident \<Rightarrow> int option" where
  "sample_env m = (if m = [''len''] then Some 5 else None)"

lemma sample_closed: "closed_store sample_alloc"
  by (auto simp: closed_store_def sample_alloc_def sample_defs base_below_def below_def attrs_ok_def attrs_sorted_def)

lemma sample_generates: "\<exists>decls al'. generate_instantiation 2 [''Compact''] 3 sample_deps sample_alloc = Some (decls, al')"
proof -
  have "\<not> Option.is_none (generate_instantiation 2 [''Compact''] 3 sample_deps sample_alloc)"
    by code_simp
  then show ?thesis by (cases "generate_instantiation 2 [''Compact''] 3 sample_deps sample_alloc") auto
qed

text \<open>C10: whatever the dependencies of an instantiation are, the compacted unit the type generator
  builds for it has the layout of the original.  Widths are those of the fields in a message (field values
  \<open>env\<close>, sizes \<open>sz\<close> of the fields that are not integers, \<^verbatim>\<open>bytes\<close> or vectors of these): if every field is
  needed, or is of a kind whose width is determined by the unit's own fields, or has no length expression,
  then the fields the generator keeps are exactly the needed ones and those without a length expression, in
  their order and each at the offset it has in the original unit, and the two units have the same total
  length.  The excluded fields (not needed, but conditional, an embedded unit, a switch, a constant or a
  bitfield of a length the generator computes) are those the source marks as not yet handled.\<close>

theorem compaction_preserves_layout:
  assumes "closed_store al" and "al_types al u = Some ob" and "ty_kind ob = TUnit ps is" and "0 < n"
    and "\<forall>i\<in>set is. is_field i \<longrightarrow>
      needed deps [] i \<or> field_width env (al_types al) i \<noteq> None \<or> serialized_length n (al_types al) i = Some None"
    and "generate_instantiation n name u deps al = Some (decls, al')"
  shows "\<exists>u' is'. decls = [(name, u')] \<and> unit_items (al_types al') u' = Some is' \<and>
    layout accessible (width env sz al') is' 0 = layout (kept deps [] n al) (width env sz al) is 0 \<and>
    span (width env sz al') is' = span (width env sz al) is"
proof -
  have "items_below (al_next al) is" using assms(1-3) by (fastforce simp: closed_store_def)
  moreover have "measured env sz n al i" if "i \<in> set is" "is_field i" "\<not> needed deps [] i" for i
    using assms(4,5) that field_width_measured[of env al i _ n sz] by (auto simp: measured_def)
  ultimately show ?thesis
    using assms generate_unit_layout[of n ps "is" "\<lparr>tg_deps = deps, tg_decls = [], tg_unit_name = name, tg_unit_id = [],
        tg_items = [], tg_compactable = [], tg_alloc = al\<rparr>" _ env sz]
    by (auto simp: generate_instantiation_def pass_ok_def)
qed

theorem compaction_preserves_layout_witness:
  "\<exists>al' u' is'. generate_instantiation 2 [''Compact''] 3 sample_deps sample_alloc = Some ([([''Compact''], u')], al') \<and>
    unit_items (al_types al') u' = Some is' \<and>
    layout accessible (width sample_env (\<lambda>i. 0) al') is' 0 = [([''len''], 0), ([''body''], 3)] \<and>
    span (width sample_env (\<lambda>i. 0) al') is' = 8"
proof -
  obtain decls al' where run: "generate_instantiation 2 [''Compact''] 3 sample_deps sample_alloc = Some (decls, al')"
    using sample_generates by blast
  have ty: "al_types sample_alloc 3 = Some (plain_type (TUnit [] message_items) (Some [''Message'']))"
    by (simp add: sample_alloc_def sample_types_def)
  have kind: "ty_kind (plain_type (TUnit [] message_items) (Some [''Message''])) = TUnit [] message_items"
    by (simp add: plain_type_def)
  have "\<forall>i\<in>set message_items. is_field i \<longrightarrow> needed sample_deps [] i \<or>
      field_width sample_env (al_types sample_alloc) i \<noteq> None \<or> serialized_length 2 (al_types sample_alloc) i = Some None"
    by (simp add: message_items_def plain_base_def plain_field_def self_member_def sample_alloc_def sample_types_def
        plain_type_def atomic_width_def serialized_type_def length_attr_def self_field_def sample_env_def)
  moreover have "layout (kept sample_deps [] 2 sample_alloc) (width sample_env (\<lambda>i. 0) sample_alloc) message_items 0 =
      [([''len''], 0), ([''body''], 3)]" by code_simp
  moreover have "span (width sample_env (\<lambda>i. 0) sample_alloc) message_items = 8" by code_simp
  ultimately show ?thesis
    using compaction_preserves_layout[OF sample_closed ty kind _ _ run, of sample_env "\<lambda>i. 0"] run by auto
qed

end
