(* ===== verification/Kode_Code.thy ===== *)
theory Kode_Code
  imports Util_String
begin

text \<open>
  \<^verbatim>\<open>KODE::Code\<close> (\<^verbatim>\<open>externals/libkode/code.cpp\<close>): the text buffer with an indentation into which all generated
  C++ is written.  Blocks are split into lines by \<^verbatim>\<open>boost::algorithm::split\<close> and texts trimmed by
  \<^verbatim>\<open>boost::algorithm::trim\<close>; boost is not part of the repository, so the two are parameters.
\<close>

record kcode =
  kc_text :: string
  kc_indent :: int

definition s_defaultIndentation :: int where
  "s_defaultIndentation = 2"

abbreviation newline :: char where
  "newline \<equiv> CHR 0x0A"

definition Code :: kcode where
  "Code = \<lparr>kc_text = [], kc_indent = 0\<rparr>"

definition Code_indent :: "int \<Rightarrow> kcode" where
  "Code_indent i = \<lparr>kc_text = [], kc_indent = i\<rparr>"

definition code_clear :: "kcode \<Rightarrow> kcode" where
  "code_clear c = c\<lparr>kc_indent := 0, kc_text := []\<rparr>"

definition code_isEmpty :: "kcode \<Rightarrow> bool" where
  "code_isEmpty c \<longleftrightarrow> kc_text c = []"

definition setIndent :: "int \<Rightarrow> kcode \<Rightarrow> kcode" where
  "setIndent i c = c\<lparr>kc_indent := i\<rparr>"

definition indent :: "kcode \<Rightarrow> kcode" where
  "indent c = c\<lparr>kc_indent := kc_indent c + s_defaultIndentation\<rparr>"

definition unindent :: "kcode \<Rightarrow> kcode" where
  "unindent c =
     (let i = kc_indent c - s_defaultIndentation in c\<lparr>kc_indent := (if i < 0 then 0 else i)\<rparr>)"

definition spaces :: "int \<Rightarrow> string" where
  "spaces count = replicate (nat count) (CHR '' '')"

definition addLine :: "string \<Rightarrow> kcode \<Rightarrow> kcode" where
  "addLine line c = c\<lparr>kc_text := kc_text c @ spaces (kc_indent c) @ line @ [newline]\<rparr>"

definition addLine_char :: "char \<Rightarrow> kcode \<Rightarrow> kcode" where
  "addLine_char ch c = c\<lparr>kc_text := kc_text c @ spaces (kc_indent c) @ [ch] @ [newline]\<rparr>"

definition newLine :: "kcode \<Rightarrow> kcode" where
  "newLine c = c\<lparr>kc_text := kc_text c @ [newline]\<rparr>"

definition block_lines :: "(string \<Rightarrow> string list) \<Rightarrow> string \<Rightarrow> string list" where
  "block_lines split block =
     (let ls = split block in if ls \<noteq> [] \<and> last ls = [] then butlast ls else ls)"

definition add_block_line :: "kcode \<Rightarrow> string \<Rightarrow> kcode" where
  "add_block_line c l =
     c\<lparr>kc_text := kc_text c @ (if l \<noteq> [] then spaces (kc_indent c) else []) @ l @ [newline]\<rparr>"

definition addBlock :: "(string \<Rightarrow> string list) \<Rightarrow> string \<Rightarrow> kcode \<Rightarrow> kcode" where
  "addBlock split block c = foldl add_block_line c (block_lines split block)"

definition addBlock_indent :: "(string \<Rightarrow> string list) \<Rightarrow> string \<Rightarrow> int \<Rightarrow> kcode \<Rightarrow> kcode" where
  "addBlock_indent split block i c =
     (addBlock split block (c\<lparr>kc_indent := i\<rparr>))\<lparr>kc_indent := kc_indent c\<rparr>"

definition addBlock_code :: "(string \<Rightarrow> string list) \<Rightarrow> kcode \<Rightarrow> kcode \<Rightarrow> kcode" where
  "addBlock_code split b c = addBlock split (kc_text b) c"

text \<open>An \<^verbatim>\<open>int\<close> compared with a \<^verbatim>\<open>size_t\<close> is converted to 64 bits without sign.\<close>

definition as_size :: "int \<Rightarrow> int" where
  "as_size i = i mod 2 ^ 64"

partial_function (option) wrap_loop :: "int \<Rightarrow> string \<Rightarrow> int \<Rightarrow> kcode \<Rightarrow> kcode option" where
  "wrap_loop maxWidth txt pos c =
     (if as_size pos < int (length txt)
      then wrap_loop maxWidth txt (pos + maxWidth)
             (addLine (take (nat (as_size maxWidth)) (drop (nat pos) txt)) c)
      else Some c)"

definition addWrappedText :: "string \<Rightarrow> kcode \<Rightarrow> kcode option" where
  "addWrappedText txt c = wrap_loop (80 - kc_indent c) txt 0 c"

fun format_loop :: "(string \<Rightarrow> string) \<Rightarrow> int \<Rightarrow> string list \<Rightarrow> string \<Rightarrow> int \<Rightarrow> kcode \<Rightarrow> kcode" where
  "format_loop trim maxWidth [] line lineLength c = addLine (trim line) c"
| "format_loop trim maxWidth (w # ws) line lineLength c =
     (if int (length w) + lineLength \<ge> as_size maxWidth
      then format_loop trim maxWidth ws (w @ '' '') (int (length w) + 1) (addLine (trim line) c)
      else format_loop trim maxWidth ws (line @ w @ '' '') (lineLength + int (length w) + 1) c)"

definition addFormattedText ::
  "(string \<Rightarrow> string list) \<Rightarrow> (string \<Rightarrow> string) \<Rightarrow> string \<Rightarrow> kcode \<Rightarrow> kcode" where
  "addFormattedText split_words trim txt c = format_loop trim (80 - kc_indent c) (split_words txt) [] 0 c"

definition code_plus :: "kcode \<Rightarrow> kcode \<Rightarrow> kcode" where
  "code_plus c other = c\<lparr>kc_text := kc_text c @ kc_text other\<rparr>"

section \<open>Splitting and joining lines\<close>

text \<open>What the documentation of \<^verbatim>\<open>boost::algorithm::split\<close> with \<^verbatim>\<open>is_any_of("\n")\<close> says: the tokens
  between separators, empty ones included, so that joining the tokens gives the input back and no
  token contains a separator.\<close>

definition splits_lines :: "(string \<Rightarrow> string list) \<Rightarrow> bool" where
  "splits_lines split \<longleftrightarrow>
     (\<forall>s. split s \<noteq> [] \<and> s = concat (map (\<lambda>l. l @ [newline]) (butlast (split s))) @ last (split s) \<and>
        (\<forall>l\<in>set (split s). newline \<notin> set l))"

lemma spaces_max: "spaces (max i 0) = spaces i"
  by (simp add: spaces_def max_def)

lemma spaces_add: "0 \<le> i \<Longrightarrow> 0 \<le> k \<Longrightarrow> spaces (i + k) = spaces k @ spaces i"
  by (simp add: spaces_def nat_add_distrib replicate_add[symmetric] add.commute)

lemma spaces_no_newline [simp]: "newline \<notin> set (spaces i)"
  by (auto simp: spaces_def)

lemma spaces_empty: "spaces i = [] \<longleftrightarrow> i \<le> 0"
  by (simp add: spaces_def)

definition join_lines :: "string list \<Rightarrow> string" where
  "join_lines ls = concat (map (\<lambda>l. l @ [newline]) ls)"

lemma join_lines_simps [simp]:
  "join_lines [] = []" "join_lines (l # ls) = l @ newline # join_lines ls"
  "join_lines (ls @ ms) = join_lines ls @ join_lines ms"
  by (simp_all add: join_lines_def)

lemma newline_append_cancel:
  "newline \<notin> set a \<Longrightarrow> newline \<notin> set b \<Longrightarrow> a @ newline # x = b @ newline # y \<longleftrightarrow> a = b \<and> x = y"
  by (induction a arbitrary: b) (case_tac [!] b, auto)

lemma join_lines_inj:
  "join_lines xs @ x = join_lines ys @ y \<Longrightarrow> newline \<notin> set x \<Longrightarrow> newline \<notin> set y \<Longrightarrow>
     \<forall>l\<in>set xs. newline \<notin> set l \<Longrightarrow> \<forall>l\<in>set ys. newline \<notin> set l \<Longrightarrow> xs = ys \<and> x = y"
proof (induction xs arbitrary: ys)
  case Nil
  then show ?case by (cases ys) auto
next
  case (Cons a xs)
  show ?case
  proof (cases ys)
    case Nil
    then show ?thesis using Cons.prems by auto
  next
    case (Cons b zs)
    then show ?thesis
      using Cons.prems Cons.IH[of zs] newline_append_cancel[of a b "join_lines xs @ x" "join_lines zs @ y"] by simp
  qed
qed

lemma split_join_lines:
  assumes "splits_lines split" and "\<forall>l\<in>set ls. newline \<notin> set l"
  shows "split (join_lines ls) = ls @ [[]]"
proof -
  let ?r = "split (join_lines ls)"
  have r: "?r \<noteq> []" "join_lines ls = join_lines (butlast ?r) @ last ?r" "\<forall>l\<in>set ?r. newline \<notin> set l"
    using assms(1) by (auto simp: splits_lines_def join_lines_def)
  have "\<forall>l\<in>set (butlast ?r). newline \<notin> set l" "newline \<notin> set (last ?r)"
    using r by (auto dest: in_set_butlastD)
  then have "ls = butlast ?r \<and> [] = last ?r"
    using join_lines_inj[of ls "[]" "butlast ?r" "last ?r"] r(2) assms(2) by simp
  then show ?thesis using append_butlast_last_id[OF r(1)] by simp
qed

lemma block_lines_join:
  "splits_lines split \<Longrightarrow> \<forall>l\<in>set ls. newline \<notin> set l \<Longrightarrow> block_lines split (join_lines ls) = ls"
  by (simp add: block_lines_def split_join_lines)

end
