(* ===== verification/Kode_Class.thy ===== *)
theory Kode_Class
  imports Kode_Code Decimal
begin

text \<open>
  The description of C++ declarations in libkode: \<^verbatim>\<open>style.cpp\<close>, \<^verbatim>\<open>variable.cpp\<close>, \<^verbatim>\<open>membervariable.cpp\<close>,
  \<^verbatim>\<open>typedef.cpp\<close>, \<^verbatim>\<open>function.cpp\<close>, \<^verbatim>\<open>enum.cpp\<close>, \<^verbatim>\<open>class.cpp\<close> and \<^verbatim>\<open>file.cpp\<close>.

  What libkode calls from boost is collected in the record \<open>boost\<close>, a parameter of the operations that use
  it.  \<^const>\<open>None\<close> stands for a failed assertion or an exception.
\<close>

unbundle bit_operations_syntax

record boost =
  b_split :: "string \<Rightarrow> string \<Rightarrow> string list"
  b_split_compress :: "string \<Rightarrow> string \<Rightarrow> string list"
  b_split_regex :: "string \<Rightarrow> string \<Rightarrow> string list"
  b_join :: "string list \<Rightarrow> string \<Rightarrow> string"
  b_trim :: "string \<Rightarrow> string"
  b_to_upper :: "string \<Rightarrow> string"
  b_to_lower :: "string \<Rightarrow> string"
  b_ends_with :: "string \<Rightarrow> string \<Rightarrow> bool"
  b_format :: "string \<Rightarrow> string list \<Rightarrow> string"
  b_filename :: "string \<Rightarrow> string"

section \<open>Names\<close>

definition replace_char :: "char \<Rightarrow> char \<Rightarrow> string \<Rightarrow> string" where
  "replace_char old new s = map (\<lambda>c. if c = old then new else c) s"

definition upperFirst :: "string \<Rightarrow> string" where
  "upperFirst s = (case s of [] \<Rightarrow> [] | c # cs \<Rightarrow> strtoupper [c] @ cs)"

definition lowerFirst :: "string \<Rightarrow> string" where
  "lowerFirst s = (case s of [] \<Rightarrow> [] | c # cs \<Rightarrow> strtolower [c] @ cs)"

definition sanitize :: "string \<Rightarrow> string" where
  "sanitize s =
     (if s = ''class'' then ''class_name''
      else if s = ''signals'' then ''signal_s''
      else if s = ''slots'' then ''slot_s''
      else replace_char (CHR '':'') (CHR ''_'') (replace_char (CHR '';'') (CHR ''_'')
             (replace_char (CHR ''-'') (CHR ''_'') s)))"

definition className :: "string \<Rightarrow> string option" where
  "className s = (if s = [] then None else Some (sanitize (upperFirst s)))"

definition makeIdentifier :: "string \<Rightarrow> string option" where
  "makeIdentifier s =
     (case replace_char (CHR '' '') (CHR ''_'') (replace_char (CHR '':'') (CHR ''_'')
             (replace_char (CHR ''/'') (CHR ''_'') (replace_char (CHR ''.'') (CHR ''_'')
                (replace_char (CHR ''-'') (CHR ''_'') s)))) of
        [] \<Rightarrow> None
      | c # cs \<Rightarrow> Some (if CHR ''0'' \<le> c \<and> c \<le> CHR ''9'' then CHR ''_'' # c # cs else c # cs))"

section \<open>Variables, typedefs and functions\<close>

definition acc_Public :: nat where "acc_Public = 1"
definition acc_Protected :: nat where "acc_Protected = 2"
definition acc_Private :: nat where "acc_Private = 4"
definition acc_Signal :: nat where "acc_Signal = 8"
definition acc_Slot :: nat where "acc_Slot = 16"

record kvariable =
  kv_type :: string
  kv_name :: string
  kv_static :: bool
  kv_initializer :: string

definition KVariable :: "string \<Rightarrow> string \<Rightarrow> bool \<Rightarrow> kvariable option" where
  "KVariable name ty st =
     (if name = [] then None else Some \<lparr>kv_type = ty, kv_name = name, kv_static = st, kv_initializer = []\<rparr>)"

record kmember = kvariable +
  km_access :: nat

definition MemberVariable :: "string \<Rightarrow> string \<Rightarrow> bool \<Rightarrow> nat \<Rightarrow> kmember option" where
  "MemberVariable name ty st acc =
     (if name = [] then None
      else map_option (\<lambda>n. \<lparr>kv_type = ty, kv_name = n, kv_static = st, kv_initializer = [], km_access = acc\<rparr>)
             (makeIdentifier name))"

record ktypedef =
  kt_type :: string
  kt_alias :: string

definition typedef_declaration :: "ktypedef \<Rightarrow> string" where
  "typedef_declaration t = ''typedef '' @ kt_type t @ '' '' @ kt_alias t @ '';''"

record kargument =
  ka_declaration :: string
  ka_default :: string

definition headerDeclaration :: "kargument \<Rightarrow> string" where
  "headerDeclaration a =
     (if ka_default a = [] then ka_declaration a else ka_declaration a @ '' = '' @ ka_default a)"

definition bodyDeclaration :: "kargument \<Rightarrow> string" where
  "bodyDeclaration a = ka_declaration a"

datatype virtual_mode = NotVirtual | Virtual | PureVirtual

record kfunction =
  kf_access :: nat
  kf_const :: bool
  kf_static :: bool
  kf_return :: string
  kf_name :: string
  kf_arguments :: "kargument list"
  kf_initializers :: "string list"
  kf_body :: string
  kf_docs :: string
  kf_virtual :: virtual_mode

definition Function0 :: kfunction where
  "Function0 =
     \<lparr>kf_access = acc_Public, kf_const = False, kf_static = False, kf_return = [], kf_name = [],
      kf_arguments = [], kf_initializers = [], kf_body = [], kf_docs = [], kf_virtual = NotVirtual\<rparr>"

definition setReturnType :: "string \<Rightarrow> kfunction \<Rightarrow> kfunction option" where
  "setReturnType ty f = (if ty = ''*'' then None else Some (f\<lparr>kf_return := ty\<rparr>))"

definition Function :: "string \<Rightarrow> string \<Rightarrow> nat \<Rightarrow> bool \<Rightarrow> kfunction option" where
  "Function name ret acc st =
     setReturnType ret (Function0\<lparr>kf_access := acc, kf_static := st, kf_name := name\<rparr>)"

definition addArgument :: "string \<Rightarrow> string \<Rightarrow> kfunction \<Rightarrow> kfunction" where
  "addArgument decl dflt f =
     f\<lparr>kf_arguments := kf_arguments f @ [\<lparr>ka_declaration = decl, ka_default = dflt\<rparr>]\<rparr>"

definition setArgumentString :: "boost \<Rightarrow> string \<Rightarrow> kfunction \<Rightarrow> kfunction" where
  "setArgumentString B s f =
     foldl (\<lambda>g a. addArgument a [] g) (f\<lparr>kf_arguments := []\<rparr>) (b_split B '','' s)"

definition addInitializer :: "string \<Rightarrow> kfunction \<Rightarrow> kfunction" where
  "addInitializer i f = f\<lparr>kf_initializers := kf_initializers f @ [i]\<rparr>"

definition setBody :: "string \<Rightarrow> kfunction \<Rightarrow> kfunction" where
  "setBody b f = f\<lparr>kf_body := b\<rparr>"

definition setBody_code :: "kcode \<Rightarrow> kfunction \<Rightarrow> kfunction" where
  "setBody_code c f = f\<lparr>kf_body := kc_text c\<rparr>"

definition addBodyLine :: "string \<Rightarrow> kfunction \<Rightarrow> kfunction option" where
  "addBodyLine l f =
     (if l = [] then None
      else Some (f\<lparr>kf_body := kf_body f @ l @ (if last l \<noteq> newline then [newline] else [])\<rparr>))"

definition accessAsString :: "kfunction \<Rightarrow> string" where
  "accessAsString f =
     (let a = kf_access f;
          s = (if a AND acc_Public \<noteq> 0 then ''public'' else []);
          s = (if a AND acc_Protected \<noteq> 0 then ''protected'' else s);
          s = (if a AND acc_Private \<noteq> 0 then ''private'' else s);
          s = (if a AND acc_Signal \<noteq> 0 then ''signals'' else s)
      in if a AND acc_Slot \<noteq> 0 then s @ '' slots'' else s)"

definition hasArguments :: "kfunction \<Rightarrow> bool" where
  "hasArguments f \<longleftrightarrow> kf_arguments f \<noteq> []"

section \<open>Enumerations\<close>

record kenum =
  ke_name :: string
  ke_labels :: "(string \<times> bool \<times> int) list"
  ke_combinable :: bool
  ke_class :: bool

definition Enum_labels :: "string \<Rightarrow> string list \<Rightarrow> bool \<Rightarrow> bool \<Rightarrow> kenum" where
  "Enum_labels name ls combinable cls =
     \<lparr>ke_name = name, ke_labels = map (\<lambda>l. (l, False, 0)) ls, ke_combinable = combinable, ke_class = cls\<rparr>"

definition Enum_values :: "string \<Rightarrow> (string \<times> bool \<times> int) list \<Rightarrow> bool \<Rightarrow> kenum" where
  "Enum_values name ls cls = \<lparr>ke_name = name, ke_labels = ls, ke_combinable = False, ke_class = cls\<rparr>"

definition enum_baseName :: "boost \<Rightarrow> kenum \<Rightarrow> string" where
  "enum_baseName B e =
     (if b_ends_with B (ke_name e) ''Enum'' \<and> 4 < length (ke_name e)
      then take (length (ke_name e) - 4) (ke_name e) else ke_name e)"

fun enum_label_texts :: "boost \<Rightarrow> bool \<Rightarrow> nat \<Rightarrow> (string \<times> bool \<times> int) list \<Rightarrow> string" where
  "enum_label_texts B combinable value [] = []"
| "enum_label_texts B combinable value ((l, has, v) # ls) =
     (let sep = (if value = 0 then '' '' else '', '')
      in if combinable then
           b_format B (sep @ ''%1% = %2%'') [sanitize l, dec_int (signed_take_bit 31 (push_bit value 1))]
         else if has then b_format B (sep @ ''%1% = %2%'') [sanitize l, dec_int v]
         else sep @ sanitize l) @
     enum_label_texts B combinable (value + 1) ls"

definition enum_declaration :: "boost \<Rightarrow> kenum \<Rightarrow> string" where
  "enum_declaration B e =
     ''enum '' @ (if ke_class e then ''class '' else []) @ ke_name e @ '' {'' @
     enum_label_texts B (ke_combinable e) 0 (ke_labels e) @ '' };''"

abbreviation quote :: string where
  "quote \<equiv> [CHR 0x22]"

fun parser_tests :: "string \<Rightarrow> bool \<Rightarrow> (string \<times> bool \<times> int) list \<Rightarrow> kcode \<Rightarrow> kcode" where
  "parser_tests base first [] c = c"
| "parser_tests base first ((l, has, v) # ls) c =
     parser_tests base False ls
       (unindent (addLine (''return '' @ base @ ''_'' @ sanitize l @ '';'')
          (indent (addLine ((if first then [] else ''} else '') @ ''if ( v == '' @ quote @ l @ quote @ '' ) {'') c))))"

definition parserMethod :: "boost \<Rightarrow> kenum \<Rightarrow> kfunction option" where
  "parserMethod B e =
     (let base = enum_baseName B e;
          c1 = newLine (addLine ''if (ok) *ok = true;'' Code);
          c2 = parser_tests base True (ke_labels e) c1;
          c3 = indent (addLine ''} else {'' c2);
          c4 = addLine (''return '' @ base @ ''_Invalid;'') (addLine ''if (ok) *ok = false;'' c3);
          c5 = newLine (addLine ''}'' (unindent c4));
          c6 = addLine (''return '' @ base @ ''_Invalid;'') c5
      in map_option
           (\<lambda>f. setBody_code c6 (addArgument ''bool *ok'' ''NULL''
                  (addArgument ''const std::string & v'' [] (f\<lparr>kf_static := True\<rparr>))))
           (Function (lowerFirst (ke_name e) @ ''FromString'') (ke_name e) acc_Public False))"

definition writerMethod :: "boost \<Rightarrow> kenum \<Rightarrow> kfunction option" where
  "writerMethod B e =
     (let base = enum_baseName B e;
          c1 = indent (addLine ''switch( v ) {'' Code);
          c2 = foldl (\<lambda>c (l, has, v).
                 addLine (b_format B (''case %1%: return '' @ quote @ ''%2%'' @ quote @ '';'')
                            [base @ ''_'' @ sanitize l, l]) c) c1 (ke_labels e);
          c3 = indent (addLine ''default:'' (addLine (''case '' @ base @ ''_Invalid:'') c2));
          c4 = addLine (b_format B (''std::cerr << '' @ quote @
                 ''Unable to serialize a(n) %1 enum because it has invalid value'' @ quote @ '' << %2;'')
                 [ke_name e, ''v'']) c3;
          c5 = unindent (unindent (addLine ''return std::string();'' c4));
          c6 = addLine ''}'' c5
      in map_option
           (\<lambda>f. setBody_code c6 (addArgument (b_format B ''const %1% & v'' [ke_name e]) [] (f\<lparr>kf_static := True\<rparr>)))
           (Function (lowerFirst (ke_name e) @ ''ToString'') ''std::string'' acc_Public False))"

end
