(* ===== verification/Kode_File.thy ===== *)
theory Kode_File
  imports Kode_Class
begin

text \<open>
  Classes and files of libkode: \<^verbatim>\<open>class.cpp\<close> and \<^verbatim>\<open>file.cpp\<close>.

  A pointer to a class of a file is its position in the list of classes, which later insertions do
  not change.  The sorting of classes by dependencies and \<^verbatim>\<open>setNamespaceAndName\<close> are never called and not
  modelled.
\<close>

section \<open>Classes\<close>

record class_data =
  cd_name :: string
  cd_namespace :: string
  cd_export :: string
  cd_dpointer :: string
  cd_shared :: bool
  cd_copied :: bool
  cd_functions :: "kfunction list"
  cd_members :: "kmember list"
  cd_includes :: "string list"
  cd_forward :: "string list"
  cd_header_includes :: "string list"
  cd_typedefs :: "ktypedef list"
  cd_enums :: "kenum list"
  cd_docs :: string
  cd_parent :: string
  cd_macros :: "string list"

datatype kclass = KClass (cl_data: class_data) (cl_bases: "kclass list") (cl_nested: "kclass list")

definition on_data :: "(class_data \<Rightarrow> class_data) \<Rightarrow> kclass \<Rightarrow> kclass" where
  "on_data f c = KClass (f (cl_data c)) (cl_bases c) (cl_nested c)"

definition Class :: "string \<Rightarrow> string \<Rightarrow> kclass option" where
  "Class name ns =
     (if name = [] then None
      else Some (KClass
        \<lparr>cd_name = name, cd_namespace = ns, cd_export = [], cd_dpointer = [], cd_shared = False, cd_copied = False,
         cd_functions = [], cd_members = [], cd_includes = [], cd_forward = [], cd_header_includes = [],
         cd_typedefs = [], cd_enums = [], cd_docs = [], cd_parent = [], cd_macros = []\<rparr> [] []))"

definition class_setName :: "string \<Rightarrow> kclass \<Rightarrow> kclass option" where
  "class_setName name c = (if name = [] then None else Some (on_data (\<lambda>d. d\<lparr>cd_name := name\<rparr>) c))"

definition class_name :: "kclass \<Rightarrow> string" where
  "class_name c = cd_name (cl_data c)"

definition class_setNameSpace :: "string \<Rightarrow> kclass \<Rightarrow> kclass" where
  "class_setNameSpace ns c = on_data (\<lambda>d. d\<lparr>cd_namespace := ns\<rparr>) c"

definition qualifiedName :: "kclass \<Rightarrow> string" where
  "qualifiedName c =
     (if cd_namespace (cl_data c) = [] then class_name c else cd_namespace (cl_data c) @ ''::'' @ class_name c)"

definition setUseDPointer :: "bool \<Rightarrow> string \<Rightarrow> kclass \<Rightarrow> kclass" where
  "setUseDPointer use p c = on_data (\<lambda>d. d\<lparr>cd_dpointer := (if use then p else [])\<rparr>) c"

definition useDPointer :: "kclass \<Rightarrow> bool" where
  "useDPointer c \<longleftrightarrow> cd_dpointer (cl_data c) \<noteq> []"

definition setUseSharedData :: "bool \<Rightarrow> string \<Rightarrow> kclass \<Rightarrow> kclass" where
  "setUseSharedData b p c =
     (let c' = on_data (\<lambda>d. d\<lparr>cd_shared := b\<rparr>) c
      in if b then on_data (\<lambda>d. d\<lparr>cd_copied := True\<rparr>) (setUseDPointer True p c') else c')"

definition setCanBeCopied :: "bool \<Rightarrow> kclass \<Rightarrow> kclass" where
  "setCanBeCopied b c = on_data (\<lambda>d. d\<lparr>cd_copied := b\<rparr>) c"

definition push_new :: "string \<Rightarrow> string list \<Rightarrow> string list" where
  "push_new x xs = (if x \<in> set xs then xs else xs @ [x])"

definition class_addInclude :: "string \<Rightarrow> string \<Rightarrow> kclass \<Rightarrow> kclass" where
  "class_addInclude inc fwd c =
     on_data (\<lambda>d. d\<lparr>cd_includes := (if inc = [] then cd_includes d else push_new inc (cd_includes d)),
                    cd_forward := (if fwd = [] then cd_forward d else push_new fwd (cd_forward d))\<rparr>) c"

definition addIncludes :: "string list \<Rightarrow> string list \<Rightarrow> kclass \<Rightarrow> kclass" where
  "addIncludes files fwds c =
     on_data (\<lambda>d. d\<lparr>cd_includes := foldl (\<lambda>xs x. if x = [] then xs else push_new x xs) (cd_includes d) files,
                    cd_forward := foldl (\<lambda>xs x. push_new x xs) (cd_forward d) fwds\<rparr>) c"

definition addHeaderInclude :: "string \<Rightarrow> kclass \<Rightarrow> kclass" where
  "addHeaderInclude inc c =
     (if inc = [] then c
      else on_data (\<lambda>d. d\<lparr>cd_header_includes := push_new inc (cd_header_includes d)\<rparr>) c)"

definition addHeaderIncludes :: "string list \<Rightarrow> kclass \<Rightarrow> kclass" where
  "addHeaderIncludes incs c = foldl (\<lambda>c i. addHeaderInclude i c) c incs"

definition addBaseClass :: "kclass \<Rightarrow> kclass \<Rightarrow> kclass" where
  "addBaseClass b c = KClass (cl_data c) (cl_bases c @ [b]) (cl_nested c)"

definition addFunction :: "kfunction \<Rightarrow> kclass \<Rightarrow> kclass" where
  "addFunction f c = on_data (\<lambda>d. d\<lparr>cd_functions := cd_functions d @ [f]\<rparr>) c"

definition addMemberVariable :: "kmember \<Rightarrow> kclass \<Rightarrow> kclass" where
  "addMemberVariable v c = on_data (\<lambda>d. d\<lparr>cd_members := cd_members d @ [v]\<rparr>) c"

definition addTypedef :: "ktypedef \<Rightarrow> kclass \<Rightarrow> kclass" where
  "addTypedef t c = on_data (\<lambda>d. d\<lparr>cd_typedefs := cd_typedefs d @ [t]\<rparr>) c"

text \<open>The second pair of setters is applied to the parser function, which has already been copied into
  the class, not to the writer function.\<close>

definition addEnum :: "boost \<Rightarrow> kenum \<Rightarrow> kclass \<Rightarrow> kclass option" where
  "addEnum B e c =
     do { let c1 = on_data (\<lambda>d. d\<lparr>cd_enums := cd_enums d @ [e]\<rparr>) c;
          p \<leftarrow> parserMethod B e;
          p1 \<leftarrow> setReturnType (class_name c @ ''::'' @ kf_return p) p;
          let c2 = addFunction (p1\<lparr>kf_access := acc_Private\<rparr>) c1;
          w \<leftarrow> writerMethod B e;
          _ \<leftarrow> setReturnType (class_name c @ ''::'' @ kf_return w) p1;
          Some (addFunction w c2) }"

definition hasEnum :: "string \<Rightarrow> kclass \<Rightarrow> bool" where
  "hasEnum name c \<longleftrightarrow> list_ex (\<lambda>e. ke_name e = name) (cd_enums (cl_data c))"

definition class_isValid :: "kclass \<Rightarrow> bool" where
  "class_isValid c \<longleftrightarrow> class_name c \<noteq> []"

definition hasFunction :: "string \<Rightarrow> kclass \<Rightarrow> bool" where
  "hasFunction name c \<longleftrightarrow> list_ex (\<lambda>f. kf_name f = name) (cd_functions (cl_data c))"

definition isQObject :: "kclass \<Rightarrow> bool" where
  "isQObject c \<longleftrightarrow>
     list_ex (\<lambda>f. kf_access f AND acc_Signal \<noteq> 0 \<or> kf_access f AND acc_Slot \<noteq> 0) (cd_functions (cl_data c))"

definition class_setDocs :: "string \<Rightarrow> kclass \<Rightarrow> kclass" where
  "class_setDocs s c = on_data (\<lambda>d. d\<lparr>cd_docs := s\<rparr>) c"

definition setParentClassName :: "string \<Rightarrow> kclass \<Rightarrow> kclass" where
  "setParentClassName name c = on_data (\<lambda>d. d\<lparr>cd_parent := name\<rparr>) c"

definition addNestedClass :: "kclass \<Rightarrow> kclass \<Rightarrow> kclass" where
  "addNestedClass n c = KClass (cl_data c) (cl_bases c) (cl_nested c @ [setParentClassName (class_name c) n])"

definition addDeclarationMacro :: "string \<Rightarrow> kclass \<Rightarrow> kclass" where
  "addDeclarationMacro m c = on_data (\<lambda>d. d\<lparr>cd_macros := cd_macros d @ [m]\<rparr>) c"

definition setExportDeclaration :: "string \<Rightarrow> kclass \<Rightarrow> kclass" where
  "setExportDeclaration s c = on_data (\<lambda>d. d\<lparr>cd_export := s\<rparr>) c"

definition findClass_name :: "string \<Rightarrow> kclass list \<Rightarrow> kclass option" where
  "findClass_name name cs = List.find (\<lambda>c. class_name c = name) cs"

definition classNames :: "kclass list \<Rightarrow> string list" where
  "classNames cs = map class_name cs"

section \<open>Files\<close>

record kfile =
  fl_header :: string
  fl_impl :: string
  fl_namespace :: string
  fl_project :: string
  fl_copyrights :: "string list"
  fl_license :: string
  fl_includes :: "string list"
  fl_classes :: "kclass list"
  fl_variables :: "kvariable list"
  fl_functions :: "kfunction list"
  fl_enums :: "kenum list"
  fl_externs :: "string list"
  fl_code :: kcode
  fl_header_code :: kcode

definition File :: kfile where
  "File =
     \<lparr>fl_header = [], fl_impl = [], fl_namespace = [], fl_project = [], fl_copyrights = [], fl_license = [],
      fl_includes = [], fl_classes = [], fl_variables = [], fl_functions = [], fl_enums = [], fl_externs = [],
      fl_code = Code, fl_header_code = Code\<rparr>"

definition setFilename :: "string \<Rightarrow> kfile \<Rightarrow> kfile" where
  "setFilename name f = f\<lparr>fl_impl := name @ ''.cpp'', fl_header := name @ ''.h''\<rparr>"

definition setImplementationFilename :: "string \<Rightarrow> kfile \<Rightarrow> kfile" where
  "setImplementationFilename name f = f\<lparr>fl_impl := name\<rparr>"

definition setHeaderFilename :: "string \<Rightarrow> kfile \<Rightarrow> kfile" where
  "setHeaderFilename name f = f\<lparr>fl_header := name\<rparr>"

definition filenameHeader :: "boost \<Rightarrow> kfile \<Rightarrow> string" where
  "filenameHeader B f =
     (if fl_header f \<noteq> [] then fl_header f
      else case fl_classes f of [] \<Rightarrow> [] | c # cs \<Rightarrow> b_to_lower B (class_name c) @ ''.h'')"

definition filenameImplementation :: "boost \<Rightarrow> kfile \<Rightarrow> string" where
  "filenameImplementation B f =
     (if fl_impl f \<noteq> [] then fl_impl f
      else case fl_classes f of [] \<Rightarrow> [] | c # cs \<Rightarrow> b_to_lower B (class_name c) @ ''.cpp'')"

definition file_setNameSpace :: "string \<Rightarrow> kfile \<Rightarrow> kfile" where
  "file_setNameSpace ns f = f\<lparr>fl_namespace := ns\<rparr>"

definition setProject :: "string \<Rightarrow> kfile \<Rightarrow> kfile" where
  "setProject p f = (if p = [] then f else f\<lparr>fl_project := p\<rparr>)"

definition addCopyright :: "int \<Rightarrow> string \<Rightarrow> string \<Rightarrow> kfile \<Rightarrow> kfile" where
  "addCopyright year name email f =
     f\<lparr>fl_copyrights := fl_copyrights f @
         [''Copyright (c) '' @ dec_int year @ '' '' @ name @ '' <'' @ email @ ''>'']\<rparr>"

definition setLicense :: "string \<Rightarrow> kfile \<Rightarrow> kfile" where
  "setLicense txt f = f\<lparr>fl_license := txt\<rparr>"

definition file_addInclude :: "boost \<Rightarrow> string \<Rightarrow> kfile \<Rightarrow> kfile" where
  "file_addInclude B inc f =
     f\<lparr>fl_includes := push_new (if b_ends_with B inc ''.h'' then inc else inc @ ''.h'') (fl_includes f)\<rparr>"

fun insert_class :: "kclass \<Rightarrow> kclass list \<Rightarrow> kclass list \<times> nat" where
  "insert_class c [] = ([c], 0)"
| "insert_class c (d # ds) =
     (if qualifiedName d = qualifiedName c then (c # ds, 0)
      else (case insert_class c ds of (cs, k) \<Rightarrow> (d # cs, k + 1)))"

definition insertClass :: "kclass \<Rightarrow> kfile \<Rightarrow> (nat \<times> kfile) option" where
  "insertClass c f =
     (if class_name c = [] then None
      else case insert_class c (fl_classes f) of (cs, k) \<Rightarrow> Some (k, f\<lparr>fl_classes := cs\<rparr>))"

definition at_class :: "nat \<Rightarrow> (kclass \<Rightarrow> kclass) \<Rightarrow> kfile \<Rightarrow> kfile" where
  "at_class k g f = f\<lparr>fl_classes := (fl_classes f)[k := g (fl_classes f ! k)]\<rparr>"

definition hasClass :: "string \<Rightarrow> kfile \<Rightarrow> bool" where
  "hasClass name f \<longleftrightarrow> list_ex (\<lambda>c. class_name c = name) (fl_classes f)"

definition file_findClass :: "string \<Rightarrow> kfile \<Rightarrow> kclass option" where
  "file_findClass name f = List.find (\<lambda>c. class_name c = name) (fl_classes f)"

definition addFileVariable :: "kvariable \<Rightarrow> kfile \<Rightarrow> kfile" where
  "addFileVariable v f = f\<lparr>fl_variables := fl_variables f @ [v]\<rparr>"

definition addFileFunction :: "kfunction \<Rightarrow> kfile \<Rightarrow> nat \<times> kfile" where
  "addFileFunction g f = (length (fl_functions f), f\<lparr>fl_functions := fl_functions f @ [g]\<rparr>)"

definition addFileEnum :: "kenum \<Rightarrow> kfile \<Rightarrow> kfile" where
  "addFileEnum e f = f\<lparr>fl_enums := fl_enums f @ [e]\<rparr>"

definition addExternCDeclaration :: "string \<Rightarrow> kfile \<Rightarrow> kfile" where
  "addExternCDeclaration s f = f\<lparr>fl_externs := fl_externs f @ [s]\<rparr>"

definition setFileCode :: "kcode \<Rightarrow> kfile \<Rightarrow> kfile" where
  "setFileCode c f = f\<lparr>fl_code := c\<rparr>"

definition setHeaderCode :: "kcode \<Rightarrow> kfile \<Rightarrow> kfile" where
  "setHeaderCode c f = f\<lparr>fl_header_code := c\<rparr>"

definition clearCode :: "kfile \<Rightarrow> kfile" where
  "clearCode f = f\<lparr>fl_classes := [], fl_functions := [], fl_variables := []\<rparr>"

end
