(* ===== verification/Kode_Printer.thy ===== *)
theory Kode_Printer
  imports Kode_File "HOL-Library.List_Lexorder" "HOL-Library.Char_ord"
begin

text \<open>
  \<^verbatim>\<open>KODE::Printer\<close> (\<^verbatim>\<open>externals/libkode/printer.cpp\<close>): the text of a header and of an implementation file.
  Writing the text is left to the caller: the two print functions return the file name and the text.
  \<^const>\<open>None\<close> stands for a failed assertion, an exception or undefined behaviour.
\<close>

record printer =
  pr_creation_warning :: bool
  pr_labels_define_indent :: bool
  pr_indent_labels :: bool
  pr_generator :: string
  pr_output_directory :: string
  pr_source_file :: string

definition Printer :: printer where
  "Printer = \<lparr>pr_creation_warning = False, pr_labels_define_indent = True, pr_indent_labels = True,
     pr_generator = ''libkode'', pr_output_directory = [], pr_source_file = []\<rparr>"

definition addLabel :: "printer \<Rightarrow> string \<Rightarrow> kcode \<Rightarrow> kcode" where
  "addLabel pr label c =
     (let c1 = addLine label (if pr_indent_labels pr then c else unindent c)
      in if pr_indent_labels pr then c1 else indent c1)"

definition formatType :: "string \<Rightarrow> string option" where
  "formatType s =
     (if s = [] then None
      else if last s = CHR ''*'' \<or> last s = CHR ''&'' then
        (if length s < 2 then None
         else if s ! (length s - 2) \<noteq> CHR '' '' then Some (butlast s @ '' '' @ [last s]) else Some s)
      else Some (s @ '' ''))"

definition functionSignature :: "boost \<Rightarrow> kfunction \<Rightarrow> string \<Rightarrow> bool \<Rightarrow> string option" where
  "functionSignature B f cls impl =
     do { ret \<leftarrow> (if kf_return f = [] then Some [] else formatType (kf_return f));
          scope \<leftarrow> (if impl then map_option (\<lambda>s. s @ ''::'') (className cls) else Some []);
          name \<leftarrow> (if cls = kf_name f then className (kf_name f) else Some (kf_name f));
          Some ((if kf_static f \<and> \<not> impl then ''static '' else []) @
                (if kf_virtual f \<noteq> NotVirtual \<and> \<not> impl then ''virtual '' else []) @
                ret @ scope @ name @ ''('' @
                (if hasArguments f
                 then '' '' @ b_join B (map (if impl then bodyDeclaration else headerDeclaration) (kf_arguments f)) '', '' @ '' ''
                 else []) @ '')'' @
                (if kf_const f then '' const'' else []) @
                (if kf_virtual f = PureVirtual then '' = 0'' else [])) }"

definition with_indent :: "printer \<Rightarrow> (kcode \<Rightarrow> kcode) \<Rightarrow> kcode \<Rightarrow> kcode" where
  "with_indent pr g c = (if pr_labels_define_indent pr then unindent (g (indent c)) else g c)"

definition docs_lines :: "boost \<Rightarrow> string \<Rightarrow> kcode \<Rightarrow> kcode" where
  "docs_lines B docs c =
     addLine '' */'' (unindent (addFormattedText (b_split_compress B ('' '' @ [newline, CHR 0x09])) (b_trim B) docs
       (indent (addLine ''/**'' c))))"

fun function_headers :: "boost \<Rightarrow> printer \<Rightarrow> string \<Rightarrow> nat \<Rightarrow> kfunction list \<Rightarrow> bool \<Rightarrow> kcode \<Rightarrow> (bool \<times> kcode) option" where
  "function_headers B pr cls acc [] hasAccess c = Some (hasAccess, c)"
| "function_headers B pr cls acc (f # fs) hasAccess c =
     (if kf_access f = acc then
        do { sig \<leftarrow> functionSignature B f cls False;
             function_headers B pr cls acc fs True
               (with_indent pr
                  (\<lambda>c. addLine (sig @ '';'') (if kf_docs f \<noteq> [] then docs_lines B (kf_docs f) c else c))
                  (if hasAccess then c else addLabel pr (accessAsString f @ '':'') c)) }
      else function_headers B pr cls acc fs hasAccess c)"

definition addFunctionHeaders :: "boost \<Rightarrow> printer \<Rightarrow> kfunction list \<Rightarrow> string \<Rightarrow> nat \<Rightarrow> kcode \<Rightarrow> kcode option" where
  "addFunctionHeaders B pr fs cls acc c =
     map_option (\<lambda>(needNewLine, c'). if needNewLine then newLine c' else c') (function_headers B pr cls acc fs False c)"

fun open_namespaces :: "string list \<Rightarrow> kcode \<Rightarrow> kcode" where
  "open_namespaces [] c = c"
| "open_namespaces (ns # nss) c = open_namespaces nss (indent (addLine (''namespace '' @ ns @ '' {'') c))"

fun close_namespaces :: "nat \<Rightarrow> kcode \<Rightarrow> kcode" where
  "close_namespaces 0 c = c"
| "close_namespaces (Suc k) c = close_namespaces k (addLine ''} // namespace end'' (unindent c))"

definition class_title :: "boost \<Rightarrow> kclass \<Rightarrow> string option" where
  "class_title B c =
     map_option
       (\<lambda>name. ''class '' @
          (if cd_export (cl_data c) \<noteq> [] then b_to_upper B (cd_export (cl_data c)) @ ''_EXPORT '' else []) @ name @
          (if cl_bases c \<noteq> []
           then '' : '' @ strjoin (map (\<lambda>b. ''public '' @
                  (if cd_namespace (cl_data b) \<noteq> [] then cd_namespace (cl_data b) @ ''::'' else []) @ class_name b)
                  (cl_bases c)) '', ''
           else []))
       (className (class_name c))"

definition section_lines :: "printer \<Rightarrow> string list \<Rightarrow> kcode \<Rightarrow> kcode" where
  "section_lines pr ls c =
     (if ls = [] then c
      else newLine (with_indent pr (\<lambda>c. foldl (\<lambda>c l. addLine l c) c ls) (addLabel pr ''public:'' c)))"

fun member_lines :: "nat \<Rightarrow> kmember list \<Rightarrow> kcode \<Rightarrow> kcode option" where
  "member_lines acc [] c = Some c"
| "member_lines acc (v # vs) c =
     (if km_access v = acc then
        do { ty \<leftarrow> formatType (kv_type v);
             member_lines acc vs (addLine ((if kv_static v then ''static '' else []) @ ty @ kv_name v @ '';'') c) }
      else member_lines acc vs c)"

definition relabel :: "printer \<Rightarrow> string \<Rightarrow> kcode \<Rightarrow> kcode" where
  "relabel pr label c =
     (let c1 = addLabel pr label (if pr_labels_define_indent pr then unindent c else c)
      in if pr_labels_define_indent pr then indent c1 else c1)"

definition members_section :: "printer \<Rightarrow> kclass \<Rightarrow> bool \<Rightarrow> kcode \<Rightarrow> kcode option" where
  "members_section pr c publicMembers code =
     (let d = cl_data c;
          hasPrivateFunc = list_ex (\<lambda>f. kf_access f = acc_Private) (cd_functions d);
          hasPrivateSlot = list_ex (\<lambda>f. kf_access f = acc_Private OR acc_Slot) (cd_functions d);
          c1 = (if publicMembers then addLabel pr ''public:'' code
                else if \<not> hasPrivateFunc \<or> hasPrivateSlot then addLabel pr ''private:'' code else code);
          c2 = (if pr_labels_define_indent pr then indent c1 else c1);
          fin = (\<lambda>c. if pr_labels_define_indent pr then unindent c else c)
      in if cd_members d = [] then Some code
         else if useDPointer c then
           Some (fin (addLine
             (if cd_shared d then ''QSharedDataPointer<PrivateDPtr> '' @ cd_dpointer d @ '';''
              else ''PrivateDPtr *'' @ cd_dpointer d @ '';'') (addLine ''class PrivateDPtr;'' c2)))
         else
           do { c3 \<leftarrow> member_lines acc_Private (cd_members d) c2;
                c4 \<leftarrow> member_lines acc_Protected (cd_members d) (relabel pr ''protected:'' c3);
                c5 \<leftarrow> member_lines acc_Public (cd_members d) (relabel pr ''public:'' c4);
                Some (fin c5) })"

definition copy_functions :: "kclass \<Rightarrow> kfunction list option" where
  "copy_functions c =
     do { cc \<leftarrow> Function (class_name c) [] acc_Public False;
          op \<leftarrow> Function ''operator='' (class_name c @ ''&'') acc_Public False;
          Some [addArgument (''const '' @ class_name c @ ''&'') [] cc,
                addArgument (''const '' @ class_name c @ ''&'') [] op] }"

definition functions_section :: "boost \<Rightarrow> printer \<Rightarrow> kclass \<Rightarrow> kcode \<Rightarrow> kcode option" where
  "functions_section B pr c code =
     (let fs = cd_functions (cl_data c); name = class_name c
      in do { c1 \<leftarrow> addFunctionHeaders B pr fs name acc_Public code;
              c2 \<leftarrow> (if cd_copied (cl_data c) \<and> useDPointer c \<and> cd_members (cl_data c) \<noteq> []
                      then do { l \<leftarrow> copy_functions c; addFunctionHeaders B pr l name acc_Public c1 } else Some c1);
              c3 \<leftarrow> addFunctionHeaders B pr fs name (acc_Public OR acc_Slot) c2;
              c4 \<leftarrow> addFunctionHeaders B pr fs name acc_Signal c3;
              c5 \<leftarrow> addFunctionHeaders B pr fs name acc_Protected c4;
              c6 \<leftarrow> addFunctionHeaders B pr fs name (acc_Protected OR acc_Slot) c5;
              c7 \<leftarrow> addFunctionHeaders B pr fs name acc_Private c6;
              addFunctionHeaders B pr fs name (acc_Private OR acc_Slot) c7 })"

fun classHeader :: "boost \<Rightarrow> printer \<Rightarrow> kclass \<Rightarrow> bool \<Rightarrow> bool \<Rightarrow> string option"
and nested_headers :: "boost \<Rightarrow> printer \<Rightarrow> kclass list \<Rightarrow> kcode \<Rightarrow> kcode option" where
  "classHeader B pr (KClass d bases nested) publicMembers nestedClass =
     (let c = KClass d bases nested;
          nsList = (if cd_namespace d = [] then [] else b_split_regex B (cd_namespace d) ''::'');
          c1 = open_namespaces nsList Code;
          c2 = (if nestedClass then indent c1 else c1);
          c3 = (if cd_docs d \<noteq> [] then docs_lines B (cd_docs d) c2 else c2)
      in do { title \<leftarrow> class_title B c;
              let c4 = addLine title c3;
              let c5 = (if nestedClass then addLine_char (CHR ''{'') (indent c4) else indent (addLine_char (CHR ''{'') c4));
              let c6 = (if isQObject c then newLine (addLine ''Q_OBJECT'' c5) else c5);
              let c7 = foldl (\<lambda>c m. newLine (addLine m c)) c6 (cd_macros d);
              c8 \<leftarrow> (if nested \<noteq> []
                      then map_option newLine (nested_headers B pr nested (addLabel pr ''public:'' c7)) else Some c7);
              let c9 = section_lines pr (map typedef_declaration (cd_typedefs d)) c8;
              let c10 = section_lines pr (map (enum_declaration B) (cd_enums d)) c9;
              c11 \<leftarrow> functions_section B pr c c10;
              c12 \<leftarrow> members_section pr c publicMembers c11;
              let c13 = addLine ''};'' (if nestedClass then unindent c12 else setIndent 0 c12);
              Some (kc_text (close_namespaces (length nsList) c13)) })"
| "nested_headers B pr [] code = Some code"
| "nested_headers B pr (c # cs) code =
     do { txt \<leftarrow> classHeader B pr c False True; nested_headers B pr cs (addLine txt code) }"

section \<open>Implementation of a class\<close>

definition functionClassName :: "kclass \<Rightarrow> bool \<Rightarrow> string" where
  "functionClassName c nestedClass =
     (if nestedClass then cd_parent (cl_data c) @ ''::'' @ class_name c
      else if cd_namespace (cl_data c) \<noteq> [] then cd_namespace (cl_data c) @ ''::'' @ class_name c
      else class_name c)"

definition has_dptr :: "kclass \<Rightarrow> bool" where
  "has_dptr c \<longleftrightarrow> useDPointer c \<and> cd_members (cl_data c) \<noteq> []"

definition static_variables :: "kclass \<Rightarrow> string \<Rightarrow> kcode \<Rightarrow> kcode" where
  "static_variables c fcn code =
     (let vs = filter kv_static (cd_members (cl_data c));
          code' = foldl (\<lambda>code v. addLine (kv_type v @ fcn @ ''::'' @ kv_name v @ '' = '' @ kv_initializer v @ '';'') code) code vs
      in if vs \<noteq> [] then newLine code' else code')"

definition member_inits :: "kclass \<Rightarrow> string list" where
  "member_inits c =
     map (\<lambda>v. kv_name v @ ''('' @ kv_initializer v @ '')'')
       (filter (\<lambda>v. kv_initializer v \<noteq> []) (cd_members (cl_data c)))"

definition function_inits :: "kclass \<Rightarrow> kfunction \<Rightarrow> string list" where
  "function_inits c f =
     kf_initializers f @
     (if has_dptr c \<and> kf_name f = class_name c then [cd_dpointer (cl_data c) @ ''(new PrivateDPtr)''] else []) @
     (if \<not> useDPointer c \<and> kf_name f = class_name c \<and> kf_arguments f = [] then member_inits c else [])"

definition init_line :: "boost \<Rightarrow> string list \<Rightarrow> kcode \<Rightarrow> kcode" where
  "init_line B inits c =
     (if inits = [] then c else unindent (addLine ('': '' @ b_join B inits '', '') (indent c)))"

definition body_block :: "boost \<Rightarrow> string \<Rightarrow> kcode \<Rightarrow> kcode" where
  "body_block B body c =
     addBlock_indent (b_split B [newline]) body s_defaultIndentation (addLine_char (CHR ''{'') c)"

definition close_body :: "kcode \<Rightarrow> kcode" where
  "close_body c = newLine (addLine_char (CHR ''}'') c)"

definition function_implementation :: "boost \<Rightarrow> kclass \<Rightarrow> string \<Rightarrow> kfunction \<Rightarrow> kcode \<Rightarrow> kcode option" where
  "function_implementation B c fcn f code =
     (if kf_access f = acc_Signal \<or> kf_virtual f = PureVirtual \<and> kf_body f = [] then Some code
      else do { sig \<leftarrow> functionSignature B f fcn True;
                let c1 = body_block B (kf_body f) (init_line B (function_inits c f) (addLine sig code));
                let c2 = (if has_dptr c \<and> \<not> cd_shared (cl_data c) \<and> kf_name f = ''~'' @ class_name c
                          then unindent (addLine (cd_dpointer (cl_data c) @ '' = 0;'')
                                 (addLine (''delete '' @ cd_dpointer (cl_data c) @ '';'') (indent (newLine c1))))
                          else c1);
                Some (close_body c2) })"

fun function_implementations :: "boost \<Rightarrow> kclass \<Rightarrow> string \<Rightarrow> kfunction list \<Rightarrow> kcode \<Rightarrow> kcode option" where
  "function_implementations B c fcn [] code = Some code"
| "function_implementations B c fcn (f # fs) code =
     do { code' \<leftarrow> function_implementation B c fcn f code; function_implementations B c fcn fs code' }"

definition copy_constructor :: "boost \<Rightarrow> kclass \<Rightarrow> string \<Rightarrow> kcode \<Rightarrow> kcode option" where
  "copy_constructor B c fcn code =
     (let d = cl_data c; p = cd_dpointer d;
          body = (if cd_shared d then Code
                  else addLine (''*'' @ p @ '' = *other.'' @ p @ '';'') (addLine (p @ '' = new PrivateDPtr;'') Code));
          inits = map (\<lambda>b. class_name b @ ''( other )'') (cl_bases c) @
                  (if cd_shared d then [p @ ''( other.'' @ p @ '' )''] else [])
      in do { cc \<leftarrow> Function (class_name c) [] acc_Public False;
              sig \<leftarrow> functionSignature B (addArgument (''const '' @ fcn @ ''& other'') [] cc) fcn True;
              Some (close_body (body_block B (kc_text body) (init_line B inits (addLine sig code)))) })"

definition assignment_body :: "kclass \<Rightarrow> kcode" where
  "assignment_body c =
     (let d = cl_data c; p = cd_dpointer d;
          b1 = newLine (unindent (addLine ''return *this;'' (indent (addLine ''if ( this == &other )'' Code))));
          b2 = addLine (if cd_shared d then p @ '' = other.'' @ p @ '';'' else ''*'' @ p @ '' = *other.'' @ p @ '';'') b1;
          b3 = foldl (\<lambda>b x. addLine (''* static_cast<'' @ class_name x @ '' *>(this) = other;'') b) b2 (cl_bases c)
      in addLine ''return *this;'' (newLine b3))"

definition assignment_operator :: "boost \<Rightarrow> kclass \<Rightarrow> string \<Rightarrow> kcode \<Rightarrow> kcode option" where
  "assignment_operator B c fcn code =
     do { op \<leftarrow> Function ''operator='' (fcn @ ''& '') acc_Public False;
          sig \<leftarrow> functionSignature B (addArgument (''const '' @ fcn @ ''& other'') [] op) fcn True;
          Some (close_body (body_block B (kc_text (assignment_body c)) (addLine sig code))) }"

text \<open>Everything of a class but its private class and its nested classes, which is all there is for the
  private class itself.\<close>

definition implementation_core :: "boost \<Rightarrow> kclass \<Rightarrow> string \<Rightarrow> kcode \<Rightarrow> kcode option" where
  "implementation_core B c fcn code =
     do { c1 \<leftarrow> function_implementations B c fcn (cd_functions (cl_data c)) (static_variables c fcn code);
          (if has_dptr c \<and> cd_copied (cl_data c)
           then do { c2 \<leftarrow> copy_constructor B c fcn c1; assignment_operator B c fcn c2 }
           else Some c1) }"

definition private_class :: "kclass \<Rightarrow> string \<Rightarrow> kclass option" where
  "private_class c fcn =
     do { p \<leftarrow> Class (fcn @ ''::PrivateDPtr'') [];
          q \<leftarrow> Class ''QSharedData'' [];
          ctor \<leftarrow> Function ''PrivateDPtr'' [] acc_Public False;
          let p1 = (if cd_shared (cl_data c) then addBaseClass q p else p);
          let p2 = foldl (\<lambda>p v. addMemberVariable v p) p1 (cd_members (cl_data c));
          Some (if member_inits c = [] then p2
                else addFunction (foldl (\<lambda>f i. addInitializer i f) ctor (member_inits c)) p2) }"

definition private_implementation :: "boost \<Rightarrow> printer \<Rightarrow> kclass \<Rightarrow> string \<Rightarrow> kcode \<Rightarrow> kcode option" where
  "private_implementation B pr c fcn code =
     (if has_dptr c then
        do { p \<leftarrow> private_class c fcn;
             h \<leftarrow> classHeader B pr p True False;
             (if member_inits c = [] then Some (addLine h code)
              else do { i \<leftarrow> implementation_core B p (functionClassName p False) Code;
                        Some (addLine (kc_text i) (addLine h code)) }) }
      else Some code)"

fun classImplementation :: "boost \<Rightarrow> printer \<Rightarrow> kclass \<Rightarrow> bool \<Rightarrow> string option"
and nested_implementations :: "boost \<Rightarrow> printer \<Rightarrow> kclass list \<Rightarrow> kcode \<Rightarrow> kcode option" where
  "classImplementation B pr (KClass d bases nested) nestedClass =
     (let c = KClass d bases nested; fcn = functionClassName c nestedClass
      in do { c1 \<leftarrow> private_implementation B pr c fcn Code;
              c2 \<leftarrow> implementation_core B c fcn c1;
              c3 \<leftarrow> nested_implementations B pr nested c2;
              Some (kc_text c3) })"
| "nested_implementations B pr [] code = Some code"
| "nested_implementations B pr (c # cs) code =
     do { txt \<leftarrow> classImplementation B pr c True; nested_implementations B pr cs (addLine txt code) }"

section \<open>Files\<close>

definition creationWarning :: "printer \<Rightarrow> string" where
  "creationWarning pr =
     ''// This file is generated by '' @ pr_generator pr @
     (if pr_source_file pr \<noteq> [] then '' from '' @ pr_source_file pr else []) @ ''.'' @ [newline] @
     ''// All changes you do to this file will be lost.''"

definition licenseHeader :: "boost \<Rightarrow> kfile \<Rightarrow> string" where
  "licenseHeader B f =
     (if fl_project f = [] \<and> fl_copyrights f = [] \<and> fl_license f = [] then []
      else let c1 = setIndent 4 (addLine ''/*'' Code);
               c2 = (if fl_project f \<noteq> [] then newLine (addLine (''This file is part of '' @ fl_project f @ ''.'') c1) else c1);
               c3 = (if fl_copyrights f \<noteq> []
                     then newLine (addBlock (b_split B [newline]) (b_join B (fl_copyrights f) [newline]) c2) else c2);
               c4 = setIndent 0 (addBlock (b_split B [newline]) (fl_license f) c3)
           in kc_text (addLine ''*/'' c4))"

fun commonLeft :: "string list \<Rightarrow> string list \<Rightarrow> string list" where
  "commonLeft (x # xs) (y # ys) = (if x = y then x # commonLeft xs ys else [])"
| "commonLeft xs ys = []"

fun include_lines :: "string list \<Rightarrow> string list \<Rightarrow> kcode \<Rightarrow> string list \<times> kcode" where
  "include_lines [] processed c = (processed, c)"
| "include_lines (i # is) processed c =
     (if i \<in> set processed then include_lines is processed c
      else include_lines is (i # processed) (addLine (''#include <'' @ i @ ''>'') c))"

definition closing_lines :: "nat \<Rightarrow> kcode \<Rightarrow> kcode" where
  "closing_lines k c = ((\<lambda>c. newLine (addLine ''}'' (unindent c))) ^^ k) c"

fun forward_lines :: "boost \<Rightarrow> string list \<Rightarrow> string list \<Rightarrow> kcode \<Rightarrow> kcode option" where
  "forward_lines B [] prevNS out = Some out"
| "forward_lines B (fwd # fwds) prevNS out =
     (let seg = b_split_regex B fwd ''::''
      in if seg = [] then None
         else let ns = butlast seg; clas = last seg; common = commonLeft ns prevNS;
                  o1 = closing_lines (length prevNS - length common) out;
                  o2 = open_namespaces (drop (length common) ns) o1;
                  qt = (clas \<noteq> [] \<and> hd clas = CHR ''Q'');
                  o3 = (if clas = [] then o2
                        else let a = (if qt then addLine ''QT_BEGIN_NAMESPACE'' o2 else o2);
                                 b = addLine (''class '' @ clas @ '';'') a
                             in if qt then addLine ''QT_END_NAMESPACE'' b else b)
              in forward_lines B fwds ns o3)"

fun class_headers :: "boost \<Rightarrow> printer \<Rightarrow> kclass list \<Rightarrow> kcode \<Rightarrow> kcode option" where
  "class_headers B pr [] out = Some out"
| "class_headers B pr (c # cs) out =
     do { txt \<leftarrow> classHeader B pr c False False;
          class_headers B pr cs (newLine (addBlock (b_split B [newline]) txt out)) }"

definition includeGuard :: "boost \<Rightarrow> kfile \<Rightarrow> string" where
  "includeGuard B f =
     replace_char (CHR ''.'') (CHR ''_'')
       (b_to_upper B ((if fl_namespace f \<noteq> [] then fl_namespace f @ ''_'' else []) @
          replace_char (CHR ''.'') (CHR ''_'') (b_filename B (filenameHeader B f))))"

definition output_name :: "printer \<Rightarrow> string \<Rightarrow> string" where
  "output_name pr name = (if pr_output_directory pr \<noteq> [] then pr_output_directory pr @ ''/'' @ name else name)"

definition printHeader :: "boost \<Rightarrow> printer \<Rightarrow> kfile \<Rightarrow> (string \<times> string) option" where
  "printHeader B pr f =
     (let o1 = (if pr_creation_warning pr then addLine (creationWarning pr) Code else Code);
          o2 = addBlock (b_split B [newline]) (licenseHeader B f) o1;
          guard = includeGuard B f;
          o3 = newLine (addLine (''#define '' @ guard) (addLine (''#ifndef '' @ guard) o2));
          incs = concat (map (\<lambda>c. cd_header_includes (cl_data c) @
                   (if cd_shared (cl_data c) then [''QtCore/QSharedData''] else [])) (fl_classes f))
      in if \<not> list_all class_isValid (fl_classes f) then None
         else case include_lines incs [] o3 of (processed, o4) \<Rightarrow>
           (let o5 = (if processed \<noteq> [] then newLine o4 else o4);
                o6 = (if code_isEmpty (fl_header_code f) then o5 else newLine (code_plus o5 (fl_header_code f)));
                fwd = sort (remdups (concat (map (\<lambda>c. cd_forward (cl_data c)) (fl_classes f))))
            in do { o7 \<leftarrow> forward_lines B (fwd @ [[]]) [] o6;
                    let o8 = (if fwd \<noteq> [] then newLine o7 else o7);
                    let o9 = (if fl_namespace f \<noteq> [] then newLine (addLine (''namespace '' @ fl_namespace f @ '' {'') o8) else o8);
                    let o10 = foldl (\<lambda>out e. newLine (addLine (enum_declaration B e) out)) o9 (fl_enums f);
                    o11 \<leftarrow> class_headers B pr (fl_classes f) o10;
                    let o12 = (if fl_namespace f \<noteq> [] then newLine (addLine_char (CHR ''}'') o11) else o11);
                    Some (output_name pr (filenameHeader B f), kc_text (addLine ''#endif'' o12)) }))"

fun file_functions :: "boost \<Rightarrow> kfunction list \<Rightarrow> kcode \<Rightarrow> kcode option" where
  "file_functions B [] out = Some out"
| "file_functions B (f # fs) out =
     do { sig \<leftarrow> functionSignature B f [] False;
          file_functions B fs (close_body (body_block B (kf_body f) (addLine sig out))) }"

fun class_implementations :: "boost \<Rightarrow> printer \<Rightarrow> kclass list \<Rightarrow> kcode \<Rightarrow> kcode option" where
  "class_implementations B pr [] out = Some out"
| "class_implementations B pr (c # cs) out =
     do { txt \<leftarrow> classImplementation B pr c False;
          class_implementations B pr cs (if txt \<noteq> [] then addLine txt out else out) }"

definition printImplementation :: "boost \<Rightarrow> printer \<Rightarrow> kfile \<Rightarrow> bool \<Rightarrow> (string \<times> string) option" where
  "printImplementation B pr f createHeaderInclude =
     (let o1 = (if pr_creation_warning pr then addLine (creationWarning pr) Code else Code);
          o2 = newLine (addBlock (b_split B [newline]) (licenseHeader B f) o1);
          o3 = (if createHeaderInclude then newLine (addLine (''#include '' @ quote @ filenameHeader B f @ quote) o2) else o2);
          o4 = foldl (\<lambda>out i. addLine (''#include <'' @ i @ ''>'') out) o3 (fl_includes f);
          o5 = (if fl_includes f \<noteq> [] then newLine o4 else o4)
      in case include_lines (concat (map (\<lambda>c. cd_includes (cl_data c)) (fl_classes f))) [] o5 of (processed, o6) \<Rightarrow>
           (let o7 = (if processed \<noteq> [] then newLine o6 else o6);
                o8 = (if fl_namespace f \<noteq> [] then newLine (addLine (''namespace '' @ fl_namespace f @ '' {'') o7) else o7);
                o9 = (if fl_externs f = [] then o8
                      else newLine (addLine_char (CHR ''}'')
                             (foldl (\<lambda>out d. addLine (d @ '';'') out)
                                (addLine (''extern '' @ quote @ ''C'' @ quote @ '' {'') o8) (fl_externs f))));
                o10 = foldl (\<lambda>out v. addLine ((if kv_static v then ''static '' else []) @ kv_type v @ '' '' @ kv_name v @ '';'') out)
                        o9 (fl_variables f);
                o11 = (if fl_variables f \<noteq> [] then newLine o10 else o10);
                o12 = (if code_isEmpty (fl_code f) then o11 else newLine (code_plus o11 (fl_code f)))
            in do { o13 \<leftarrow> file_functions B (fl_functions f) o12;
                    o14 \<leftarrow> class_implementations B pr (fl_classes f) o13;
                    let o15 = (if fl_namespace f \<noteq> [] then newLine (addLine ''}'' o14) else o14);
                    Some (output_name pr (filenameImplementation B f), kc_text o15) }))"

end
