(* ===== verification/Inst_Pass.thy ===== *)
theory Inst_Pass
  imports Compaction
begin

text \<open>
  What the instantiation type generator does to a module: it only adds types to the store, every unit it
  makes is a new one, and the items of such a unit belong to it.
\<close>

lemma replace_item_unit: "replace_item u i = Some i' \<Longrightarrow> it_unit (base_of i') = it_unit (base_of i)"
  by (cases i) (auto simp: replace_base_def bind_eq_Some_conv)

lemma replaced_units: "replace_items u (set_units u is) = Some js \<Longrightarrow> j \<in> set js \<Longrightarrow> it_unit (base_of j) = Some u"
proof (induction "is" arbitrary: js)
  case (Cons i "is")
  then show ?case using replace_item_unit[of u "set_unit u i"] by (auto simp: bind_eq_Some_conv base_set_unit_def)
qed simp

text \<open>Types are only ever added to the store, and the generator's declarations change only when a unit is
  finished.\<close>

definition adds_types :: "type_generator \<Rightarrow> type_generator \<Rightarrow> bool" where
  "adds_types s s' \<longleftrightarrow> extends (tg_alloc s) (tg_alloc s') \<and> tg_decls s' = tg_decls s"

lemma adds_types_trans: "adds_types s s1 \<Longrightarrow> adds_types s1 s2 \<Longrightarrow> adds_types s s2"
  by (auto simp: adds_types_def intro: extends_trans)

lemma adds_types_simps [simp]:
  "adds_types s s" "adds_types s (push_item i s') = adds_types s s'" "adds_types s (s'\<lparr>tg_compactable := c\<rparr>) = adds_types s s'"
  "adds_types (s\<lparr>tg_items := is\<rparr>) s' = adds_types s s'"
  by (simp_all add: adds_types_def push_item_def)

lemma clone_base_extends: "clone_base b t al = Some (b', al') \<Longrightarrow> extends al al'"
  by (auto simp: clone_base_def Item_def split: option.splits)

lemma new_bytes_extends: "extends al0 al \<Longrightarrow> extends al0 (snd (new_type ob al))"
  using new_type_extends[of ob al] extends_trans by (cases "new_type ob al") auto

lemma clone_item_extends:
  "clone_item i al = Some (i', al') \<Longrightarrow> extends al al'"
  "clone_items is al = Some (is', al') \<Longrightarrow> extends al al'"
  "clone_cases cs al = Some (cs', al') \<Longrightarrow> extends al al'"
proof (induction i al and "is" al and cs al arbitrary: i' al' and is' al' and cs' al'
    rule: clone_item_clone_items_clone_cases.induct)
  case (5 b f c al)
  then show ?case
    using extends_trans[OF new_bytes_extends[OF extends_refl]] by (auto simp: bind_eq_Some_conv Let_def case_prod_beta dest!: clone_base_extends)
next
  case (14 es "is" d cs al)
  from 14(3) obtain es1 is1 al1 cs1 where run: "clone_exprs es = Some es1" "clone_items is al = Some (is1, al1)"
      "clone_cases cs al1 = Some (cs1, al')"
    by (auto simp: bind_eq_Some_conv)
  show ?case using 14(1)[OF run(1,2)] 14(2)[OF run(1,2) refl run(3)] by (rule extends_trans)
qed (auto simp: bind_eq_Some_conv Let_def Item_def case_prod_beta
    dest!: clone_base_extends intro: extends_trans new_bytes_extends extends_trans[OF new_bytes_extends])

lemma copyItem_adds: "copyItem i s = Some (i', s') \<Longrightarrow> adds_types s s'"
  by (auto simp: copyItem_def adds_types_def dest: clone_item_extends(1))

lemma addFieldOfLength_adds: "addFieldOfLength len s = Some s' \<Longrightarrow> adds_types s s'"
  using new_type_extends[of bytes_type "tg_alloc s"]
  by (cases "new_type bytes_type (tg_alloc s)") (auto simp: addFieldOfLength_def Item_def adds_types_def push_item_def)

lemma compact_loop_adds: "compact_loop n fs len s = Some s' \<Longrightarrow> adds_types s s'"
proof (induction n fs len s arbitrary: s' rule: compact_loop.induct)
  case (3 n f fs len s)
  obtain f_len where f_len: "serialized_length n (al_types (tg_alloc s)) f = Some f_len"
    using 3(3) by (auto simp: bind_eq_Some_conv)
  show ?case
  proof (cases f_len)
    case None
    then obtain s1 f' s2 where run: "(case len of None \<Rightarrow> Some s | Some l0 \<Rightarrow> addFieldOfLength l0 s) = Some s1"
      "copyItem f s1 = Some (f', s2)" "compact_loop n fs None (push_item f' s2) = Some s'"
      using 3(3) f_len by (auto simp: bind_eq_Some_conv)
    have "adds_types s s1" using run(1) addFieldOfLength_adds by (cases len) auto
    moreover have "adds_types s1 (push_item f' s2)" using copyItem_adds[OF run(2)] by simp
    ultimately show ?thesis using 3(1)[OF f_len None run(1,2) refl run(3)] adds_types_trans by blast
  next
    case (Some l)
    then show ?thesis using 3(2)[OF f_len Some] 3(3) f_len by simp
  qed
qed (auto dest: addFieldOfLength_adds)

lemma compactAndAddItems_adds: "compactAndAddItems n s = Some s' \<Longrightarrow> adds_types s s'"
  by (auto simp: compactAndAddItems_def dest: compact_loop_adds)

lemma generate_item_adds: "generate_item n i s = Some s' \<Longrightarrow> adds_types s s'"
  using adds_types_trans[OF compactAndAddItems_adds copyItem_adds]
  by (auto simp: generate_item_def Let_def bind_eq_Some_conv dest: copyItem_adds split: if_splits)

lemma generate_items_adds: "generate_items n is s = Some s' \<Longrightarrow> adds_types s s'"
  by (induction "is" arbitrary: s) (auto simp: bind_eq_Some_conv dest: generate_item_adds intro: adds_types_trans)

text \<open>A compacted unit is new, and its items belong to it.\<close>

definition new_unit :: "alloc \<Rightarrow> alloc \<Rightarrow> taddr \<Rightarrow> bool" where
  "new_unit al al' u' \<longleftrightarrow> al_next al \<le> u' \<and> u' < al_next al' \<and>
     (\<forall>js j. unit_items (al_types al') u' = Some js \<longrightarrow> j \<in> set js \<longrightarrow> it_unit (base_of j) = Some u')"

lemma new_unit_later: "new_unit al al1 u' \<Longrightarrow> extends al1 al' \<Longrightarrow> new_unit al al' u'"
  by (auto simp: new_unit_def extends_def unit_items_def)

lemma generate_instantiation_new:
  assumes "generate_instantiation n name u deps al = Some (decls, al')"
  shows "extends al al' \<and> (\<forall>(nm, u')\<in>set decls. new_unit al al' u')"
proof -
  obtain ps "is" s where g: "generate_unit n ps is \<lparr>tg_deps = deps, tg_decls = [], tg_unit_name = name, tg_unit_id = [],
      tg_items = [], tg_compactable = [], tg_alloc = al\<rparr> = Some s" "decls = tg_decls s" "al' = tg_alloc s"
    using assms by (auto simp: generate_instantiation_def split: option.splits type_kind.splits)
  then obtain s1 s2 items where st: "generate_items n is \<lparr>tg_deps = deps, tg_decls = [], tg_unit_name = name, tg_unit_id = [],
      tg_items = [], tg_compactable = [], tg_alloc = al\<rparr> = Some s1" "compactAndAddItems n s1 = Some s2"
    "replace_items (al_next (tg_alloc s2)) (set_units (al_next (tg_alloc s2)) (tg_items s2)) = Some items"
    "s = s2\<lparr>tg_alloc := snd (new_type \<lparr>ty_kind = TUnit ps items, ty_id = Some (tg_unit_name s2), ty_wildcard = False\<rparr> (tg_alloc s2)),
            tg_decls := tg_decls s2 @ [(tg_unit_name s2, al_next (tg_alloc s2))]\<rparr>"
    by (auto simp: generate_unit_def bind_eq_Some_conv Let_def new_type_def)
  have ext: "extends al (tg_alloc s2)" "tg_decls s2 = []"
    using adds_types_trans[OF generate_items_adds[OF st(1)] compactAndAddItems_adds[OF st(2)]] by (simp_all add: adds_types_def)
  have "new_unit al al' (al_next (tg_alloc s2))"
    using extends_next[OF ext(1)] g(3) st(4) replaced_units[OF st(3)] by (auto simp: new_unit_def new_type_def unit_items_def)
  then show ?thesis using ext g(2,3) st(4) new_bytes_extends[OF ext(1)] by simp
qed

lemma visit_declarations_new:
  "visit_declarations n ds al = Some (ds', al') \<Longrightarrow>
     extends al al' \<and> (\<forall>d. DInstantiation d \<in> set ds' \<longrightarrow> (\<forall>(nm, u')\<in>set (ui_compacted d). new_unit al al' u'))"
proof (induction n ds al arbitrary: ds' rule: visit_declarations.induct)
  case (2 n d ds al)
  obtain d' al1 ds1 where st: "(case d of
        DInstantiation x \<Rightarrow> map_option (\<lambda>(x', al'). (DInstantiation x', al')) (visit_instantiation n x al)
      | _ \<Rightarrow> Some (d, al)) = Some (d', al1)" "visit_declarations n ds al1 = Some (ds1, al')" "ds' = d' # ds1"
    using 2(2) by (auto simp: bind_eq_Some_conv)
  have rest: "extends al1 al'" "\<forall>d. DInstantiation d \<in> set ds1 \<longrightarrow> (\<forall>(nm, u')\<in>set (ui_compacted d). new_unit al1 al' u')"
    using 2(1)[OF st(1) refl st(2)] by simp_all
  have head: "extends al al1 \<and> (\<forall>x. d' = DInstantiation x \<longrightarrow> (\<forall>(nm, u')\<in>set (ui_compacted x). new_unit al al1 u'))"
    using st(1) by (cases d) (auto simp: visit_instantiation_def bind_eq_Some_conv dest!: generate_instantiation_new)
  have "new_unit al al' u'" if "new_unit al1 al' u'" for u'
    using that head by (auto simp: new_unit_def extends_def)
  then show ?case
    using head rest st(3) new_unit_later[OF _ rest(1)] extends_trans by fastforce
qed simp

end
