(* ===== verification/Translate.thy ===== *)
theory Translate
  imports Ast Decimal
begin

text \<open>
  Types and expressions as C++ text: \<^verbatim>\<open>generation/output/type_translator.cpp\<close>,
  \<^verbatim>\<open>expression_translator.cpp\<close> and \<^verbatim>\<open>translator.cpp\<close>.

  \<^const>\<open>None\<close> means that the translation does not return: \<^verbatim>\<open>Translator::type\<close> throws a \<^verbatim>\<open>RuntimeError\<close>, or
  an operand iterator or a null pointer is dereferenced.  An expression without a translation is not
  an error: its text is the default result.
\<close>

section \<open>Types\<close>

definition type_default :: string where
  "type_default = ''[[TYPE UNSUPPORTED]]''"

definition visit_type :: "type_obj \<Rightarrow> string" where
  "visit_type ob =
     (case ty_kind ob of
        TBool \<Rightarrow> ''bool''
      | TBytes \<Rightarrow> ''dr::unit::var_bytes''
      | TDouble \<Rightarrow> ''double''
      | TEnum ls \<Rightarrow> (case ty_id ob of None \<Rightarrow> type_default | Some i \<Rightarrow> id_name i)
      | TInteger w sg \<Rightarrow> (if sg then [] else ''u'') @ ''int'' @ dec_int w @ ''_t''
      | TSink \<Rightarrow> ''SINK''
      | TString \<Rightarrow> ''dr::unit::var_string''
      | TVoid \<Rightarrow> ''void''
      | TUnit ps is \<Rightarrow> (case ty_id ob of None \<Rightarrow> type_default | Some i \<Rightarrow> id_name i)
      | _ \<Rightarrow> type_default)"

definition translate_type :: "type_obj \<Rightarrow> string option" where
  "translate_type ob =
     (if ty_wildcard ob then None
      else if visit_type ob = type_default then None else Some (visit_type ob))"

definition type_text :: "type_store \<Rightarrow> taddr option \<Rightarrow> string option" where
  "type_text ts t = do { a \<leftarrow> t; ob \<leftarrow> ts a; translate_type ob }"

section \<open>Expressions\<close>

definition expr_default :: string where
  "expr_default = ''[[EXPRESSION UNSUPPORTED]]''"

definition operand :: "string option list \<Rightarrow> nat \<Rightarrow> string option" where
  "operand xs k = (if k < length xs then xs ! k else None)"

definition unary_text :: "string \<Rightarrow> string \<Rightarrow> string option list \<Rightarrow> string option" where
  "unary_text pre post xs = map_option (\<lambda>a. ''('' @ pre @ a @ post @ '')'') (operand xs 0)"

definition binary_text :: "string \<Rightarrow> string option list \<Rightarrow> string option" where
  "binary_text sep xs = do { a \<leftarrow> operand xs 0; b \<leftarrow> operand xs 1; Some (''('' @ a @ sep @ b @ '')'') }"

definition ternary_text :: "string \<Rightarrow> string \<Rightarrow> string option list \<Rightarrow> string option" where
  "ternary_text sep1 sep2 xs =
     do { a \<leftarrow> operand xs 0; b \<leftarrow> operand xs 1; c \<leftarrow> operand xs 2;
          Some (''('' @ a @ sep1 @ b @ sep2 @ c @ '')'') }"

definition operator_text :: "op_kind \<Rightarrow> string option list \<Rightarrow> string option" where
  "operator_text kind xs =
     (case kind of
        op_Attribute \<Rightarrow> binary_text ''.'' xs
      | op_AttributeAssign \<Rightarrow> ternary_text ''.'' '' = '' xs
      | op_Call \<Rightarrow> binary_text [] xs
      | op_Cast \<Rightarrow> do { a \<leftarrow> operand xs 0; b \<leftarrow> operand xs 1; Some (''(('' @ b @ '') '' @ a @ '')'') }
      | op_DecrPostfix \<Rightarrow> unary_text [] ''--'' xs
      | op_DecrPrefix \<Rightarrow> unary_text ''--'' [] xs
      | op_Equal \<Rightarrow> binary_text '' == '' xs
      | op_Greater \<Rightarrow> binary_text '' > '' xs
      | op_IncrPostfix \<Rightarrow> unary_text [] ''++'' xs
      | op_IncrPrefix \<Rightarrow> do { a \<leftarrow> operand xs 0; b \<leftarrow> operand xs 1; Some (''(++'' @ a @ '')'') }
      | op_Less \<Rightarrow> binary_text '' < '' xs
      | op_LogicalAnd \<Rightarrow> binary_text '' && '' xs
      | op_LogicalOr \<Rightarrow> binary_text '' || '' xs
      | op_MethodCall \<Rightarrow> ternary_text ''.'' [] xs
      | op_Minus \<Rightarrow> binary_text '' - '' xs
      | op_Not \<Rightarrow> unary_text ''!'' [] xs
      | op_Plus \<Rightarrow> binary_text '' + '' xs
      | _ \<Rightarrow> Some expr_default)"

definition parser_state_text ::
  "type_store \<Rightarrow> parser_state_kind \<Rightarrow> ident option \<Rightarrow> taddr option \<Rightarrow> string option" where
  "parser_state_text ts kind i t =
     (case kind of
        SELF \<Rightarrow> map_option (\<lambda>s. ''SELF('' @ s @ '')'') (type_text ts t)
      | DOLLARDOLLAR \<Rightarrow> map_option (\<lambda>s. ''DOLLAR('' @ s @ '')'') (type_text ts t)
      | PARAMETER \<Rightarrow>
          do { name \<leftarrow> i; s \<leftarrow> type_text ts t; Some (''PARAM('' @ id_name name @ '', '' @ s @ '')'') })"

fun tuple_text :: "string option list \<Rightarrow> string \<Rightarrow> string option" where
  "tuple_text [] tmp = Some (''('' @ tmp @ '')'')"
| "tuple_text (x # xs) tmp =
     do { s \<leftarrow> x; tuple_text xs ((if tmp \<noteq> [] then tmp @ '', '' else tmp) @ s) }"

definition enum_text :: "type_store \<Rightarrow> ident \<Rightarrow> taddr \<Rightarrow> string option" where
  "enum_text ts label t =
     do { ob \<leftarrow> ts t;
          s \<leftarrow> (case ty_kind ob of TEnum ls \<Rightarrow> translate_type ob | _ \<Rightarrow> None);
          Some (s @ ''::'' @ id_name label) }"

fun expr_text :: "type_store \<Rightarrow> expr \<Rightarrow> string option"
and exprs_text :: "type_store \<Rightarrow> expr list \<Rightarrow> string option list"
and const_text :: "type_store \<Rightarrow> const \<Rightarrow> string option" where
  "expr_text ts (EAssign dst src) =
     do { d \<leftarrow> expr_text ts dst; s \<leftarrow> expr_text ts src; Some (''('' @ d @ '' = '' @ s @ '')'') }"
| "expr_text ts (EConditional c t f) =
     do { c' \<leftarrow> expr_text ts c; t' \<leftarrow> expr_text ts t;
          (case f of
             Some x \<Rightarrow> do { f' \<leftarrow> expr_text ts x; Some (''('' @ c' @ '' ? '' @ t' @ '' : '' @ f' @ '')'') }
           | None \<Rightarrow> Some (''('' @ c' @ '' ? '' @ t' @ '' : 0)'')) }"
| "expr_text ts (EConstant c) = const_text ts c"
| "expr_text ts (EID i) = Some (pathAsString i)"
| "expr_text ts (EMemberAttribute i) = Some (id_name i)"
| "expr_text ts (EOperator kind ops) = operator_text kind (exprs_text ts ops)"
| "expr_text ts (EParserState kind i u t) = parser_state_text ts kind i t"
| "expr_text ts (EType t) = type_text ts (Some t)"
| "expr_text ts e = Some expr_default"
| "exprs_text ts [] = []"
| "exprs_text ts (e # es) = expr_text ts e # exprs_text ts es"
| "const_text ts (CBitset ls t) = Some expr_default"
| "const_text ts (CBool v) = Some (if v then ''true'' else ''false'')"
| "const_text ts (CDouble v) = Some v"
| "const_text ts (CEnum label t) = enum_text ts label t"
| "const_text ts (CInteger v w sg) = Some (dec_int v)"
| "const_text ts CNone = Some ''nullptr''"
| "const_text ts (CString v) = Some (CHR 0x22 # v @ [CHR 0x22])"
| "const_text ts (CTuple es) = tuple_text (exprs_text ts es) []"

section \<open>Names\<close>

definition moduleNamespace :: "ident \<Rightarrow> string" where
  "moduleNamespace i = ''diffingo::gen::'' @ id_name i"

definition functionName :: "string \<Rightarrow> string" where
  "functionName name = name"

definition functionParamName :: "string \<Rightarrow> string" where
  "functionParamName name = name"

definition unitName :: "string \<Rightarrow> string" where
  "unitName name = name"

definition unitFieldName :: "string \<Rightarrow> string" where
  "unitFieldName name = name"

definition unitVarName :: "string \<Rightarrow> string" where
  "unitVarName name = name"

definition enumName :: "string \<Rightarrow> string" where
  "enumName name = name"

definition enumLabel :: "string \<Rightarrow> string" where
  "enumLabel label = label"

definition unitParserName :: "string \<Rightarrow> string" where
  "unitParserName name = unitName name @ ''Parser''"

definition unitSerializerName :: "string \<Rightarrow> string" where
  "unitSerializerName name = unitName name @ ''Serializer''"

end
