(* ===== verification/Gen_Code.thy ===== *)
theory Gen_Code
  imports Kode_Code Translate Unit_Length
begin

text \<open>
  The statements the parser and serializer generators emit, each one line of C++
  (\<^verbatim>\<open>generation/parsing/parser_generator.cpp\<close>, \<^verbatim>\<open>generation/serializing/serializer_generator.cpp\<close>), and the text of a
  block of them as \<^verbatim>\<open>KODE::Code\<close> builds it.

  A statement keeps the expression it was made from beside its text, so that generated code can be
  executed as well as printed.  \<open>gcode\<close> is a \<^verbatim>\<open>KODE::Code\<close> buffer as a list of lines; the lemmas at the end
  show that its operations are those of the text buffer.
\<close>

section \<open>Statements\<close>

datatype stmt =
  SText string
| SDecl string string
| SLabel string
| SAdvance string
| SIfInstruction
| SUnitFromState
| SUnitFromState_in
| SGotoInstruction
| SClose
| SPush
| SIfNotAllocate string
| SReturnAreaFull
| SInitPos string
| SStateUnit
| SCountBytes string string
| SReturnDone string
| SDest string string
| SDestTemp string
| SStoreTemp string string string string
| SSetLen string expr string
| SCopyIn string
| SRangeStart
| SSkipRange
| SParseInt int bool string
| SIfNotDone string string
| SReturnRes string
| SSwitch expr string
| SCase expr string
| SDefault
| SBreak
| SAssignField string string expr string
| SSrc string string
| SSrcTemp string
| SLoadTemp string string string string
| SUpdateLen expr string
| SCopyOut string string
| SSerializeInt int bool string
| SDollar string string
| SEval expr string

definition sign_text :: "bool \<Rightarrow> string" where
  "sign_text sg = (if sg then ''signed'' else ''unsigned'')"

fun line_of :: "stmt \<Rightarrow> string" where
  "line_of (SText s) = s"
| "line_of (SDecl ty name) = ty @ '' '' @ name @ '';''"
| "line_of (SLabel l) = l @ '':''"
| "line_of (SAdvance l) = ''state->advanceToInstruction(&&'' @ l @ '');''"
| "line_of SIfInstruction = ''if (state->instruction()) {''"
| "line_of SUnitFromState = ''unit = BLOCKSTATE->unit;''"
| "line_of SUnitFromState_in = ''  unit = BLOCKSTATE->unit;''"
| "line_of SGotoInstruction = ''  goto *state->instruction();''"
| "line_of SClose = ''}''"
| "line_of SPush = ''state->push<BlockState>();''"
| "line_of (SIfNotAllocate p) = ''if (!area->allocate('' @ p @ ''))''"
| "line_of SReturnAreaFull = ''  return dr::parsing::ParseResult::AREA_FULL;''"
| "line_of (SInitPos buf) = ''*POS = '' @ buf @ '';''"
| "line_of SStateUnit = ''BLOCKSTATE->unit = unit;''"
| "line_of (SCountBytes var buf) = ''*'' @ var @ '' = *POS - '' @ buf @ '';''"
| "line_of (SReturnDone ty) = ''return '' @ ty @ ''::DONE;''"
| "line_of (SDest unit f) = ''parse_dest = (char*) &'' @ unit @ ''->'' @ f @ '';''"
| "line_of (SDestTemp tmp) = ''parse_dest = (char*) &'' @ tmp @ '';''"
| "line_of (SStoreTemp unit f ty tmp) = unit @ ''->'' @ f @ '' = ('' @ ty @ '') '' @ tmp @ '';''"
| "line_of (SSetLen ty e s) = ''(*((dr::unit::'' @ ty @ ''*) parse_dest)).len_ = '' @ s @ '';''"
| "line_of (SCopyIn ty) = ''parse_res = dr::parsing::util::allocateCopyBytes(POS, in_buf_end, &(*((dr::unit::'' @ ty @
     ''*) parse_dest)).data_, (*((dr::unit::'' @ ty @ ''*) parse_dest)).len_, area);''"
| "line_of SRangeStart = ''(*((dr::unit::var_stream_range*) parse_dest)).start_ = *POS;''"
| "line_of SSkipRange = ''parse_res = dr::parsing::util::advance(POS, in_buf_end, (*((dr::unit::var_stream_range*) parse_dest)).len_);''"
| "line_of (SParseInt w sg bo) = ''parse_res = dr::parsing::util::parseInt'' @ dec_int w @ ''_'' @ sign_text sg @ ''_'' @ bo @
     ''(POS, in_buf_end, parse_dest);''"
| "line_of (SIfNotDone var ty) = ''if ('' @ var @ '' != '' @ ty @ ''::DONE)''"
| "line_of (SReturnRes var) = ''  return '' @ var @ '';''"
| "line_of (SSwitch e s) = ''switch ('' @ s @ ''){''"
| "line_of (SCase e s) = ''case '' @ s @ '':''"
| "line_of SDefault = ''default:''"
| "line_of SBreak = ''break;''"
| "line_of (SAssignField unit f e s) = unit @ ''->'' @ f @ '' = '' @ s @ '';''"
| "line_of (SSrc unit f) = ''serialize_src = reinterpret_cast<char*>(&'' @ unit @ ''->'' @ f @ '');''"
| "line_of (SSrcTemp tmp) = ''serialize_src = reinterpret_cast<char*>(&'' @ tmp @ '');''"
| "line_of (SLoadTemp tmp ty unit f) = tmp @ '' = ('' @ ty @ '') '' @ unit @ ''->'' @ f @ '';''"
| "line_of (SUpdateLen e s) = s @ '' = (*((dr::unit::var_bytes*) serialize_src)).len_;''"
| "line_of (SCopyOut ty member) = ''serialize_res = dr::serializing::util::copyBytes((*((dr::unit::'' @ ty @
     ''*) serialize_src)).'' @ member @ '', (*((dr::unit::'' @ ty @ ''*) serialize_src)).len_, POS, out_buf_end);''"
| "line_of (SSerializeInt w sg bo) = ''serialize_res = dr::serializing::util::serializeInt'' @ dec_int w @ ''_'' @ sign_text sg @
     ''_'' @ bo @ ''(serialize_src, POS, out_buf_end);''"
| "line_of (SDollar unit f) = ''dollar = reinterpret_cast<char*>(&'' @ unit @ ''->'' @ f @ '');''"
| "line_of (SEval e s) = s @ '';''"

section \<open>Code buffers\<close>

record gcode =
  gc_lines :: "(int \<times> stmt) option list"
  gc_indent :: int

definition empty_code :: gcode where
  "empty_code = \<lparr>gc_lines = [], gc_indent = 0\<rparr>"

definition add_line :: "stmt \<Rightarrow> gcode \<Rightarrow> gcode" where
  "add_line st c = c\<lparr>gc_lines := gc_lines c @ [Some (gc_indent c, st)]\<rparr>"

definition new_line :: "gcode \<Rightarrow> gcode" where
  "new_line c = c\<lparr>gc_lines := gc_lines c @ [None]\<rparr>"

definition indent_code :: "gcode \<Rightarrow> gcode" where
  "indent_code c = c\<lparr>gc_indent := gc_indent c + s_defaultIndentation\<rparr>"

definition unindent_code :: "gcode \<Rightarrow> gcode" where
  "unindent_code c =
     (let i = gc_indent c - s_defaultIndentation in c\<lparr>gc_indent := (if i < 0 then 0 else i)\<rparr>)"

definition shift_stmt :: "int \<Rightarrow> (int \<times> stmt) option \<Rightarrow> (int \<times> stmt) option" where
  "shift_stmt k l = map_option (\<lambda>(i, st). (i + k, st)) l"

definition add_block :: "gcode \<Rightarrow> gcode \<Rightarrow> gcode" where
  "add_block b c = c\<lparr>gc_lines := gc_lines c @ map (shift_stmt (gc_indent c)) (gc_lines b)\<rparr>"

fun line_stmts :: "(int \<times> stmt) option list \<Rightarrow> stmt list" where
  "line_stmts [] = []"
| "line_stmts (None # ls) = line_stmts ls"
| "line_stmts (Some (i, st) # ls) = st # line_stmts ls"

definition stmts :: "gcode \<Rightarrow> stmt list" where
  "stmts c = line_stmts (gc_lines c)"

section \<open>The buffer as text\<close>

definition text_line :: "(int \<times> stmt) option \<Rightarrow> string" where
  "text_line l = (case l of None \<Rightarrow> [] | Some (i, st) \<Rightarrow> spaces i @ line_of st)"

definition to_kcode :: "gcode \<Rightarrow> kcode" where
  "to_kcode c = \<lparr>kc_text = join_lines (map text_line (gc_lines c)), kc_indent = gc_indent c\<rparr>"

definition line_ok :: "(int \<times> stmt) option \<Rightarrow> bool" where
  "line_ok l = (case l of None \<Rightarrow> True | Some (i, st) \<Rightarrow> 0 \<le> i \<and> line_of st \<noteq> [] \<and> newline \<notin> set (line_of st))"

definition code_ok :: "gcode \<Rightarrow> bool" where
  "code_ok c \<longleftrightarrow> 0 \<le> gc_indent c \<and> (\<forall>l\<in>set (gc_lines c). line_ok l)"

lemma to_kcode_empty: "to_kcode empty_code = Code"
  by (simp add: to_kcode_def empty_code_def Code_def)

lemma to_kcode_add_line: "to_kcode (add_line st c) = addLine (line_of st) (to_kcode c)"
  by (simp add: to_kcode_def add_line_def addLine_def text_line_def)

lemma to_kcode_new_line: "to_kcode (new_line c) = newLine (to_kcode c)"
  by (simp add: to_kcode_def new_line_def newLine_def text_line_def)

lemma to_kcode_indent:
  "to_kcode (indent_code c) = indent (to_kcode c)" "to_kcode (unindent_code c) = unindent (to_kcode c)"
  by (simp_all add: to_kcode_def indent_code_def indent_def unindent_code_def unindent_def Let_def)

lemma foldl_block:
  "foldl add_block_line c ls =
     c\<lparr>kc_text := kc_text c @ join_lines (map (\<lambda>l. (if l \<noteq> [] then spaces (kc_indent c) else []) @ l) ls)\<rparr>"
  by (induction ls arbitrary: c) (simp_all add: add_block_line_def cong: if_cong)

lemma text_line_shift:
  "line_ok l \<Longrightarrow> 0 \<le> k \<Longrightarrow>
     (if text_line l \<noteq> [] then spaces k else []) @ text_line l = text_line (shift_stmt k l)"
  by (cases l) (auto simp: line_ok_def text_line_def shift_stmt_def spaces_add)

lemma line_ok_text: "line_ok l \<Longrightarrow> newline \<notin> set (text_line l)"
  by (auto simp: line_ok_def text_line_def split: option.splits)

lemma to_kcode_add_block:
  assumes "splits_lines split" and "code_ok b" and "code_ok c"
  shows "to_kcode (add_block b c) = addBlock_code split (to_kcode b) (to_kcode c)"
proof -
  have lines: "block_lines split (kc_text (to_kcode b)) = map text_line (gc_lines b)"
    using assms(1,2) line_ok_text by (simp add: to_kcode_def block_lines_join code_ok_def)
  have shifted: "map (\<lambda>l. (if l \<noteq> [] then spaces (kc_indent (to_kcode c)) else []) @ l) (map text_line (gc_lines b)) =
      map text_line (map (shift_stmt (gc_indent c)) (gc_lines b))"
    using assms(2,3) text_line_shift[of _ "gc_indent c"] by (simp add: code_ok_def to_kcode_def split del: if_split cong: if_cong)
  show ?thesis
    unfolding addBlock_code_def addBlock_def lines foldl_block shifted
    by (simp add: to_kcode_def add_block_def)
qed

lemma code_ok_ops [simp]:
  "code_ok empty_code"
  "code_ok (add_line st c) \<longleftrightarrow> code_ok c \<and> line_of st \<noteq> [] \<and> newline \<notin> set (line_of st)"
  "code_ok (new_line c) \<longleftrightarrow> code_ok c"
  "code_ok c \<Longrightarrow> code_ok (indent_code c)"
  "code_ok c \<Longrightarrow> code_ok (unindent_code c)"
  by (auto simp: code_ok_def empty_code_def add_line_def new_line_def indent_code_def unindent_code_def line_ok_def
      s_defaultIndentation_def Let_def)

lemma line_ok_shift: "line_ok l \<Longrightarrow> 0 \<le> k \<Longrightarrow> line_ok (shift_stmt k l)"
  by (cases l) (auto simp: line_ok_def shift_stmt_def)

lemma code_ok_add_block: "code_ok b \<Longrightarrow> code_ok c \<Longrightarrow> code_ok (add_block b c)"
  by (auto simp: code_ok_def add_block_def line_ok_shift)

lemma line_stmts_append [simp]: "line_stmts (ls @ ms) = line_stmts ls @ line_stmts ms"
  by (induction ls rule: line_stmts.induct) simp_all

lemma line_stmts_shift [simp]: "line_stmts (map (shift_stmt k) ls) = line_stmts ls"
  by (induction ls rule: line_stmts.induct) (simp_all add: shift_stmt_def)

lemma stmts_simps [simp]:
  "stmts empty_code = []"
  "stmts (add_line st c) = stmts c @ [st]"
  "stmts (new_line c) = stmts c"
  "stmts (indent_code c) = stmts c"
  "stmts (unindent_code c) = stmts c"
  "stmts (add_block b c) = stmts c @ stmts b"
  by (simp_all add: stmts_def empty_code_def add_line_def new_line_def indent_code_def unindent_code_def add_block_def Let_def)

end
