(* ===== verification/Parser_Gen.thy ===== *)
theory Parser_Gen
  imports Gen_Code Kode_File
begin

text \<open>
  The generator of parser classes (\<^verbatim>\<open>generation/parsing/parser_generator.cpp\<close>).

  Its state is one record; the \<^verbatim>\<open>code_\<close> pointer, which nested instructions redirect to a buffer of
  their own, is the field \<open>pg_code\<close>.  The generator object is used for all units of a module, so labels,
  temporaries and their counters survive from one unit to the next.  \<^const>\<open>None\<close> means that the generator
  does not return: it dereferences a null pointer or a translation throws.  \<open>ge_module\<close> gives the properties
  of the module a unit was declared in; it is \<^const>\<open>None\<close> for a unit that no \<^verbatim>\<open>Module::addDeclaration\<close> was called for,
  as those made by the instantiation type generator.
\<close>

record gen_env =
  ge_types :: type_store
  ge_unit :: taddr
  ge_module :: "taddr \<Rightarrow> attribute list option"
  ge_input_pointers :: bool

record pgen =
  pg_code :: gcode
  pg_temps :: "(string \<times> string) list"
  pg_label :: nat
  pg_temp :: nat
  pg_input_pointer :: bool
  pg_errors :: nat

definition ParserGenerator :: pgen where
  "ParserGenerator = \<lparr>pg_code = empty_code, pg_temps = [], pg_label = 0, pg_temp = 0,
     pg_input_pointer = False, pg_errors = 0\<rparr>"

section \<open>Names\<close>

definition unit_id_name :: "gen_env \<Rightarrow> string option" where
  "unit_id_name env = do { ob \<leftarrow> ge_types env (ge_unit env); i \<leftarrow> ty_id ob; Some (id_name i) }"

definition exprCurrentUnit :: "gen_env \<Rightarrow> string option" where
  "exprCurrentUnit env =
     map_option (\<lambda>s. ''UNIT('' @ s @ '')'') (type_text (ge_types env) (Some (ge_unit env)))"

definition exprCurrentUnitPP :: "gen_env \<Rightarrow> string option" where
  "exprCurrentUnitPP env =
     map_option (\<lambda>s. ''UNITPP('' @ s @ '')'') (type_text (ge_types env) (Some (ge_unit env)))"

definition field_name :: "item_base \<Rightarrow> string" where
  "field_name b = unitFieldName (id_name (it_id b))"

definition inheritedProperty :: "gen_env \<Rightarrow> item \<Rightarrow> string \<Rightarrow> expr option option" where
  "inheritedProperty env i pname =
     (case it_unit (base_of i) of
        None \<Rightarrow> Some None
      | Some u \<Rightarrow> map_option (\<lambda>is. unit_inheritedProperty is (ge_module env u) pname (Some i)) (unit_items (ge_types env) u))"

definition byteOrderLabel :: "gen_env \<Rightarrow> item \<Rightarrow> string option" where
  "byteOrderLabel env i =
     (case inheritedProperty env i ''byteorder'' of
        None \<Rightarrow> None
      | Some None \<Rightarrow> Some ''big''
      | Some (Some (EConstant (CEnum label t))) \<Rightarrow> Some (id_name label)
      | Some (Some e) \<Rightarrow> None)"

section \<open>Emitting code\<close>

definition emit :: "stmt \<Rightarrow> pgen \<Rightarrow> pgen" where
  "emit st s = s\<lparr>pg_code := add_line st (pg_code s)\<rparr>"

definition emit_newline :: "pgen \<Rightarrow> pgen" where
  "emit_newline s = s\<lparr>pg_code := new_line (pg_code s)\<rparr>"

definition log_error :: "pgen \<Rightarrow> pgen" where
  "log_error s = s\<lparr>pg_errors := pg_errors s + 1\<rparr>"

definition reset_errors :: "pgen \<Rightarrow> pgen" where
  "reset_errors s = s\<lparr>pg_errors := 0\<rparr>"

definition newInstructionLabel :: "string \<Rightarrow> pgen \<Rightarrow> string \<times> pgen" where
  "newInstructionLabel desc s =
     (''lbl'' @ dec_nat (pg_label s + 1) @ ''_'' @ desc, s\<lparr>pg_label := pg_label s + 1\<rparr>)"

definition newTempVarName :: "pgen \<Rightarrow> string \<times> pgen" where
  "newTempVarName s = (''tmp'' @ dec_nat (pg_temp s + 1), s\<lparr>pg_temp := pg_temp s + 1\<rparr>)"

definition addTemp :: "string \<Rightarrow> pgen \<Rightarrow> string \<times> pgen" where
  "addTemp ty s =
     (let (name, s1) = newTempVarName s in (name, s1\<lparr>pg_temps := pg_temps s1 @ [(name, ty)]\<rparr>))"

definition emitInitInstruction :: "string \<Rightarrow> pgen \<Rightarrow> pgen" where
  "emitInitInstruction label s = emit (SAdvance label) (emit (SLabel label) s)"

definition emitAllocateIntoPointerPointer :: "string \<Rightarrow> pgen \<Rightarrow> pgen" where
  "emitAllocateIntoPointerPointer p s = emit_newline (emit SReturnAreaFull (emit (SIfNotAllocate p) s))"

definition emitAllocateIntoPointer :: "string \<Rightarrow> pgen \<Rightarrow> pgen" where
  "emitAllocateIntoPointer p s = emitAllocateIntoPointerPointer (''&'' @ p) s"

definition emitCheckParseResult :: "pgen \<Rightarrow> pgen" where
  "emitCheckParseResult s =
     emit (SReturnRes ''parse_res'') (emit (SIfNotDone ''parse_res'' ''dr::parsing::ParseResult'') s)"

definition emitPushBlockState :: "pgen \<Rightarrow> pgen" where
  "emitPushBlockState s = emit_newline (emit SPush s)"

section \<open>Visiting types and items\<close>

definition length_value_of :: "item \<Rightarrow> expr option option" where
  "length_value_of i =
     (case attrs_lookup (it_attributes (base_of i)) ''length'' of None \<Rightarrow> None | Some a \<Rightarrow> Some (attr_value a))"

definition parse_bytes :: "gen_env \<Rightarrow> item \<Rightarrow> pgen \<Rightarrow> pgen option" where
  "parse_bytes env i s =
     (case length_value_of i of
        None \<Rightarrow> Some s
      | Some None \<Rightarrow> None
      | Some (Some e) \<Rightarrow>
          do { txt \<leftarrow> expr_text (ge_types env) e;
               Some (emitCheckParseResult
                 (if \<not> pg_input_pointer s
                  then emit (SCopyIn ''var_bytes'') (emit (SSetLen ''var_bytes'' e txt) s)
                  else emit SSkipRange (emit SRangeStart (emit (SSetLen ''var_stream_range'' e txt) s)))) })"

definition parse_string :: "gen_env \<Rightarrow> item \<Rightarrow> pgen \<Rightarrow> pgen option" where
  "parse_string env i s =
     (case length_value_of i of
        None \<Rightarrow> Some s
      | Some None \<Rightarrow> None
      | Some (Some e) \<Rightarrow>
          do { txt \<leftarrow> expr_text (ge_types env) e;
               Some (emitCheckParseResult (emit (SCopyIn ''var_string'') (emit (SSetLen ''var_string'' e txt) s))) })"

definition parse_type :: "gen_env \<Rightarrow> item \<Rightarrow> taddr option \<Rightarrow> pgen \<Rightarrow> pgen option" where
  "parse_type env i t s0 =
     do { a \<leftarrow> t;
          ob \<leftarrow> ge_types env a;
          let s = reset_errors s0;
          (case ty_kind ob of
             TBytes \<Rightarrow> parse_bytes env i s
           | TString \<Rightarrow> parse_string env i s
           | TInteger w sg \<Rightarrow>
               do { bo \<leftarrow> byteOrderLabel env i; Some (emitCheckParseResult (emit (SParseInt w sg bo) s)) }
           | TAny \<Rightarrow> Some (log_error s)
           | TUnknown u \<Rightarrow> Some (log_error s)
           | TVoid \<Rightarrow> Some (log_error s)
           | _ \<Rightarrow> Some s) }"

definition parse_transformed :: "gen_env \<Rightarrow> item_base \<Rightarrow> field_base \<Rightarrow> pgen \<Rightarrow> pgen option" where
  "parse_transformed env b f s =
     (let i = AtomicType b f
      in do { ty \<leftarrow> type_text (ge_types env) (serialized_type i);
              let (tmp, s1) = addTemp ty s;
              s2 \<leftarrow> parse_type env i (serialized_type i) (emit (SDestTemp tmp) s1);
              (if attrs_has (it_attributes b) ''transform_to'' then
                 do { u \<leftarrow> exprCurrentUnit env; ty' \<leftarrow> type_text (ge_types env) (it_type b);
                      Some (emit (SStoreTemp u (field_name b) ty' tmp) s2) }
               else if attrs_has (it_attributes b) ''transform'' then Some s2
               else Some (log_error s2)) })"

definition parse_atomic :: "gen_env \<Rightarrow> item_base \<Rightarrow> field_base \<Rightarrow> pgen \<Rightarrow> pgen option" where
  "parse_atomic env b f s =
     (let i = AtomicType b f;
          s1 = (if \<not> it_app_accessible b \<and> ge_input_pointers env then s\<lparr>pg_input_pointer := True\<rparr> else s)
      in do { s2 \<leftarrow> (if serialized_type i \<noteq> it_type b then parse_transformed env b f s1
                      else do { u \<leftarrow> exprCurrentUnit env;
                                parse_type env i (serialized_type i) (emit (SDest u (field_name b)) s1) });
              Some (s2\<lparr>pg_input_pointer := False\<rparr>) })"

definition parse_variable :: "gen_env \<Rightarrow> item_base \<Rightarrow> expr option \<Rightarrow> pgen \<Rightarrow> pgen option" where
  "parse_variable env b d s =
     (case (case attrs_lookup (it_attributes b) ''parse'' of Some a \<Rightarrow> Some (attr_value a) | None \<Rightarrow> map_option Some d) of
        None \<Rightarrow> Some s
      | Some None \<Rightarrow> None
      | Some (Some e) \<Rightarrow>
          do { u \<leftarrow> exprCurrentUnit env; txt \<leftarrow> expr_text (ge_types env) e;
               Some (emit (SAssignField u (field_name b) e txt) s) })"

fun emit_cases :: "gen_env \<Rightarrow> expr list \<Rightarrow> pgen \<Rightarrow> pgen option" where
  "emit_cases env [] s = Some s"
| "emit_cases env (e # es) s =
     do { txt \<leftarrow> expr_text (ge_types env) e; emit_cases env es (emit (SCase e txt) s) }"

definition begin_instruction :: "gen_env \<Rightarrow> item \<Rightarrow> pgen \<Rightarrow> pgen option" where
  "begin_instruction env i s =
     do { name \<leftarrow> unit_id_name env;
          let (label, s1) = newInstructionLabel (''parse_'' @ name @ ''_'' @ id_name (item_id i)) s;
          Some (reset_errors (emitInitInstruction label (s1\<lparr>pg_code := empty_code\<rparr>))) }"

definition end_instruction :: "gcode \<Rightarrow> pgen \<Rightarrow> pgen" where
  "end_instruction outer s = s\<lparr>pg_code := add_block (new_line (pg_code s)) outer\<rparr>"

fun parse_visit :: "gen_env \<Rightarrow> item \<Rightarrow> pgen \<Rightarrow> pgen option"
and parse_items :: "gen_env \<Rightarrow> item list \<Rightarrow> pgen \<Rightarrow> pgen option"
and parse_cases :: "gen_env \<Rightarrow> switch_case list \<Rightarrow> pgen \<Rightarrow> pgen option" where
  "parse_visit env (AtomicType b f) s = parse_atomic env b f s"
| "parse_visit env (UnknownField b f i) s = Some (log_error s)"
| "parse_visit env (Switch b f e cs) s =
     (case e of
        None \<Rightarrow> Some s
      | Some x \<Rightarrow>
          do { txt \<leftarrow> expr_text (ge_types env) x;
               s1 \<leftarrow> parse_cases env cs (emit (SSwitch x txt) s);
               Some (emit SClose s1) })"
| "parse_visit env (Variable b d) s = parse_variable env b d s"
| "parse_visit env i s = Some s"
| "parse_items env [] s = Some s"
| "parse_items env (i # is) s =
     do { s1 \<leftarrow> begin_instruction env i s; s2 \<leftarrow> parse_visit env i s1;
          parse_items env is (end_instruction (pg_code s) s2) }"
| "parse_cases env [] s = Some s"
| "parse_cases env (Case es is d # cs) s =
     do { s1 \<leftarrow> emit_cases env es s;
          let s2 = (if d then emit SDefault s1 else s1);
          s3 \<leftarrow> parse_items env is (s2\<lparr>pg_code := indent_code (pg_code s2)\<rparr>);
          let s4 = emit SBreak s3;
          parse_cases env cs (s4\<lparr>pg_code := unindent_code (pg_code s4)\<rparr>) }"

section \<open>A parser class\<close>

definition parse_result :: string where
  "parse_result = ''dr::parsing::ParseResult''"

fun emit_decls :: "(string \<times> string) list \<Rightarrow> pgen \<Rightarrow> pgen" where
  "emit_decls [] s = s"
| "emit_decls ((name, ty) # ts) s = emit_decls ts (emit (SDecl ty name) s)"

definition parse_body :: "string \<Rightarrow> string \<Rightarrow> gcode \<Rightarrow> pgen \<Rightarrow> pgen" where
  "parse_body root unit_pp inner s =
     (let s1 = emit_decls (pg_temps s) (emit (SDecl ''char*'' ''unit'')
                 (emit (SDecl parse_result ''parse_res'') (emit (SDecl ''char*'' ''parse_dest'') (s\<lparr>pg_code := empty_code\<rparr>))));
          s2 = emit SClose (emit SGotoInstruction (emit SUnitFromState_in (emit SIfInstruction
                 (emit (SLabel root) (emit_newline s1)))));
          s3 = emitAllocateIntoPointerPointer unit_pp (emitPushBlockState (emit_newline s2));
          s4 = emit_newline (emit (SInitPos ''in_buf_start'') (emit SUnitFromState s3));
          s5 = s4\<lparr>pg_code := add_block inner (pg_code s4)\<rparr>
      in emit (SReturnDone parse_result) (emit (SCountBytes ''bytes_read'' ''in_buf_start'') s5))"

definition parser_macros :: "string list" where
  "parser_macros =
     [''#define POS state->stream_pos()'', ''#define BLOCKSTATE state->peek<BlockState>()'',
      ''#define UNIT(type) reinterpret_cast<type*>(unit)'',
      ''#define UNITPP(type) reinterpret_cast<type**>(&BLOCKSTATE->unit)'', ''#define SELF(type) (*UNIT(type))'']"

definition parse_arguments :: "string list" where
  "parse_arguments =
     [''char* in_buf_start'', ''char* in_buf_end'', ''dr::unit::UnitArea* area'', ''dr::parsing::ParserState* state'',
      ''size_t* bytes_read'']"

definition parser_class :: "string \<Rightarrow> kclass \<Rightarrow> kclass option" where
  "parser_class body cls =
     do { let c1 = foldl (\<lambda>c m. addDeclarationMacro m c) cls parser_macros;
          consts \<leftarrow> Class ''ParserConstants'' [];
          consts_var \<leftarrow> MemberVariable ''consts_'' ''ParserConstants'' False acc_Public;
          init \<leftarrow> Function ''initParserConstants'' ''void'' acc_Private False;
          bs \<leftarrow> Class ''BlockState'' [];
          bs_unit \<leftarrow> MemberVariable ''unit'' ''char*'' False acc_Public;
          func \<leftarrow> Function ''parse'' parse_result acc_Public False;
          let c2 = addFunction (setBody_code Code init) (addMemberVariable consts_var (addNestedClass consts c1));
          let c3 = addNestedClass (addMemberVariable bs_unit bs) c2;
          Some (addFunction (setBody body (foldl (\<lambda>f a. addArgument a [] f) func parse_arguments)) c3) }"

definition not_property :: "item \<Rightarrow> bool" where
  "not_property i \<longleftrightarrow> property_of i = None"

text \<open>The generated code, the class with it, the generator's state for the next unit, and whether no
  error was reported.\<close>

definition run_parser :: "gen_env \<Rightarrow> item list \<Rightarrow> kclass \<Rightarrow> pgen \<Rightarrow> (gcode \<times> kclass \<times> pgen \<times> bool) option" where
  "run_parser env is cls s =
     do { let (root, s1) = newInstructionLabel ''root'' s;
          s2 \<leftarrow> parse_items env (filter not_property is) (s1\<lparr>pg_code := empty_code\<rparr>);
          u \<leftarrow> exprCurrentUnitPP env;
          let s3 = parse_body root u (pg_code s2) s2;
          cls' \<leftarrow> parser_class (kc_text (to_kcode (pg_code s3))) cls;
          Some (pg_code s3, cls', s3, pg_errors s3 = 0) }"

end
