(* ===== verification/Serializer_Gen.thy ===== *)
theory Serializer_Gen
  imports Parser_Gen
begin

text \<open>
  The generator of serializer classes (\<^verbatim>\<open>generation/serializing/serializer_generator.cpp\<close>).

  The class has the members of the parser generator and its own copies of the functions that name
  labels and temporaries and emit the shared statements, so its state is the same record.  The
  generated function first updates the members that length attributes name, then evaluates the
  variables, and then writes the remaining items in order.
\<close>

definition SerializerGenerator :: pgen where
  "SerializerGenerator = ParserGenerator"

definition serialize_result :: string where
  "serialize_result = ''dr::serializing::SerializeResult''"

definition emitCheckSerializeResult :: "pgen \<Rightarrow> pgen" where
  "emitCheckSerializeResult s =
     emit (SReturnRes ''serialize_res'') (emit (SIfNotDone ''serialize_res'' serialize_result) s)"

section \<open>Visiting types and items\<close>

definition serialize_bytes :: "pgen \<Rightarrow> pgen" where
  "serialize_bytes s =
     emitCheckSerializeResult
       (if \<not> pg_input_pointer s then emit (SCopyOut ''var_bytes'' ''data_'') s
        else emit (SCopyOut ''var_stream_range'' ''start_'') s)"

definition serialize_type :: "gen_env \<Rightarrow> item \<Rightarrow> taddr option \<Rightarrow> pgen \<Rightarrow> pgen option" where
  "serialize_type env i t s0 =
     do { a \<leftarrow> t;
          ob \<leftarrow> ge_types env a;
          let s = reset_errors s0;
          (case ty_kind ob of
             TBytes \<Rightarrow> Some (serialize_bytes s)
           | TString \<Rightarrow> Some (emitCheckSerializeResult (emit (SCopyOut ''var_string'' ''data_'') s))
           | TInteger w sg \<Rightarrow>
               do { bo \<leftarrow> byteOrderLabel env i; Some (emitCheckSerializeResult (emit (SSerializeInt w sg bo) s)) }
           | TAny \<Rightarrow> Some (log_error s)
           | TUnknown u \<Rightarrow> Some (log_error s)
           | TVoid \<Rightarrow> Some (log_error s)
           | _ \<Rightarrow> Some s) }"

definition serialize_transformed :: "gen_env \<Rightarrow> item_base \<Rightarrow> field_base \<Rightarrow> pgen \<Rightarrow> pgen option" where
  "serialize_transformed env b f s =
     (let i = AtomicType b f
      in do { ty \<leftarrow> type_text (ge_types env) (serialized_type i);
              let (tmp, s1) = addTemp ty s;
              s2 \<leftarrow> (if attrs_has (it_attributes b) ''transform_to'' then
                        do { u \<leftarrow> exprCurrentUnit env; Some (emit (SLoadTemp tmp ty u (field_name b)) s1) }
                      else if attrs_has (it_attributes b) ''transform'' then Some s1
                      else Some (log_error s1));
              serialize_type env i (serialized_type i) (emit (SSrcTemp tmp) s2) })"

definition serialize_atomic :: "gen_env \<Rightarrow> item_base \<Rightarrow> field_base \<Rightarrow> pgen \<Rightarrow> pgen option" where
  "serialize_atomic env b f s =
     (let i = AtomicType b f;
          s1 = (if \<not> it_app_accessible b \<and> ge_input_pointers env then s\<lparr>pg_input_pointer := True\<rparr> else s)
      in do { s2 \<leftarrow> (if serialized_type i \<noteq> it_type b then serialize_transformed env b f s1
                      else do { u \<leftarrow> exprCurrentUnit env;
                                serialize_type env i (serialized_type i) (emit (SSrc u (field_name b)) s1) });
              Some (s2\<lparr>pg_input_pointer := False\<rparr>) })"

definition serialize_variable :: "gen_env \<Rightarrow> item_base \<Rightarrow> pgen \<Rightarrow> pgen option" where
  "serialize_variable env b s =
     (case attrs_lookup (it_attributes b) ''serialize'' of
        None \<Rightarrow> Some s
      | Some a \<Rightarrow>
          do { u \<leftarrow> exprCurrentUnit env; e \<leftarrow> attr_value a; txt \<leftarrow> expr_text (ge_types env) e;
               Some (emit (SEval e txt) (emit (SDollar u (field_name b)) s)) })"

definition begin_serialize :: "gen_env \<Rightarrow> item \<Rightarrow> pgen \<Rightarrow> pgen option" where
  "begin_serialize env i s =
     do { name \<leftarrow> unit_id_name env;
          let (label, s1) = newInstructionLabel (''serialize_'' @ name @ ''_'' @ id_name (item_id i)) s;
          Some (reset_errors (emitInitInstruction label (s1\<lparr>pg_code := empty_code\<rparr>))) }"

fun serialize_visit :: "gen_env \<Rightarrow> item \<Rightarrow> pgen \<Rightarrow> pgen option"
and serialize_items :: "gen_env \<Rightarrow> item list \<Rightarrow> pgen \<Rightarrow> pgen option"
and serialize_cases :: "gen_env \<Rightarrow> switch_case list \<Rightarrow> pgen \<Rightarrow> pgen option" where
  "serialize_visit env (AtomicType b f) s = serialize_atomic env b f s"
| "serialize_visit env (UnknownField b f i) s = Some (log_error s)"
| "serialize_visit env (Switch b f e cs) s =
     (case e of
        None \<Rightarrow> Some s
      | Some x \<Rightarrow>
          do { txt \<leftarrow> expr_text (ge_types env) x;
               s1 \<leftarrow> serialize_cases env cs (emit (SSwitch x txt) s);
               Some (emit SClose s1) })"
| "serialize_visit env (Variable b d) s = serialize_variable env b s"
| "serialize_visit env i s = Some s"
| "serialize_items env [] s = Some s"
| "serialize_items env (i # is) s =
     (if is_variable i then
        do { s1 \<leftarrow> serialize_visit env i (reset_errors s); serialize_items env is s1 }
      else
        do { s1 \<leftarrow> begin_serialize env i s; s2 \<leftarrow> serialize_visit env i s1;
             serialize_items env is (end_instruction (pg_code s) s2) })"
| "serialize_cases env [] s = Some s"
| "serialize_cases env (Case es is d # cs) s =
     do { s1 \<leftarrow> emit_cases env es s;
          let s2 = (if d then emit SDefault s1 else s1);
          s3 \<leftarrow> serialize_items env is (s2\<lparr>pg_code := indent_code (pg_code s2)\<rparr>);
          let s4 = emit SBreak s3;
          serialize_cases env cs (s4\<lparr>pg_code := unindent_code (pg_code s4)\<rparr>) }"

section \<open>Length updates\<close>

definition is_byte_string :: "gen_env \<Rightarrow> taddr option \<Rightarrow> bool option" where
  "is_byte_string env t =
     (case t of
        None \<Rightarrow> Some False
      | Some a \<Rightarrow> map_option (\<lambda>ob. ty_kind ob = TBytes \<or> ty_kind ob = TString) (ge_types env a))"

definition attribute_access :: "expr \<Rightarrow> bool" where
  "attribute_access e = (case e of EOperator k ops \<Rightarrow> k = op_Attribute | _ \<Rightarrow> False)"

definition is_list_field :: "item \<Rightarrow> bool" where
  "is_list_field i = (case i of ListField b f inner \<Rightarrow> True | _ \<Rightarrow> False)"

definition updateLengthForField :: "gen_env \<Rightarrow> item \<Rightarrow> pgen \<Rightarrow> pgen option" where
  "updateLengthForField env i s =
     (if is_list_field i then Some s
      else do { bytes \<leftarrow> is_byte_string env (serialized_type i);
                (if bytes \<and> it_app_accessible (base_of i) then
                   (case length_value_of i of
                      Some (Some e) \<Rightarrow>
                        if attribute_access e then
                          do { txt \<leftarrow> expr_text (ge_types env) e; u \<leftarrow> exprCurrentUnit env;
                               Some (emit (SUpdateLen e txt) (emit (SSrc u (field_name (base_of i))) s)) }
                        else Some s
                    | _ \<Rightarrow> Some s)
                 else Some s) })"

fun update_lengths :: "gen_env \<Rightarrow> item list \<Rightarrow> pgen \<Rightarrow> pgen option" where
  "update_lengths env [] s = Some s"
| "update_lengths env (i # is) s =
     do { s1 \<leftarrow> (if is_field i then updateLengthForField env i s else Some s); update_lengths env is s1 }"

section \<open>A serializer class\<close>

definition serialize_body :: "string \<Rightarrow> gcode \<Rightarrow> pgen \<Rightarrow> pgen" where
  "serialize_body root inner s =
     (let s1 = emit_decls (pg_temps s) (emit (SDecl ''char*'' ''dollar'')
                 (emit (SDecl serialize_result ''serialize_res'')
                   (emit (SDecl ''char*'' ''serialize_src'') (s\<lparr>pg_code := empty_code\<rparr>))));
          s2 = emit SClose (emit SGotoInstruction (emit SUnitFromState_in (emit SIfInstruction
                 (emit (SLabel root) (emit_newline s1)))));
          s3 = emit SStateUnit (emitPushBlockState (emit_newline s2));
          s4 = emit_newline (emit (SInitPos ''out_buf_start'') s3);
          s5 = s4\<lparr>pg_code := add_block inner (pg_code s4)\<rparr>
      in emit (SReturnDone serialize_result) (emit (SCountBytes ''bytes_written'' ''out_buf_start'') s5))"

definition serializer_macros :: "string list" where
  "serializer_macros =
     [''#define POS state->stream_pos()'', ''#define BLOCKSTATE state->peek<BlockState>()'',
      ''#define UNIT(type) reinterpret_cast<type*>(unit)'',
      ''#define UNITPP(type) reinterpret_cast<type**>(&BLOCKSTATE->unit)'', ''#define SELF(type) (*UNIT(type))'',
      ''#define DOLLARP(type) reinterpret_cast<type*>(dollar)'', ''#define DOLLAR(type) (*DOLLARP(type))'']"

definition serialize_arguments :: "string list" where
  "serialize_arguments =
     [''char* unit'', ''char* out_buf_start'', ''char* out_buf_end'', ''dr::parsing::ParserState* state'',
      ''size_t* bytes_written'']"

definition serializer_class :: "string \<Rightarrow> kclass \<Rightarrow> kclass option" where
  "serializer_class body cls =
     do { let c1 = foldl (\<lambda>c m. addDeclarationMacro m c) cls serializer_macros;
          consts \<leftarrow> Class ''SerializerConstants'' [];
          consts_var \<leftarrow> MemberVariable ''consts_'' ''SerializerConstants'' False acc_Public;
          init \<leftarrow> Function ''initSerializerConstants'' ''void'' acc_Private False;
          bs \<leftarrow> Class ''BlockState'' [];
          bs_unit \<leftarrow> MemberVariable ''unit'' ''char*'' False acc_Public;
          func \<leftarrow> Function ''serialize'' serialize_result acc_Public False;
          let c2 = addFunction (setBody_code Code init) (addMemberVariable consts_var (addNestedClass consts c1));
          let c3 = addNestedClass (addMemberVariable bs_unit bs) c2;
          Some (addFunction (setBody body (foldl (\<lambda>f a. addArgument a [] f) func serialize_arguments)) c3) }"

definition run_serializer :: "gen_env \<Rightarrow> item list \<Rightarrow> kclass \<Rightarrow> pgen \<Rightarrow> (gcode \<times> kclass \<times> pgen \<times> bool) option" where
  "run_serializer env is cls s =
     do { let (root, s1) = newInstructionLabel ''root'' s;
          s2 \<leftarrow> update_lengths env is (s1\<lparr>pg_code := empty_code\<rparr>);
          s3 \<leftarrow> serialize_items env (filter is_variable is) (emit_newline s2);
          s4 \<leftarrow> serialize_items env (filter (\<lambda>i. not_property i \<and> \<not> is_variable i) is) (emit_newline s3);
          let s5 = serialize_body root (pg_code s4) s4;
          cls' \<leftarrow> serializer_class (kc_text (to_kcode (pg_code s5))) cls;
          Some (pg_code s5, cls', s5, pg_errors s5 = 0) }"

end
