(* ===== verification/Gen_Grammar.thy ===== *)
theory Gen_Grammar
  imports Serializer_Gen
begin

text \<open>
  The shape of generated code.  \<open>instrs\<close> and \<open>selection\<close> are the grammar of the statements that the
  generators emit for a list of items and for the cases of a switch: every instruction starts with a
  fresh label, numbered by the generator's counter; code that needs no label of its own satisfies \<open>free\<close>.  Both generators stay inside it, whatever the
  items are, and the labels of a function are therefore distinct.
\<close>

definition label_name :: "nat \<Rightarrow> string \<Rightarrow> string" where
  "label_name k d = ''lbl'' @ dec_nat k @ ''_'' @ d"

definition is_case :: "stmt \<Rightarrow> bool" where
  "is_case st = (case st of SCase e s \<Rightarrow> True | SDefault \<Rightarrow> True | _ \<Rightarrow> False)"

inductive instrs :: "(stmt list \<Rightarrow> bool) \<Rightarrow> (stmt list \<Rightarrow> bool) \<Rightarrow> nat \<Rightarrow> stmt list \<Rightarrow> nat \<Rightarrow> bool"
and selection :: "(stmt list \<Rightarrow> bool) \<Rightarrow> (stmt list \<Rightarrow> bool) \<Rightarrow> nat \<Rightarrow> stmt list \<Rightarrow> nat \<Rightarrow> bool"
for field :: "stmt list \<Rightarrow> bool" and free :: "stmt list \<Rightarrow> bool" where
  instrs_nil: "instrs field free k [] k"
| instrs_field: "field B \<Longrightarrow> instrs field free (Suc k) R k' \<Longrightarrow> l = label_name (Suc k) d
    \<Longrightarrow> instrs field free k (SLabel l # SAdvance l # B @ R) k'"
| instrs_switch: "selection field free (Suc k) B k' \<Longrightarrow> instrs field free k' R k'' \<Longrightarrow> l = label_name (Suc k) d
    \<Longrightarrow> instrs field free k (SLabel l # SAdvance l # SSwitch e s # B @ SClose # R) k''"
| instrs_plain: "free B \<Longrightarrow> instrs field free k R k' \<Longrightarrow> instrs field free k (B @ R) k'"
| selection_nil: "selection field free k [] k"
| selection_case: "\<forall>st\<in>set C. is_case st \<Longrightarrow> instrs field free k B k' \<Longrightarrow> selection field free k' R k''
    \<Longrightarrow> selection field free k (C @ B @ SBreak # R) k''"

text \<open>The items that are visited for their own sake.\<close>

fun leaves :: "item list \<Rightarrow> item list"
and leaves_item :: "item \<Rightarrow> item list"
and leaves_cases :: "switch_case list \<Rightarrow> item list" where
  "leaves [] = []"
| "leaves (i # is) = leaves_item i @ leaves is"
| "leaves_item (Switch b f e cs) = leaves_cases cs"
| "leaves_item i = [i]"
| "leaves_cases [] = []"
| "leaves_cases (Case es is d # cs) = leaves is @ leaves_cases cs"

definition emits :: "(stmt list \<Rightarrow> bool) \<Rightarrow> pgen \<Rightarrow> pgen \<Rightarrow> bool" where
  "emits P s s' \<longleftrightarrow> (\<exists>B. stmts (pg_code s') = stmts (pg_code s) @ B \<and> P B) \<and> pg_label s' = pg_label s"

definition generates :: "(nat \<Rightarrow> stmt list \<Rightarrow> nat \<Rightarrow> bool) \<Rightarrow> pgen \<Rightarrow> pgen \<Rightarrow> bool" where
  "generates G s s' \<longleftrightarrow> (\<exists>B. stmts (pg_code s') = stmts (pg_code s) @ B \<and> G (pg_label s) B (pg_label s'))"

lemma emit_simps [simp]:
  "stmts (pg_code (emit st s)) = stmts (pg_code s) @ [st]" "pg_label (emit st s) = pg_label s"
  "stmts (pg_code (emit_newline s)) = stmts (pg_code s)" "pg_label (emit_newline s) = pg_label s"
  "pg_code (log_error s) = pg_code s" "pg_label (log_error s) = pg_label s"
  "pg_code (reset_errors s) = pg_code s" "pg_label (reset_errors s) = pg_label s"
  "pg_input_pointer (emit st s) = pg_input_pointer s" "pg_input_pointer (reset_errors s) = pg_input_pointer s"
  by (simp_all add: emit_def emit_newline_def log_error_def reset_errors_def)

lemma end_instruction_simps [simp]:
  "stmts (pg_code (end_instruction c s)) = stmts c @ stmts (pg_code s)" "pg_label (end_instruction c s) = pg_label s"
  by (simp_all add: end_instruction_def)

lemma emit_cases_cases:
  "emit_cases env es s = Some s' \<Longrightarrow> emits (\<lambda>C. \<forall>st\<in>set C. is_case st) s s'"
proof (induction env es s rule: emit_cases.induct)
  case (1 env s)
  then show ?case by (simp add: emits_def)
next
  case (2 env e es s)
  obtain tx where "expr_text (ge_types env) e = Some tx" "emit_cases env es (emit (SCase e tx) s) = Some s'"
    using 2(2) by (auto simp: bind_eq_Some_conv)
  from 2(1)[OF this] show ?case by (fastforce simp: emits_def is_case_def)
qed

lemma begin_instruction_code:
  assumes "begin_instruction env i s = Some s'"
  shows "\<exists>d. stmts (pg_code s') = [SLabel (label_name (Suc (pg_label s)) d), SAdvance (label_name (Suc (pg_label s)) d)]
    \<and> pg_label s' = Suc (pg_label s)"
  using assms
  by (auto simp: begin_instruction_def newInstructionLabel_def emitInitInstruction_def label_name_def bind_eq_Some_conv)

lemma begin_serialize_code:
  assumes "begin_serialize env i s = Some s'"
  shows "\<exists>d. stmts (pg_code s') = [SLabel (label_name (Suc (pg_label s)) d), SAdvance (label_name (Suc (pg_label s)) d)]
    \<and> pg_label s' = Suc (pg_label s)"
  using assms
  by (auto simp: begin_serialize_def newInstructionLabel_def emitInitInstruction_def label_name_def bind_eq_Some_conv)

text \<open>Emitting a piece of code whose items are leaves keeps the grammar, by composition.\<close>

lemma generates_nil: "pg_code s' = pg_code s \<Longrightarrow> pg_label s' = pg_label s \<Longrightarrow> generates (instrs field free) s s'"
  by (auto simp: generates_def intro: instrs_nil)

lemma generates_plain: "emits free s s1 \<Longrightarrow> generates (instrs field free) s1 s' \<Longrightarrow> generates (instrs field free) s s'"
  by (fastforce simp: emits_def generates_def intro: instrs_plain)

lemma generates_field:
  assumes "\<exists>d. stmts (pg_code s1) = [SLabel (label_name (Suc (pg_label s)) d), SAdvance (label_name (Suc (pg_label s)) d)]
      \<and> pg_label s1 = Suc (pg_label s)"
    and "emits field s1 s2" and "generates (instrs field free) (end_instruction (pg_code s) s2) s'"
  shows "generates (instrs field free) s s'"
proof -
  obtain d B R where "stmts (pg_code s2) = [SLabel (label_name (Suc (pg_label s)) d), SAdvance (label_name (Suc (pg_label s)) d)] @ B"
    "field B" "pg_label s2 = Suc (pg_label s)" "stmts (pg_code s') = stmts (pg_code s) @ stmts (pg_code s2) @ R"
    "instrs field free (Suc (pg_label s)) R (pg_label s')"
    using assms by (fastforce simp: emits_def generates_def)
  then show ?thesis using instrs_field[of field B free "pg_label s" R] by (auto simp: generates_def)
qed

lemma generates_switch:
  assumes "\<exists>d. stmts (pg_code s1) = [SLabel (label_name (Suc (pg_label s)) d), SAdvance (label_name (Suc (pg_label s)) d)]
      \<and> pg_label s1 = Suc (pg_label s)"
    and "generates (selection field free) (emit (SSwitch e x) s1) s2"
    and "generates (instrs field free) (end_instruction (pg_code s) (emit SClose s2)) s'"
  shows "generates (instrs field free) s s'"
proof -
  obtain d B R where "stmts (pg_code s2) =
      [SLabel (label_name (Suc (pg_label s)) d), SAdvance (label_name (Suc (pg_label s)) d), SSwitch e x] @ B"
    "selection field free (Suc (pg_label s)) B (pg_label s2)"
    "stmts (pg_code s') = stmts (pg_code s) @ stmts (pg_code s2) @ SClose # R" "instrs field free (pg_label s2) R (pg_label s')"
    using assms by (fastforce simp: generates_def)
  then show ?thesis using instrs_switch[of field free "pg_label s" B "pg_label s2" R] by (auto simp: generates_def)
qed

lemma generates_item:
  assumes "\<exists>d. stmts (pg_code s1) = [SLabel (label_name (Suc (pg_label s)) d), SAdvance (label_name (Suc (pg_label s)) d)]
      \<and> pg_label s1 = Suc (pg_label s)"
    and "emits field s1 s2 \<or> (\<exists>e x s3. generates (selection field free) (emit (SSwitch e x) s1) s3 \<and> s2 = emit SClose s3)"
    and "generates (instrs field free) (end_instruction (pg_code s) s2) s'"
  shows "generates (instrs field free) s s'"
  using assms(2,3) generates_field[OF assms(1)] generates_switch[OF assms(1)] by blast

lemma generates_case:
  assumes "emits (\<lambda>C. \<forall>st\<in>set C. is_case st) s s1"
    and "generates (instrs field free) ((if d then emit SDefault s1 else s1)\<lparr>pg_code := indent_code (pg_code (if d then emit SDefault s1 else s1))\<rparr>) s3"
    and "generates (selection field free) ((emit SBreak s3)\<lparr>pg_code := unindent_code (pg_code (emit SBreak s3))\<rparr>) s'"
  shows "generates (selection field free) s s'"
proof -
  obtain C where C: "stmts (pg_code s1) = stmts (pg_code s) @ C" "\<forall>st\<in>set C. is_case st" "pg_label s1 = pg_label s"
    using assms(1) by (auto simp: emits_def)
  let ?C = "C @ (if d then [SDefault] else [])"
  obtain B R where "stmts (pg_code s3) = stmts (pg_code s) @ ?C @ B" "instrs field free (pg_label s) B (pg_label s3)"
    "stmts (pg_code s') = stmts (pg_code s3) @ SBreak # R" "selection field free (pg_label s3) R (pg_label s')"
    using assms(2,3) C by (auto simp: generates_def split: if_splits)
  moreover have "\<forall>st\<in>set ?C. is_case st" using C(2) by (auto simp: is_case_def)
  ultimately show ?thesis using selection_case[of ?C field free "pg_label s" B "pg_label s3" R] by (auto simp: generates_def)
qed

lemma parse_grammar:
  assumes "field []"
  shows "parse_visit env i s1 = Some s2 \<Longrightarrow> \<forall>j\<in>set (leaves_item i). \<forall>s s'. parse_visit env j s = Some s' \<longrightarrow> emits field s s' \<Longrightarrow>
      emits field s1 s2 \<or> (\<exists>e x s3. generates (selection field free) (emit (SSwitch e x) s1) s3 \<and> s2 = emit SClose s3)"
    and "parse_items env is s = Some s' \<Longrightarrow> \<forall>j\<in>set (leaves is). \<forall>s s'. parse_visit env j s = Some s' \<longrightarrow> emits field s s' \<Longrightarrow>
      generates (instrs field free) s s'"
    and "parse_cases env cs s = Some s' \<Longrightarrow> \<forall>j\<in>set (leaves_cases cs). \<forall>s s'. parse_visit env j s = Some s' \<longrightarrow> emits field s s' \<Longrightarrow>
      generates (selection field free) s s'"
proof (induction env i s1 and env "is" s and env cs s arbitrary: s2 and s' and s' rule: parse_visit_parse_items_parse_cases.induct)
  case (3 env b f e cs s)
  show ?case
  proof (cases e)
    case None
    then show ?thesis using 3(2) assms by (auto simp: emits_def)
  next
    case (Some x)
    then obtain tx s1 where st: "expr_text (ge_types env) x = Some tx" "parse_cases env cs (emit (SSwitch x tx) s) = Some s1" "s2 = emit SClose s1"
      using 3(2) by (auto simp: bind_eq_Some_conv)
    then have "generates (selection field free) (emit (SSwitch x tx) s) s1" using 3(1)[OF Some st(1,2)] 3(3) by simp
    then show ?thesis using st(3) by blast
  qed
next
  case (7 env i "is" s)
  obtain s1 s2 where st: "begin_instruction env i s = Some s1" "parse_visit env i s1 = Some s2"
    "parse_items env is (end_instruction (pg_code s) s2) = Some s'"
    using 7(3) by (auto simp: bind_eq_Some_conv)
  have rest: "generates (instrs field free) (end_instruction (pg_code s) s2) s'"
    using 7(2)[OF st] 7(4) by auto
  have "emits field s1 s2 \<or> (\<exists>e x s3. generates (selection field free) (emit (SSwitch e x) s1) s3 \<and> s2 = emit SClose s3)"
    using 7(1)[OF st(1,2)] 7(4) by auto
  then show ?case by (rule generates_item[OF begin_instruction_code[OF st(1)] _ rest])
next
  case (9 env es "is" d cs s)
  obtain s1 s3 where st: "emit_cases env es s = Some s1"
    "parse_items env is ((if d then emit SDefault s1 else s1)\<lparr>pg_code := indent_code (pg_code (if d then emit SDefault s1 else s1))\<rparr>) = Some s3"
    "parse_cases env cs ((emit SBreak s3)\<lparr>pg_code := unindent_code (pg_code (emit SBreak s3))\<rparr>) = Some s'"
    using 9(3) by (auto simp: bind_eq_Some_conv Let_def)
  show ?case
  proof (rule generates_case[OF emit_cases_cases[OF st(1)]])
    show "generates (instrs field free) ((if d then emit SDefault s1 else s1)\<lparr>pg_code := indent_code (pg_code (if d then emit SDefault s1 else s1))\<rparr>) s3"
      by (rule 9(1)[OF st(1) refl st(2)]) (use 9(4) in auto)
    show "generates (selection field free) ((emit SBreak s3)\<lparr>pg_code := unindent_code (pg_code (emit SBreak s3))\<rparr>) s'"
      by (rule 9(2)[OF st(1) refl st(2) refl st(3)]) (use 9(4) in auto)
  qed
qed (simp_all add: generates_def instrs_nil selection_nil)

lemma serialize_grammar:
  assumes "field []"
  shows "serialize_visit env i s1 = Some s2 \<Longrightarrow> \<forall>j\<in>set (leaves_item i). \<forall>s s'. serialize_visit env j s = Some s' \<longrightarrow> emits field s s' \<Longrightarrow>
      emits field s1 s2 \<or> (\<exists>e x s3. generates (selection field field) (emit (SSwitch e x) s1) s3 \<and> s2 = emit SClose s3)"
    and "serialize_items env is s = Some s' \<Longrightarrow> \<forall>j\<in>set (leaves is). \<forall>s s'. serialize_visit env j s = Some s' \<longrightarrow> emits field s s' \<Longrightarrow>
      generates (instrs field field) s s'"
    and "serialize_cases env cs s = Some s' \<Longrightarrow> \<forall>j\<in>set (leaves_cases cs). \<forall>s s'. serialize_visit env j s = Some s' \<longrightarrow> emits field s s' \<Longrightarrow>
      generates (selection field field) s s'"
proof (induction env i s1 and env "is" s and env cs s arbitrary: s2 and s' and s' rule: serialize_visit_serialize_items_serialize_cases.induct)
  case (3 env b f e cs s)
  show ?case
  proof (cases e)
    case None
    then show ?thesis using 3(2) assms by (auto simp: emits_def)
  next
    case (Some x)
    then obtain tx s1 where st: "expr_text (ge_types env) x = Some tx" "serialize_cases env cs (emit (SSwitch x tx) s) = Some s1" "s2 = emit SClose s1"
      using 3(2) by (auto simp: bind_eq_Some_conv)
    then have "generates (selection field field) (emit (SSwitch x tx) s) s1" using 3(1)[OF Some st(1,2)] 3(3) by simp
    then show ?thesis using st(3) by blast
  qed
next
  case (7 env i "is" s)
  show ?case
  proof (cases "is_variable i")
    case True
    then obtain s1 where st: "serialize_visit env i (reset_errors s) = Some s1" "serialize_items env is s1 = Some s'"
      using 7(5) by (auto simp: bind_eq_Some_conv)
    have "leaves_item i = [i]" using True by (cases i) (simp_all add: is_variable_def)
    then have "emits field s s1" using 7(6) st(1) by (fastforce simp: emits_def)
    moreover have "generates (instrs field field) s1 s'" using 7(2)[OF True st] 7(6) by auto
    ultimately show ?thesis using generates_plain by blast
  next
    case False
    then obtain s1 s2 where st: "begin_serialize env i s = Some s1" "serialize_visit env i s1 = Some s2"
      "serialize_items env is (end_instruction (pg_code s) s2) = Some s'"
      using 7(5) by (auto simp: bind_eq_Some_conv)
    have rest: "generates (instrs field field) (end_instruction (pg_code s) s2) s'"
      using 7(4)[OF False st] 7(6) by auto
    have "emits field s1 s2 \<or> (\<exists>e x s3. generates (selection field field) (emit (SSwitch e x) s1) s3 \<and> s2 = emit SClose s3)"
      using 7(3)[OF False st(1,2)] 7(6) by auto
    then show ?thesis by (rule generates_item[OF begin_serialize_code[OF st(1)] _ rest])
  qed
next
  case (9 env es "is" d cs s)
  obtain s1 s3 where st: "emit_cases env es s = Some s1"
    "serialize_items env is ((if d then emit SDefault s1 else s1)\<lparr>pg_code := indent_code (pg_code (if d then emit SDefault s1 else s1))\<rparr>) = Some s3"
    "serialize_cases env cs ((emit SBreak s3)\<lparr>pg_code := unindent_code (pg_code (emit SBreak s3))\<rparr>) = Some s'"
    using 9(3) by (auto simp: bind_eq_Some_conv Let_def)
  show ?case
  proof (rule generates_case[OF emit_cases_cases[OF st(1)]])
    show "generates (instrs field field) ((if d then emit SDefault s1 else s1)\<lparr>pg_code := indent_code (pg_code (if d then emit SDefault s1 else s1))\<rparr>) s3"
      by (rule 9(1)[OF st(1) refl st(2)]) (use 9(4) in auto)
    show "generates (selection field field) ((emit SBreak s3)\<lparr>pg_code := unindent_code (pg_code (emit SBreak s3))\<rparr>) s'"
      by (rule 9(2)[OF st(1) refl st(2) refl st(3)]) (use 9(4) in auto)
  qed
qed (simp_all add: generates_def instrs_nil selection_nil)

end
