(* ===== verification/Gen_Leaf.thy ===== *)
theory Gen_Leaf
  imports Gen_Grammar
begin

text \<open>
  The code of a single item, and the uniqueness of labels.  \<open>parse_leaf\<close> and \<open>serialize_leaf\<close> are the
  statement sequences that the generators emit for an item other than a switch; \<open>ok f e\<close> stands for
  what is known of the length expression \<open>e\<close> of the member \<open>f\<close>.
\<close>

abbreviation check_parse :: "stmt list" where
  "check_parse \<equiv> [SIfNotDone ''parse_res'' parse_result, SReturnRes ''parse_res'']"

abbreviation check_serialize :: "stmt list" where
  "check_serialize \<equiv> [SIfNotDone ''serialize_res'' serialize_result, SReturnRes ''serialize_res'']"

inductive parse_prim :: "(expr \<Rightarrow> bool) \<Rightarrow> stmt list \<Rightarrow> bool" for ok where
  prim_none: "parse_prim ok []"
| prim_int: "parse_prim ok (SParseInt w sg bo # check_parse)"
| prim_copy: "ok e \<Longrightarrow> ty = ''var_bytes'' \<or> ty = ''var_string'' \<Longrightarrow> parse_prim ok (SSetLen ty e x # SCopyIn ty # check_parse)"
| prim_range: "ok e \<Longrightarrow> parse_prim ok (SSetLen ''var_stream_range'' e x # SRangeStart # SSkipRange # check_parse)"

inductive parse_leaf :: "(string \<Rightarrow> expr \<Rightarrow> bool) \<Rightarrow> (expr \<Rightarrow> bool) \<Rightarrow> stmt list \<Rightarrow> bool" for ok okt where
  leaf_none: "parse_leaf ok okt []"
| leaf_assign: "parse_leaf ok okt [SAssignField u f e x]"
| leaf_dest: "parse_prim (ok f) P \<Longrightarrow> parse_leaf ok okt (SDest u f # P)"
| leaf_temp: "parse_prim okt P \<Longrightarrow> parse_leaf ok okt (SDestTemp t # P)"
| leaf_store: "parse_prim okt P \<Longrightarrow> parse_leaf ok okt (SDestTemp t # P @ [SStoreTemp u f ty t])"

definition length_known :: "(string \<Rightarrow> expr \<Rightarrow> bool) \<Rightarrow> (expr \<Rightarrow> bool) \<Rightarrow> item \<Rightarrow> bool" where
  "length_known ok okt i \<longleftrightarrow>
     (case length_value_of i of
        Some (Some e) \<Rightarrow>
          if serialized_type i = it_type (base_of i) then ok (field_name (base_of i)) e else okt e
      | _ \<Rightarrow> True)"

lemma emitCheck_stmts [simp]:
  "stmts (pg_code (emitCheckParseResult s)) = stmts (pg_code s) @ check_parse"
  "pg_label (emitCheckParseResult s) = pg_label s"
  "stmts (pg_code (emitCheckSerializeResult s)) = stmts (pg_code s) @ check_serialize"
  "pg_label (emitCheckSerializeResult s) = pg_label s"
  by (simp_all add: emitCheckParseResult_def emitCheckSerializeResult_def parse_result_def)

lemma parse_type_prim:
  assumes "parse_type env i t s = Some s'" and "\<forall>e. length_value_of i = Some (Some e) \<longrightarrow> ok e"
  shows "emits (parse_prim ok) s s'"
proof -
  obtain a ob where a: "t = Some a" "ge_types env a = Some ob" using assms(1) by (auto simp: parse_type_def bind_eq_Some_conv)
  have "emits (parse_prim ok) s s'" if "parse_bytes env i (reset_errors s) = Some s'"
    using that assms(2)
    by (auto simp: parse_bytes_def emits_def bind_eq_Some_conv intro: parse_prim.intros split: option.splits if_splits)
  moreover have "emits (parse_prim ok) s s'" if "parse_string env i (reset_errors s) = Some s'"
    using that assms(2)
    by (auto simp: parse_string_def emits_def bind_eq_Some_conv intro: parse_prim.intros split: option.splits)
  moreover have "emits (parse_prim ok) s s'"
    if "byteOrderLabel env i = Some bo" "s' = emitCheckParseResult (emit (SParseInt w sg bo) (reset_errors s))" for bo w sg
    using that by (auto simp: emits_def intro: parse_prim.intros)
  moreover have "emits (parse_prim ok) s s'" if "stmts (pg_code s') = stmts (pg_code s)" "pg_label s' = pg_label s"
    using that by (auto simp: emits_def intro: parse_prim.intros)
  ultimately show ?thesis
    using assms(1) by (auto simp: parse_type_def a bind_eq_Some_conv Let_def split: type_kind.splits)
qed

lemma addTemp_simps [simp]: "pg_code (snd (addTemp ty s)) = pg_code s" "pg_label (snd (addTemp ty s)) = pg_label s"
  by (simp_all add: addTemp_def newTempVarName_def)

lemma parse_atomic_leaf:
  assumes "parse_atomic env b f s = Some s'" and "length_known ok okt (AtomicType b f)"
  shows "emits (parse_leaf ok okt) s s'"
proof -
  let ?i = "AtomicType b f"
  define s1 where "s1 = (if \<not> it_app_accessible b \<and> ge_input_pointers env then s\<lparr>pg_input_pointer := True\<rparr> else s)"
  have s1: "pg_code s1 = pg_code s" "pg_label s1 = pg_label s" by (simp_all add: s1_def)
  show ?thesis
  proof (cases "serialized_type ?i = it_type b")
    case True
    then obtain u s2 where st: "parse_type env ?i (serialized_type ?i) (emit (SDest u (field_name b)) s1) = Some s2"
      "s' = s2\<lparr>pg_input_pointer := False\<rparr>"
      using assms(1) by (auto simp: parse_atomic_def s1_def[symmetric] Let_def bind_eq_Some_conv)
    have "\<forall>e. length_value_of ?i = Some (Some e) \<longrightarrow> ok (field_name b) e"
      using assms(2) True by (auto simp: length_known_def)
    from parse_type_prim[OF st(1) this] show ?thesis
      using s1 st(2) by (auto simp: emits_def intro!: parse_leaf.intros)
  next
    case False
    then obtain s3 where s3: "parse_transformed env b f s1 = Some s3" "s' = s3\<lparr>pg_input_pointer := False\<rparr>"
      using assms(1) by (auto simp: parse_atomic_def s1_def[symmetric] Let_def bind_eq_Some_conv)
    obtain ty s2 where st: "parse_type env ?i (serialized_type ?i) (emit (SDestTemp (fst (addTemp ty s1))) (snd (addTemp ty s1))) = Some s2"
      "s3 = s2 \<or> s3 = log_error s2 \<or> (\<exists>u ty'. s3 = emit (SStoreTemp u (field_name b) ty' (fst (addTemp ty s1))) s2)"
      using s3(1) by (simp add: parse_transformed_def Let_def bind_eq_Some_conv case_prod_beta split: if_splits) blast+
    have "\<forall>e. length_value_of ?i = Some (Some e) \<longrightarrow> okt e"
      using assms(2) False by (auto simp: length_known_def)
    from parse_type_prim[OF st(1) this] show ?thesis
      using s1 st(2) s3(2) by (fastforce simp: emits_def intro: parse_leaf.intros)
  qed
qed

lemma leaves_leaf: "i \<in> set (leaves is) \<Longrightarrow> \<nexists>b f e cs. i = Switch b f e cs"
    and leaves_item_leaf: "i \<in> set (leaves_item j) \<Longrightarrow> \<nexists>b f e cs. i = Switch b f e cs"
    and leaves_cases_leaf: "i \<in> set (leaves_cases cs) \<Longrightarrow> \<nexists>b f e cs. i = Switch b f e cs"
  by (induction "is" and j and cs rule: leaves_leaves_item_leaves_cases.induct) auto

lemma parse_visit_leaf:
  assumes "parse_visit env i s = Some s'" and "length_known ok okt i" and "\<nexists>b f e cs. i = Switch b f e cs"
  shows "emits (parse_leaf ok okt) s s'"
  using assms parse_atomic_leaf
  by (cases i) (auto simp: parse_variable_def emits_def bind_eq_Some_conv intro: parse_leaf.intros split: option.splits)

lemma parse_items_grammar:
  assumes "parse_items env is s = Some s'" and "\<forall>i\<in>set (leaves is). length_known ok okt i"
  shows "generates (instrs (parse_leaf ok okt) (\<lambda>_. False)) s s'"
  by (rule parse_grammar(2)[OF _ assms(1)]) (use leaf_none assms(2) parse_visit_leaf leaves_leaf in blast)+

end
