(* ===== verification/Code_Gen.thy ===== *)
theory Code_Gen
  imports Serializer_Gen Kode_Printer Module
begin

text \<open>
  The code generator (\<^verbatim>\<open>generation/output/code_generator.cpp\<close>): it walks over the declarations of a module,
  makes a class for every unit, fills it with the members of the unit, runs the parser and the
  serializer generator for it, and prints the file.

  One \<^verbatim>\<open>ParserGenerator\<close> and one \<^verbatim>\<open>SerializerGenerator\<close> serve all units.  The pointers \<^verbatim>\<open>unit_cls_\<close> and
  \<^verbatim>\<open>function_\<close> into the file are positions in its lists; \<^verbatim>\<open>errors_\<close> is the error count of the visitor, which
  every \<^verbatim>\<open>processOne\<close> sets to zero.  \<^const>\<open>None\<close> means that the generator does not return: a type without a
  translation throws, a null pointer is dereferenced or an assertion fails.
\<close>

record options =
  opt_instantiation_only :: bool
  opt_input_pointers :: bool
  opt_store_parsing_only :: bool

text \<open>The module and its types.\<close>

record gen_module = module_node +
  gm_types :: type_store

definition gm_properties :: "gen_module \<Rightarrow> taddr \<Rightarrow> attribute list option" where
  "gm_properties gm t = (if t \<in> set (mo_units gm) then Some (mo_properties gm) else None)"

record codegen =
  cg_file :: kfile
  cg_unit_cls :: "nat option"
  cg_function :: "nat option"
  cg_parser :: pgen
  cg_serializer :: pgen
  cg_errors :: nat

definition CodeGenerator :: "string \<Rightarrow> string \<Rightarrow> codegen" where
  "CodeGenerator file_name name_space =
     (let f1 = setFilename file_name File;
          f2 = f1\<lparr>fl_header_code := addLine ''namespace dr = diffingo::runtime;'' (fl_header_code f1)\<rparr>
      in \<lparr>cg_file = file_setNameSpace name_space f2, cg_unit_cls = None, cg_function = None,
          cg_parser = ParserGenerator, cg_serializer = SerializerGenerator, cg_errors = 0\<rparr>)"

definition cg_reset :: "codegen \<Rightarrow> codegen" where
  "cg_reset s = s\<lparr>cg_errors := 0\<rparr>"

definition cg_log_error :: "codegen \<Rightarrow> codegen" where
  "cg_log_error s = s\<lparr>cg_errors := cg_errors s + 1\<rparr>"

section \<open>Members of the unit class\<close>

definition addUnitField :: "string \<Rightarrow> string \<Rightarrow> codegen \<Rightarrow> codegen option" where
  "addUnitField name ty s =
     do { v \<leftarrow> MemberVariable name ty False acc_Public;
          k \<leftarrow> cg_unit_cls s;
          Some (s\<lparr>cg_file := at_class k (addMemberVariable v) (cg_file s)\<rparr>) }"

definition addSingleUnitField :: "type_store \<Rightarrow> options \<Rightarrow> item \<Rightarrow> codegen \<Rightarrow> codegen option" where
  "addSingleUnitField ts opt i s =
     (let b = base_of i
      in if it_parsing_only b \<and> \<not> opt_store_parsing_only opt then Some s
         else do { ty \<leftarrow> type_text ts (it_type b);
                   addUnitField (field_name b)
                     (if is_field i \<and> \<not> it_app_accessible b \<and> opt_input_pointers opt
                      then ''dr::unit::var_stream_range'' else ty) s })"

fun gen_item :: "type_store \<Rightarrow> options \<Rightarrow> item \<Rightarrow> codegen \<Rightarrow> codegen option"
and gen_items :: "type_store \<Rightarrow> options \<Rightarrow> item list \<Rightarrow> codegen \<Rightarrow> codegen option"
and gen_cases :: "type_store \<Rightarrow> options \<Rightarrow> switch_case list \<Rightarrow> codegen \<Rightarrow> codegen option" where
  "gen_item ts opt (Switch b f e cs) s = gen_cases ts opt cs s"
| "gen_item ts opt (Property b p) s = Some s"
| "gen_item ts opt (ConstantField b f c) s = Some s"
| "gen_item ts opt (UnknownField b f i) s = Some s"
| "gen_item ts opt i s = addSingleUnitField ts opt i s"
| "gen_items ts opt [] s = Some s"
| "gen_items ts opt (i # is) s =
     do { s1 \<leftarrow> gen_item ts opt i (cg_reset s); gen_items ts opt is s1 }"
| "gen_cases ts opt [] s = Some s"
| "gen_cases ts opt (Case es is d # cs) s =
     do { s1 \<leftarrow> gen_items ts opt is (cg_reset s); gen_cases ts opt cs s1 }"

section \<open>Functions\<close>

definition at_function :: "nat \<Rightarrow> (kfunction \<Rightarrow> kfunction) \<Rightarrow> kfile \<Rightarrow> kfile" where
  "at_function k g f = f\<lparr>fl_functions := (fl_functions f)[k := g (fl_functions f ! k)]\<rparr>"

definition gen_function :: "linkage \<Rightarrow> function_node \<Rightarrow> codegen \<Rightarrow> codegen" where
  "gen_function l fn s =
     (if l = IMPORTED then s
      else let func = setBody (fn_body fn) (Function0\<lparr>kf_name := functionName (id_name (fn_id fn))\<rparr>);
               (k, f) = addFileFunction func (cg_file s)
           in cg_reset (s\<lparr>cg_file := f, cg_function := Some k\<rparr>))"

definition gen_result :: "type_store \<Rightarrow> taddr \<Rightarrow> codegen \<Rightarrow> codegen option" where
  "gen_result ts t s =
     do { k \<leftarrow> cg_function s;
          ty \<leftarrow> type_text ts (Some t);
          fn \<leftarrow> setReturnType ty (fl_functions (cg_file s) ! k);
          Some (s\<lparr>cg_file := at_function k (\<lambda>g. fn) (cg_file s)\<rparr>) }"

definition gen_parameter :: "type_store \<Rightarrow> parameter \<Rightarrow> codegen \<Rightarrow> codegen option" where
  "gen_parameter ts p s =
     (case cg_function s of
        None \<Rightarrow> Some s
      | Some k \<Rightarrow>
          do { ty \<leftarrow> type_text ts (Some (par_type p));
               i \<leftarrow> par_id p;
               let arg = ty @ '' '' @ functionParamName (id_name i);
               dflt \<leftarrow> (case par_default p of None \<Rightarrow> Some [] | Some e \<Rightarrow> expr_text ts e);
               Some (s\<lparr>cg_file := at_function k (addArgument arg dflt) (cg_file s)\<rparr>) })"

fun gen_parameters :: "type_store \<Rightarrow> parameter list \<Rightarrow> codegen \<Rightarrow> codegen option" where
  "gen_parameters ts [] s = Some s"
| "gen_parameters ts (p # ps) s = do { s1 \<leftarrow> gen_parameter ts p (cg_reset s); gen_parameters ts ps s1 }"

section \<open>Declarations\<close>

definition env_of :: "gen_module \<Rightarrow> options \<Rightarrow> taddr \<Rightarrow> gen_env" where
  "env_of gm opt t =
     \<lparr>ge_types = gm_types gm, ge_unit = t, ge_module = gm_properties gm, ge_input_pointers = opt_input_pointers opt\<rparr>"

definition gen_unit :: "gen_module \<Rightarrow> options \<Rightarrow> string \<Rightarrow> taddr \<Rightarrow> item list \<Rightarrow> codegen \<Rightarrow> codegen option" where
  "gen_unit gm opt name t is s =
     do { cls \<leftarrow> Class (unitName name) [];
          (k, f1) \<leftarrow> insertClass cls (cg_file s);
          let f2 = at_class k (addHeaderIncludes [''runtime/runtime.h'', ''stddef.h'', ''cstdint'']) f1;
          parser \<leftarrow> Class (unitParserName name) [];
          (kp, f3) \<leftarrow> insertClass parser f2;
          (pcode, parser', pg, pok) \<leftarrow> run_parser (env_of gm opt t) is (fl_classes f3 ! kp) (cg_parser s);
          let s1 = s\<lparr>cg_file := at_class kp (\<lambda>c. parser') f3, cg_unit_cls := Some k, cg_parser := pg\<rparr>;
          let s2 = (if pok then s1 else cg_log_error s1);
          serializer \<leftarrow> Class (unitSerializerName name) [];
          (ks, f4) \<leftarrow> insertClass serializer (cg_file s2);
          (scode, serializer', sg, sok) \<leftarrow> run_serializer (env_of gm opt t) is (fl_classes f4 ! ks) (cg_serializer s2);
          let s3 = s2\<lparr>cg_file := at_class ks (\<lambda>c. serializer') f4, cg_serializer := sg\<rparr>;
          Some (if sok then s3 else cg_log_error s3) }"

definition gen_enum :: "string \<Rightarrow> (ident \<times> int) list \<Rightarrow> codegen \<Rightarrow> codegen" where
  "gen_enum name ls s =
     s\<lparr>cg_file := addFileEnum (Enum_values (enumName name) (map (\<lambda>(l, v). (enumLabel (id_name l), True, v)) ls) True) (cg_file s)\<rparr>"

definition gen_type :: "gen_module \<Rightarrow> options \<Rightarrow> ident \<Rightarrow> linkage \<Rightarrow> taddr \<Rightarrow> codegen \<Rightarrow> codegen option" where
  "gen_type gm opt i l t s =
     (if l = IMPORTED then Some s
      else do { ob \<leftarrow> gm_types gm t;
                (case ty_kind ob of
                   TUnit ps is \<Rightarrow>
                     do { s1 \<leftarrow> gen_unit gm opt (id_name i) t is s;
                          s2 \<leftarrow> gen_parameters (gm_types gm) ps s1;
                          gen_items (gm_types gm) opt is s2 }
                 | TEnum ls \<Rightarrow> Some (gen_enum (id_name i) ls s)
                 | TFunction r ps \<Rightarrow>
                     do { s1 \<leftarrow> (case r of None \<Rightarrow> Some s | Some (rt, c) \<Rightarrow> gen_result (gm_types gm) rt (cg_reset s));
                          gen_parameters (gm_types gm) ps s1 }
                 | _ \<Rightarrow> Some s) })"

fun gen_compacted :: "gen_module \<Rightarrow> options \<Rightarrow> (ident \<times> taddr) list \<Rightarrow> codegen \<Rightarrow> codegen option" where
  "gen_compacted gm opt [] s = Some s"
| "gen_compacted gm opt ((i, t) # us) s =
     do { s1 \<leftarrow> gen_type gm opt i EXPORTED t (cg_reset s); gen_compacted gm opt us s1 }"

definition gen_declaration :: "gen_module \<Rightarrow> options \<Rightarrow> decl \<Rightarrow> codegen \<Rightarrow> codegen option" where
  "gen_declaration gm opt d s =
     (case d of
        DConstant i l e \<Rightarrow> Some s
      | DFunction l fn \<Rightarrow> Some (gen_function l fn s)
      | DTransform l tr \<Rightarrow> Some (if l = IMPORTED then s else cg_reset s)
      | DType i l t \<Rightarrow> gen_type gm opt i l t s
      | DInstantiation d \<Rightarrow> if ui_linkage d = IMPORTED then Some s else gen_compacted gm opt (ui_compacted d) s)"

definition is_unit_declaration :: "gen_module \<Rightarrow> decl \<Rightarrow> bool" where
  "is_unit_declaration gm d =
     (case d of
        DType i l t \<Rightarrow> is_unit (gm_types gm) t
      | _ \<Rightarrow> False)"

fun gen_declarations :: "gen_module \<Rightarrow> options \<Rightarrow> decl list \<Rightarrow> bool \<Rightarrow> codegen \<Rightarrow> (bool \<times> codegen) option" where
  "gen_declarations gm opt [] ok s = Some (ok, s)"
| "gen_declarations gm opt (d # ds) ok s =
     (if opt_instantiation_only opt \<and> is_unit_declaration gm d then gen_declarations gm opt ds ok s
      else do { s1 \<leftarrow> gen_declaration gm opt d (cg_reset s);
                gen_declarations gm opt ds (ok \<and> cg_errors s1 = 0) s1 })"

text \<open>The result of a run and the files it has written.\<close>

definition run_codegen :: "boost \<Rightarrow> gen_module \<Rightarrow> options \<Rightarrow> codegen \<Rightarrow> (bool \<times> (string \<times> string) list) option" where
  "run_codegen B gm opt s =
     do { (ok, s1) \<leftarrow> gen_declarations gm opt (mo_decls gm) True s;
          (if \<not> ok then Some (False, [])
           else do { h \<leftarrow> printHeader B Printer (cg_file s1);
                     i \<leftarrow> printImplementation B Printer (cg_file s1) True;
                     Some (True, [h, i]) }) }"

end
