(* ===== verification/Gen_Typed.thy ===== *)
theory Gen_Typed
  imports Gen_Leaf Code_Gen
begin

text \<open>
  Typing of generated code against the members that the code generator declares.

  The generated functions reach the members of a unit through an untyped pointer (\<^verbatim>\<open>parse_dest\<close> or
  \<^verbatim>\<open>serialize_src\<close>) that they cast back, so the C++ compiler does not see whether a member is read and
  written as what it was declared.  \<open>type_stmt\<close> is a checker for it: it follows the type of the object
  that the pointer points to, forgets it at every label, since the function may be entered there, and
  fails on an undeclared name, on a second declaration of a local, on a cast to another type and on a use of the
  pointer before it is set.  A pointer to a derived class may be cast to its base class; \<^verbatim>\<open>var_string\<close>
  is derived from \<^verbatim>\<open>var_bytes\<close>.

  \<open>type_expr\<close> checks the expressions inside the statements: members must exist, operands must be numbers or
  values of the same enumeration, both sides of an assignment must have the same type, and an enumerator must
  belong to a declared enumeration, which is a scoped one and does not convert to a number.  Blocks must be
  closed, and the labels of a switch must be constants of its type.
\<close>

definition runtime_type :: "string \<Rightarrow> string" where
  "runtime_type ty = ''dr::unit::'' @ ty"

definition int_type :: "int \<Rightarrow> bool \<Rightarrow> string" where
  "int_type w sg = (if sg then [] else ''u'') @ ''int'' @ dec_int w @ ''_t''"

definition derived_from :: "string \<Rightarrow> string \<Rightarrow> bool" where
  "derived_from ty base \<longleftrightarrow> ty = base \<or> ty = runtime_type ''var_string'' \<and> base = runtime_type ''var_bytes''"

text \<open>What the checker knows: the class of the unit and its members, the types of the module and the names of
  the enumerations that the code generator declares.\<close>

record checker =
  ck_unit :: string
  ck_members :: "(string \<times> string) list"
  ck_types :: type_store
  ck_enums :: "string list"

definition member_type :: "checker \<Rightarrow> string \<Rightarrow> string option" where
  "member_type cls f = map_of (ck_members cls) f"

definition unit_member :: "checker \<Rightarrow> string \<Rightarrow> string \<Rightarrow> string option" where
  "unit_member cls u f = (if u = ''UNIT('' @ ck_unit cls @ '')'' then member_type cls f else None)"

section \<open>Expressions\<close>

text \<open>Integral types convert into each other; every other type is only compatible with itself.\<close>

datatype value_type = Integral | Named string

definition integral_types :: "string list" where
  "integral_types =
     [''bool'', ''int8_t'', ''int16_t'', ''int32_t'', ''int64_t'', ''uint8_t'', ''uint16_t'', ''uint32_t'', ''uint64_t'']"

definition value_type_of :: "string \<Rightarrow> value_type" where
  "value_type_of ty = (if ty \<in> set integral_types then Integral else Named ty)"

definition scalar :: "checker \<Rightarrow> value_type \<Rightarrow> bool" where
  "scalar cls T = (case T of Integral \<Rightarrow> True | Named n \<Rightarrow> n \<in> set (ck_enums cls))"

definition castable :: "checker \<Rightarrow> string \<Rightarrow> string \<Rightarrow> bool" where
  "castable cls from to \<longleftrightarrow>
     derived_from from to \<or> scalar cls (value_type_of from) \<and> scalar cls (value_type_of to)"

definition type_const :: "checker \<Rightarrow> const \<Rightarrow> value_type option" where
  "type_const cls c =
     (case c of
        CInteger v w sg \<Rightarrow> if \<bar>v\<bar> < 2 ^ 63 then Some Integral else None
      | CBool v \<Rightarrow> Some Integral
      | CEnum label t \<Rightarrow>
          (case ck_types cls t of
             None \<Rightarrow> None
           | Some ob \<Rightarrow>
               (case ty_kind ob of
                  TEnum ls \<Rightarrow>
                    (case translate_type ob of
                       None \<Rightarrow> None
                     | Some n \<Rightarrow>
                         if n \<in> set (ck_enums cls) \<and> id_name label \<in> set (map (\<lambda>(l, v). enumLabel (id_name l)) ls)
                         then Some (Named n) else None)
                | _ \<Rightarrow> None))
      | _ \<Rightarrow> None)"

text \<open>A member of the unit itself.\<close>

definition type_self :: "checker \<Rightarrow> expr list \<Rightarrow> value_type option" where
  "type_self cls ops =
     (case ops of
        [EParserState kind i u t, EMemberAttribute a] \<Rightarrow>
          if kind = SELF \<and> type_text (ck_types cls) t = Some (ck_unit cls)
          then map_option value_type_of (member_type cls (id_name a)) else None
      | _ \<Rightarrow> None)"

definition is_lvalue :: "expr \<Rightarrow> bool" where
  "is_lvalue e =
     (case e of EOperator kind ops \<Rightarrow> kind = op_Attribute | EParserState kind i u t \<Rightarrow> kind = DOLLARDOLLAR | _ \<Rightarrow> False)"

definition is_constant :: "expr \<Rightarrow> bool" where
  "is_constant e = (case e of EConstant c \<Rightarrow> True | _ \<Rightarrow> False)"

definition type_operator :: "checker \<Rightarrow> op_kind \<Rightarrow> value_type option list \<Rightarrow> value_type option" where
  "type_operator cls kind Ts =
     (if kind \<in> {op_Plus, op_Minus, op_Less, op_Greater, op_LogicalAnd, op_LogicalOr}
      then (if Ts = [Some Integral, Some Integral] then Some Integral else None)
      else if kind = op_Not then (if Ts = [Some Integral] then Some Integral else None)
      else if kind = op_Equal then
        (case Ts of [Some T, Some T'] \<Rightarrow> if T = T' \<and> scalar cls T then Some Integral else None | _ \<Rightarrow> None)
      else None)"

definition type_cast :: "checker \<Rightarrow> value_type option \<Rightarrow> string option \<Rightarrow> value_type option" where
  "type_cast cls T ty =
     (case (T, ty) of
        (Some T, Some ty) \<Rightarrow>
          if scalar cls T \<and> scalar cls (value_type_of ty) then Some (value_type_of ty) else None
      | _ \<Rightarrow> None)"

definition same_type :: "value_type option \<Rightarrow> value_type option \<Rightarrow> value_type option" where
  "same_type T T' = (if T = T' then T else None)"

text \<open>\<open>g\<close> is the type of the object that \<^verbatim>\<open>dollar\<close> points to, if it is known.\<close>

fun type_expr :: "checker \<Rightarrow> string option \<Rightarrow> expr \<Rightarrow> value_type option"
and type_exprs :: "checker \<Rightarrow> string option \<Rightarrow> expr list \<Rightarrow> value_type option list" where
  "type_expr cls g (EConstant c) = type_const cls c"
| "type_expr cls g (EParserState kind i u t) =
     (if kind = DOLLARDOLLAR \<and> type_text (ck_types cls) t = g then map_option value_type_of g else None)"
| "type_expr cls g (EAssign dst src) =
     (if is_lvalue dst then same_type (type_expr cls g dst) (type_expr cls g src) else None)"
| "type_expr cls g (EConditional c t f) =
     (if type_expr cls g c = Some Integral
      then same_type (type_expr cls g t) (case f of None \<Rightarrow> Some Integral | Some x \<Rightarrow> type_expr cls g x)
      else None)"
| "type_expr cls g (EOperator kind ops) =
     (if kind = op_Attribute then type_self cls ops
      else if kind = op_AttributeAssign then
        (case ops of [a, b, c] \<Rightarrow> same_type (type_self cls [a, b]) (type_expr cls g c) | _ \<Rightarrow> None)
      else if kind = op_Cast then
        (case ops of [a, EType t] \<Rightarrow> type_cast cls (type_expr cls g a) (type_text (ck_types cls) (Some t)) | _ \<Rightarrow> None)
      else type_operator cls kind (type_exprs cls g ops))"
| "type_expr cls g e = None"
| "type_exprs cls g [] = []"
| "type_exprs cls g (e # es) = type_expr cls g e # type_exprs cls g es"

section \<open>Statements\<close>

datatype block = If_block | Switch_block value_type

record typing =
  tp_locals :: "(string \<times> string) list"
  tp_target :: "string option"
  tp_dollar :: "string option"
  tp_blocks :: "block list"

definition declared_as :: "typing \<Rightarrow> string \<Rightarrow> string \<Rightarrow> bool" where
  "declared_as \<Gamma> v ty \<longleftrightarrow> map_of (tp_locals \<Gamma>) v = Some ty"

definition points_to :: "typing \<Rightarrow> string \<Rightarrow> bool" where
  "points_to \<Gamma> ty = (case tp_target \<Gamma> of None \<Rightarrow> False | Some t \<Rightarrow> derived_from t ty)"

definition set_pointer :: "string \<Rightarrow> string option \<Rightarrow> typing \<Rightarrow> typing option" where
  "set_pointer p ty \<Gamma> = (if declared_as \<Gamma> p ''char*'' \<and> ty \<noteq> None then Some (\<Gamma>\<lparr>tp_target := ty\<rparr>) else None)"

definition require :: "bool \<Rightarrow> typing \<Rightarrow> typing option" where
  "require b \<Gamma> = (if b then Some \<Gamma> else None)"

definition forget :: "typing \<Rightarrow> typing" where
  "forget \<Gamma> = \<Gamma>\<lparr>tp_target := None, tp_dollar := None\<rparr>"

definition in_switch :: "typing \<Rightarrow> bool" where
  "in_switch \<Gamma> = (case tp_blocks \<Gamma> of Switch_block T # bs \<Rightarrow> True | _ \<Rightarrow> False)"

fun type_stmt :: "checker \<Rightarrow> stmt \<Rightarrow> typing \<Rightarrow> typing option" where
  "type_stmt cls (SDecl ty v) \<Gamma> =
     (if map_of (tp_locals \<Gamma>) v = None then Some (\<Gamma>\<lparr>tp_locals := (v, ty) # tp_locals \<Gamma>\<rparr>) else None)"
| "type_stmt cls (SLabel l) \<Gamma> = Some (forget \<Gamma>)"
| "type_stmt cls SIfInstruction \<Gamma> = Some (\<Gamma>\<lparr>tp_blocks := If_block # tp_blocks \<Gamma>\<rparr>)"
| "type_stmt cls (SSwitch e s) \<Gamma> =
     (case type_expr cls (tp_dollar \<Gamma>) e of
        None \<Rightarrow> None
      | Some T \<Rightarrow> if scalar cls T then Some (\<Gamma>\<lparr>tp_blocks := Switch_block T # tp_blocks \<Gamma>\<rparr>) else None)"
| "type_stmt cls (SCase e s) \<Gamma> =
     (case tp_blocks \<Gamma> of
        Switch_block T # bs \<Rightarrow> require (is_constant e \<and> type_expr cls None e = Some T) (forget \<Gamma>)
      | _ \<Rightarrow> None)"
| "type_stmt cls SDefault \<Gamma> = require (in_switch \<Gamma>) (forget \<Gamma>)"
| "type_stmt cls SBreak \<Gamma> = require (in_switch \<Gamma>) \<Gamma>"
| "type_stmt cls SClose \<Gamma> =
     (case tp_blocks \<Gamma> of [] \<Rightarrow> None | b # bs \<Rightarrow> Some (forget (\<Gamma>\<lparr>tp_blocks := bs\<rparr>)))"
| "type_stmt cls SUnitFromState \<Gamma> = require (declared_as \<Gamma> ''unit'' ''char*'') \<Gamma>"
| "type_stmt cls SUnitFromState_in \<Gamma> = require (declared_as \<Gamma> ''unit'' ''char*'') \<Gamma>"
| "type_stmt cls SStateUnit \<Gamma> = require (declared_as \<Gamma> ''unit'' ''char*'') \<Gamma>"
| "type_stmt cls (SDest u f) \<Gamma> = set_pointer ''parse_dest'' (unit_member cls u f) \<Gamma>"
| "type_stmt cls (SDestTemp t) \<Gamma> = set_pointer ''parse_dest'' (map_of (tp_locals \<Gamma>) t) \<Gamma>"
| "type_stmt cls (SStoreTemp u f ty t) \<Gamma> =
     (case map_of (tp_locals \<Gamma>) t of
        None \<Rightarrow> None
      | Some ty' \<Rightarrow> require (unit_member cls u f = Some ty \<and> castable cls ty' ty) \<Gamma>)"
| "type_stmt cls (SSetLen ty e s) \<Gamma> =
     require (points_to \<Gamma> (runtime_type ty) \<and> type_expr cls (tp_dollar \<Gamma>) e = Some Integral) \<Gamma>"
| "type_stmt cls (SCopyIn ty) \<Gamma> =
     require (points_to \<Gamma> (runtime_type ty) \<and> derived_from (runtime_type ty) (runtime_type ''var_bytes'') \<and>
       declared_as \<Gamma> ''parse_res'' parse_result) \<Gamma>"
| "type_stmt cls SRangeStart \<Gamma> = require (points_to \<Gamma> (runtime_type ''var_stream_range'')) \<Gamma>"
| "type_stmt cls SSkipRange \<Gamma> =
     require (points_to \<Gamma> (runtime_type ''var_stream_range'') \<and> declared_as \<Gamma> ''parse_res'' parse_result) \<Gamma>"
| "type_stmt cls (SParseInt w sg bo) \<Gamma> =
     require (points_to \<Gamma> (int_type w sg) \<and> declared_as \<Gamma> ''parse_res'' parse_result) \<Gamma>"
| "type_stmt cls (SIfNotDone v ty) \<Gamma> = require (declared_as \<Gamma> v ty) \<Gamma>"
| "type_stmt cls (SReturnRes v) \<Gamma> = require (map_of (tp_locals \<Gamma>) v \<noteq> None) \<Gamma>"
| "type_stmt cls (SAssignField u f e s) \<Gamma> =
     (case unit_member cls u f of
        None \<Rightarrow> None
      | Some ty \<Rightarrow> require (type_expr cls (tp_dollar \<Gamma>) e = Some (value_type_of ty)) \<Gamma>)"
| "type_stmt cls (SSrc u f) \<Gamma> = set_pointer ''serialize_src'' (unit_member cls u f) \<Gamma>"
| "type_stmt cls (SSrcTemp t) \<Gamma> = set_pointer ''serialize_src'' (map_of (tp_locals \<Gamma>) t) \<Gamma>"
| "type_stmt cls (SLoadTemp t ty u f) \<Gamma> =
     (case unit_member cls u f of
        None \<Rightarrow> None
      | Some ty' \<Rightarrow> require (declared_as \<Gamma> t ty \<and> castable cls ty' ty) \<Gamma>)"
| "type_stmt cls (SUpdateLen e s) \<Gamma> =
     require (points_to \<Gamma> (runtime_type ''var_bytes'') \<and> is_lvalue e \<and> type_expr cls (tp_dollar \<Gamma>) e = Some Integral) \<Gamma>"
| "type_stmt cls (SCopyOut ty m) \<Gamma> =
     require (points_to \<Gamma> (runtime_type ty) \<and> declared_as \<Gamma> ''serialize_res'' serialize_result \<and>
       (if m = ''start_'' then ty = ''var_stream_range''
        else m = ''data_'' \<and> derived_from (runtime_type ty) (runtime_type ''var_bytes''))) \<Gamma>"
| "type_stmt cls (SSerializeInt w sg bo) \<Gamma> =
     require (points_to \<Gamma> (int_type w sg) \<and> declared_as \<Gamma> ''serialize_res'' serialize_result) \<Gamma>"
| "type_stmt cls (SDollar u f) \<Gamma> =
     (if declared_as \<Gamma> ''dollar'' ''char*'' \<and> unit_member cls u f \<noteq> None
      then Some (\<Gamma>\<lparr>tp_dollar := unit_member cls u f\<rparr>) else None)"
| "type_stmt cls (SEval e s) \<Gamma> = require (type_expr cls (tp_dollar \<Gamma>) e \<noteq> None) \<Gamma>"
| "type_stmt cls st \<Gamma> = Some \<Gamma>"

fun type_stmts :: "checker \<Rightarrow> stmt list \<Rightarrow> typing \<Rightarrow> typing option" where
  "type_stmts cls [] \<Gamma> = Some \<Gamma>"
| "type_stmts cls (st # sts) \<Gamma> = do { \<Gamma>' \<leftarrow> type_stmt cls st \<Gamma>; type_stmts cls sts \<Gamma>' }"

abbreviation tstate :: "(string \<times> string) list \<Rightarrow> string option \<Rightarrow> string option \<Rightarrow> block list \<Rightarrow> typing" where
  "tstate L d g sw \<equiv> \<lparr>tp_locals = L, tp_target = d, tp_dollar = g, tp_blocks = sw\<rparr>"

text \<open>A function body is checked with its arguments as the locals, and closes all its blocks.\<close>

definition well_typed :: "checker \<Rightarrow> (string \<times> string) list \<Rightarrow> stmt list \<Rightarrow> bool" where
  "well_typed cls args sts \<longleftrightarrow>
     (case type_stmts cls sts (tstate args None None []) of None \<Rightarrow> False | Some \<Gamma> \<Rightarrow> tp_blocks \<Gamma> = [])"

text \<open>Items whose code is typed.  A member is declared under the name that the generated code uses and is stored; a
  field that is kept as a range of the input is a byte string that is not transformed.\<close>

definition range_field :: "options \<Rightarrow> item \<Rightarrow> bool" where
  "range_field opt i \<longleftrightarrow> is_field i \<and> \<not> it_app_accessible (base_of i) \<and> opt_input_pointers opt"

definition is_bytes :: "type_store \<Rightarrow> taddr option \<Rightarrow> bool" where
  "is_bytes ts t = (case t of None \<Rightarrow> False | Some a \<Rightarrow> (case ts a of None \<Rightarrow> False | Some ob \<Rightarrow> ty_kind ob = TBytes))"

definition supported_item :: "type_store \<Rightarrow> options \<Rightarrow> item \<Rightarrow> bool" where
  "supported_item ts opt i \<longleftrightarrow>
     makeIdentifier (field_name (base_of i)) = Some (field_name (base_of i)) \<and>
     (it_parsing_only (base_of i) \<longrightarrow> opt_store_parsing_only opt) \<and>
     (range_field opt i \<longrightarrow> serialized_type i = it_type (base_of i) \<and> is_bytes ts (it_type (base_of i)))"

definition stored_type :: "type_store \<Rightarrow> options \<Rightarrow> item \<Rightarrow> string option" where
  "stored_type ts opt i =
     (if range_field opt i then Some (runtime_type ''var_stream_range'') else type_text ts (it_type (base_of i)))"

definition has_member :: "item \<Rightarrow> bool" where
  "has_member i = (case i of AtomicType b f \<Rightarrow> True | Variable b d \<Rightarrow> True | _ \<Rightarrow> False)"

text \<open>The expressions of the specification are typed: lengths and counts are numbers, a variable is computed by an
  expression of its type, and the cases of a switch are constants of its type.\<close>

definition typed_leaf :: "checker \<Rightarrow> item \<Rightarrow> bool" where
  "typed_leaf cls i =
     (case i of
        AtomicType b f \<Rightarrow>
          (case length_value_of i of Some (Some e) \<Rightarrow> type_expr cls None e = Some Integral | _ \<Rightarrow> True) \<and>
          (case (type_text (ck_types cls) (serialized_type i), type_text (ck_types cls) (it_type b)) of
             (Some sty, Some ty) \<Rightarrow>
               serialized_type i \<noteq> it_type b \<longrightarrow> attrs_has (it_attributes b) ''transform_to'' \<longrightarrow>
               castable cls sty ty \<and> castable cls ty sty
           | _ \<Rightarrow> True)
      | Variable b d \<Rightarrow>
          (case type_text (ck_types cls) (it_type b) of
             None \<Rightarrow> True
           | Some ty \<Rightarrow>
               (case (case attrs_lookup (it_attributes b) ''parse'' of Some a \<Rightarrow> attr_value a | None \<Rightarrow> d) of
                  None \<Rightarrow> True
                | Some e \<Rightarrow> type_expr cls None e = Some (value_type_of ty)) \<and>
               (case attrs_lookup (it_attributes b) ''serialize'' of
                  None \<Rightarrow> True
                | Some a \<Rightarrow> (case attr_value a of None \<Rightarrow> True | Some e \<Rightarrow> type_expr cls (Some ty) e \<noteq> None)))
      | _ \<Rightarrow> True)"

fun typed_item :: "checker \<Rightarrow> item \<Rightarrow> bool"
and typed_items :: "checker \<Rightarrow> item list \<Rightarrow> bool"
and typed_cases :: "checker \<Rightarrow> value_type \<Rightarrow> switch_case list \<Rightarrow> bool" where
  "typed_item cls (Switch b f e cs) =
     (case e of
        None \<Rightarrow> True
      | Some x \<Rightarrow> (case type_expr cls None x of None \<Rightarrow> False | Some T \<Rightarrow> scalar cls T \<and> typed_cases cls T cs))"
| "typed_item cls i = typed_leaf cls i"
| "typed_items cls [] = True"
| "typed_items cls (i # is) = (typed_item cls i \<and> typed_items cls is)"
| "typed_cases cls T [] = True"
| "typed_cases cls T (Case es is d # cs) =
     (list_all (\<lambda>e. is_constant e \<and> type_expr cls None e = Some T) es \<and> typed_items cls is \<and> typed_cases cls T cs)"

text \<open>An expression without \<^verbatim>\<open>dollar\<close> has its type whatever \<^verbatim>\<open>dollar\<close> points to.\<close>

lemma type_operator_defined: "type_operator cls kind Ts = Some T \<Longrightarrow> \<forall>x\<in>set Ts. x \<noteq> None"
  by (auto simp: type_operator_def split: if_splits list.splits option.splits)

lemma same_type_Some [simp]: "same_type T T' = Some U \<longleftrightarrow> T = Some U \<and> T' = Some U"
  by (auto simp: same_type_def)

lemma type_expr_dollar':
  "g0 = None \<Longrightarrow> type_expr cls g0 e = Some T \<Longrightarrow> type_expr cls g e = Some T"
  "g0 = None \<Longrightarrow> \<forall>x\<in>set (type_exprs cls g0 es). x \<noteq> None \<Longrightarrow> type_exprs cls g es = type_exprs cls g0 es"
proof (induction cls g0 e and cls g0 es arbitrary: T rule: type_expr_type_exprs.induct)
  case (3 cls g0 dst src)
  then show ?case by (auto split: if_splits)
next
  case (4 cls g0 c t f)
  then show ?case by (cases f) (auto split: if_splits)
next
  case (5 cls g0 kind ops)
  consider "kind = op_Attribute" | "kind = op_AttributeAssign" | "kind = op_Cast"
    | "kind \<notin> {op_Attribute, op_AttributeAssign, op_Cast}" by blast
  then show ?case
  proof cases
    case 2
    then obtain a b c where "ops = [a, b, c]" "type_self cls [a, b] = Some T" "type_expr cls g0 c = Some T"
      using 5(5) by (auto split: list.splits if_splits)
    then show ?thesis using 2 5(1,4) by simp
  next
    case 3
    then obtain a t T' where "ops = [a, EType t]" "type_expr cls g0 a = Some T'"
      using 5(5) by (auto simp: type_cast_def split: list.splits expr.splits option.splits)
    then show ?thesis using 3 5(2,4,5) by simp
  next
    case 4
    then show ?thesis using 5(3-5) type_operator_defined[of cls kind "type_exprs cls g0 ops" T] by simp
  qed (use 5(5) in simp)
qed (auto split: if_splits)

lemma type_expr_dollar: "type_expr cls None e = Some T \<Longrightarrow> type_expr cls g e = Some T"
  by (rule type_expr_dollar'(1)) simp_all

section \<open>Typed pieces of code\<close>

definition typed :: "checker \<Rightarrow> block list \<Rightarrow> (string \<times> string) list \<Rightarrow> stmt list \<Rightarrow> bool" where
  "typed cls sw L B \<longleftrightarrow> (\<forall>d g. \<exists>d' g'. type_stmts cls B (tstate L d g sw) = Some (tstate L d' g' sw))"

definition scope :: "(string \<times> string) list \<Rightarrow> (string \<times> string) list \<Rightarrow> bool" where
  "scope L vs \<longleftrightarrow> (\<forall>(v, ty)\<in>set vs. map_of L v = Some ty)"

definition parse_locals :: "(string \<times> string) list" where
  "parse_locals = [(''unit'', ''char*''), (''parse_res'', parse_result), (''parse_dest'', ''char*'')]"

definition serialize_locals :: "(string \<times> string) list" where
  "serialize_locals =
     [(''dollar'', ''char*''), (''serialize_res'', serialize_result), (''serialize_src'', ''char*''), (''unit'', ''char*'')]"

definition temp_name :: "nat \<Rightarrow> string" where
  "temp_name k = ''tmp'' @ dec_nat k"

definition temps_named :: "pgen \<Rightarrow> bool" where
  "temps_named s \<longleftrightarrow> map fst (pg_temps s) = map temp_name [1..<Suc (pg_temp s)]"

definition gen_inv :: "pgen \<Rightarrow> bool" where
  "gen_inv s \<longleftrightarrow> \<not> pg_input_pointer s \<and> temps_named s"

text \<open>From \<open>s\<close> to \<open>s'\<close> the generator has emitted code that is typed once the temporaries known in \<open>s'\<close> are declared.\<close>

definition grows :: "checker \<Rightarrow> block list \<Rightarrow> (string \<times> string) list \<Rightarrow> pgen \<Rightarrow> pgen \<Rightarrow> bool" where
  "grows cls sw vs s s' \<longleftrightarrow> (gen_inv s \<longrightarrow> gen_inv s' \<and>
     (\<exists>B ts. stmts (pg_code s') = stmts (pg_code s) @ B \<and> pg_temps s' = pg_temps s @ ts \<and>
        (\<forall>L. scope L (vs @ pg_temps s') \<longrightarrow> typed cls sw L B)))"

lemma type_stmts_append:
  "type_stmts cls (A @ B) \<Gamma> = do { \<Gamma>' \<leftarrow> type_stmts cls A \<Gamma>; type_stmts cls B \<Gamma>' }"
proof (induction A arbitrary: \<Gamma>)
  case (Cons st A)
  then show ?case by (cases "type_stmt cls st \<Gamma>") simp_all
qed simp

lemma typed_nil [simp]: "typed cls sw L []"
  by (simp add: typed_def)

lemma typed_append: "typed cls sw L A \<Longrightarrow> typed cls sw L B \<Longrightarrow> typed cls sw L (A @ B)"
  unfolding typed_def type_stmts_append by (metis bind.bind_lunit)

lemma typed_Cons: "typed cls sw L [st] \<Longrightarrow> typed cls sw L B \<Longrightarrow> typed cls sw L (st # B)"
  using typed_append[of cls sw L "[st]" B] by simp

lemma scope_simps [simp]:
  "scope L []" "scope L ((v, ty) # vs) \<longleftrightarrow> map_of L v = Some ty \<and> scope L vs"
  "scope L (us @ vs) \<longleftrightarrow> scope L us \<and> scope L vs"
  by (auto simp: scope_def)

lemma grows_same [simp]: "grows cls sw vs s s"
  by (simp add: grows_def)

lemma grows_refl: "pg_code s' = pg_code s \<Longrightarrow> pg_temps s' = pg_temps s \<Longrightarrow> pg_temp s' = pg_temp s \<Longrightarrow>
    \<not> pg_input_pointer s' \<Longrightarrow> grows cls sw vs s s'"
  by (auto simp: grows_def gen_inv_def temps_named_def)

lemma grows_trans:
  assumes "grows cls sw vs s1 s2" and "grows cls sw vs s2 s3"
  shows "grows cls sw vs s1 s3"
proof (cases "gen_inv s1")
  case True
  then obtain A ts where A: "gen_inv s2" "stmts (pg_code s2) = stmts (pg_code s1) @ A" "pg_temps s2 = pg_temps s1 @ ts"
    "\<forall>L. scope L (vs @ pg_temps s2) \<longrightarrow> typed cls sw L A"
    using assms(1) unfolding grows_def by blast
  then obtain B us where "gen_inv s3" "stmts (pg_code s3) = stmts (pg_code s2) @ B" "pg_temps s3 = pg_temps s2 @ us"
    "\<forall>L. scope L (vs @ pg_temps s3) \<longrightarrow> typed cls sw L B"
    using assms(2) unfolding grows_def by blast
  then show ?thesis using A typed_append[of cls sw _ A B] unfolding grows_def by simp
qed (simp add: grows_def)

lemma grows_emit:
  assumes "\<forall>L. scope L (vs @ pg_temps s) \<longrightarrow> typed cls sw L [st]"
  shows "grows cls sw vs s (emit st s)"
  using assms by (auto simp: grows_def gen_inv_def temps_named_def emit_def)

lemma gen_inv_simps [simp]:
  "gen_inv (emit st s) = gen_inv s" "gen_inv (reset_errors s) = gen_inv s" "gen_inv (log_error s) = gen_inv s"
  "gen_inv (emit_newline s) = gen_inv s" "gen_inv (s\<lparr>pg_code := c\<rparr>) = gen_inv s" "gen_inv (s\<lparr>pg_label := k\<rparr>) = gen_inv s"
  by (simp_all add: gen_inv_def temps_named_def emit_def reset_errors_def log_error_def emit_newline_def)

lemma emit_temps [simp]:
  "pg_temps (emit st s) = pg_temps s" "pg_temps (reset_errors s) = pg_temps s" "pg_temps (log_error s) = pg_temps s"
  "pg_temps (emit_newline s) = pg_temps s" "pg_temp (emit st s) = pg_temp s" "pg_temp (reset_errors s) = pg_temp s"
  "pg_temp (log_error s) = pg_temp s" "pg_input_pointer (log_error s) = pg_input_pointer s"
  by (simp_all add: emit_def reset_errors_def log_error_def emit_newline_def)

lemma addTemp_typed:
  "pg_temps (snd (addTemp ty s)) = pg_temps s @ [(fst (addTemp ty s), ty)]"
  "pg_input_pointer (snd (addTemp ty s)) = pg_input_pointer s"
  "temps_named s \<Longrightarrow> temps_named (snd (addTemp ty s))"
  by (simp_all add: addTemp_def newTempVarName_def temp_name_def temps_named_def)

lemmas typing_defs = require_def set_pointer_def forget_def declared_as_def points_to_def unit_member_def

section \<open>The code of the parser generator\<close>

text \<open>What typing needs of the class: the items the generated code refers to are members with the type they
  are stored in.\<close>

definition declares :: "checker \<Rightarrow> gen_env \<Rightarrow> options \<Rightarrow> item \<Rightarrow> bool" where
  "declares cls env opt i \<longleftrightarrow>
     supported_item (ge_types env) opt i \<and>
     (has_member i \<longrightarrow> type_text (ge_types env) (it_type (base_of i)) \<noteq> None \<and>
        member_type cls (field_name (base_of i)) = stored_type (ge_types env) opt i)"

definition env_class :: "checker \<Rightarrow> gen_env \<Rightarrow> options \<Rightarrow> bool" where
  "env_class cls env opt \<longleftrightarrow>
     exprCurrentUnit env = Some (''UNIT('' @ ck_unit cls @ '')'') \<and> ge_input_pointers env = opt_input_pointers opt \<and>
     ck_types cls = ge_types env"

lemma type_text_kind:
  assumes "type_text ts (Some a) = Some ty" and "ts a = Some ob"
  shows "ty_kind ob = TBytes \<Longrightarrow> ty = runtime_type ''var_bytes''"
    and "ty_kind ob = TString \<Longrightarrow> ty = runtime_type ''var_string''"
    and "ty_kind ob = TInteger w sg \<Longrightarrow> ty = int_type w sg"
  using assms
  by (auto simp: type_text_def translate_type_def visit_type_def runtime_type_def int_type_def split: if_splits)

abbreviation at_target :: "(string \<times> string) list \<Rightarrow> string \<Rightarrow> string option \<Rightarrow> block list \<Rightarrow> typing" where
  "at_target L ty \<equiv> tstate L (Some ty)"

definition keeps :: "checker \<Rightarrow> block list \<Rightarrow> (string \<times> string) list \<Rightarrow> string \<Rightarrow> pgen \<Rightarrow> pgen \<Rightarrow> bool" where
  "keeps cls sw vs ty s s' \<longleftrightarrow>
     pg_temps s' = pg_temps s \<and> pg_temp s' = pg_temp s \<and>
     (\<exists>B. stmts (pg_code s') = stmts (pg_code s) @ B \<and>
        (\<forall>L g. scope L vs \<longrightarrow> type_stmts cls B (at_target L ty g sw) = Some (at_target L ty g sw)))"

lemma emitCheck_temps [simp]:
  "pg_temps (emitCheckParseResult s) = pg_temps s" "pg_temp (emitCheckParseResult s) = pg_temp s"
  "pg_temps (emitCheckSerializeResult s) = pg_temps s" "pg_temp (emitCheckSerializeResult s) = pg_temp s"
  by (simp_all add: emitCheckParseResult_def emitCheckSerializeResult_def)

lemma keeps_code:
  assumes "stmts (pg_code s') = stmts (pg_code s) @ B" and "pg_temps s' = pg_temps s" and "pg_temp s' = pg_temp s"
    and "\<And>L g. scope L vs \<Longrightarrow> type_stmts cls B (at_target L ty g sw) = Some (at_target L ty g sw)"
  shows "keeps cls sw vs ty s s'"
  using assms by (auto simp: keeps_def)

lemma derived_refl [simp]: "derived_from ty ty"
  by (simp add: derived_from_def)

lemma derived_string [simp]: "derived_from (runtime_type ''var_string'') (runtime_type ''var_bytes'')"
  by (simp add: derived_from_def)

lemma parse_type_keeps:
  assumes pt: "parse_type env i t s = Some s'" and ty: "type_text (ge_types env) t = Some ty"
    and range: "pg_input_pointer s \<Longrightarrow> is_bytes (ge_types env) t"
    and T: "T = (if pg_input_pointer s then runtime_type ''var_stream_range'' else ty)"
    and len: "\<And>e. length_value_of i = Some (Some e) \<Longrightarrow> type_expr cls None e = Some Integral"
  shows "keeps cls sw parse_locals T s s'"
proof -
  note len' = type_expr_dollar[OF len]
  obtain a ob where a: "t = Some a" "ge_types env a = Some ob" using pt by (auto simp: parse_type_def bind_eq_Some_conv)
  note kinds = type_text_kind[OF ty[unfolded a(1)] a(2)]
  have same: "keeps cls sw parse_locals T s s'" if "s' = reset_errors s \<or> s' = log_error (reset_errors s)"
    using that by (auto simp: keeps_def)
  have bytes: "keeps cls sw parse_locals T s s'" if "parse_bytes env i (reset_errors s) = Some s'" "ty_kind ob = TBytes"
    using that(1) kinds(1)[OF that(2)] T
    by (cases "pg_input_pointer s")
      (auto simp: parse_bytes_def bind_eq_Some_conv typing_defs parse_locals_def keeps_def len' split: option.splits)
  have str: "keeps cls sw parse_locals T s s'" if "parse_string env i (reset_errors s) = Some s'" "ty_kind ob = TString"
    using that(1) kinds(2)[OF that(2)] range that(2) a T
    by (auto simp: parse_string_def bind_eq_Some_conv typing_defs parse_locals_def keeps_def is_bytes_def len' split: option.splits)
  have int: "keeps cls sw parse_locals T s s'"
    if "ty_kind ob = TInteger w sg" "s' = emitCheckParseResult (emit (SParseInt w sg bo) (reset_errors s))" for bo w sg
    using kinds(3)[OF that(1)] range that a T by (auto simp: typing_defs parse_locals_def keeps_def is_bytes_def)
  show ?thesis
    using pt same bytes str int
    by (cases "ty_kind ob") (auto simp: parse_type_def a bind_eq_Some_conv Let_def)
qed

lemma target_grows:
  assumes keeps: "keeps cls sw vs ty (emit st s1) s2" and code: "pg_code s1 = pg_code s" and temps: "pg_temps s1 = pg_temps s @ ts"
    and names: "gen_inv s \<Longrightarrow> temps_named s1"
    and st: "\<And>L d g. scope L (vs @ pg_temps s1) \<Longrightarrow> type_stmt cls st (tstate L d g sw) = Some (at_target L ty g sw)"
  shows "grows cls sw vs s (s2\<lparr>pg_input_pointer := False\<rparr>)"
proof -
  obtain B where B: "stmts (pg_code s2) = stmts (pg_code s) @ st # B" "pg_temps s2 = pg_temps s @ ts" "pg_temp s2 = pg_temp s1"
    "\<And>L g. scope L vs \<Longrightarrow> type_stmts cls B (at_target L ty g sw) = Some (at_target L ty g sw)"
    using keeps code temps by (auto simp: keeps_def)
  have "typed cls sw L (st # B)" if "scope L (vs @ pg_temps s @ ts)" for L
    using st B(4) that temps by (simp add: typed_def)
  then show ?thesis using B names temps by (auto simp: grows_def gen_inv_def temps_named_def)
qed

lemma emit_input_pointer [simp]:
  "(emit st s)\<lparr>pg_input_pointer := x\<rparr> = emit st (s\<lparr>pg_input_pointer := x\<rparr>)"
  "(log_error s)\<lparr>pg_input_pointer := x\<rparr> = log_error (s\<lparr>pg_input_pointer := x\<rparr>)"
  by (simp_all add: emit_def log_error_def)

lemma grows_log: "grows cls sw vs s s' \<Longrightarrow> grows cls sw vs s (log_error s')"
  by (simp add: grows_def)

lemma declares_atomic:
  assumes "declares cls env opt (AtomicType b f)" and "env_class cls env opt"
  obtains ty where "type_text (ge_types env) (it_type b) = Some ty"
    and "member_type cls (field_name b) =
      Some (if \<not> it_app_accessible b \<and> ge_input_pointers env then runtime_type ''var_stream_range'' else ty)"
    and "\<not> it_app_accessible b \<and> ge_input_pointers env \<Longrightarrow>
      serialized_type (AtomicType b f) = it_type b \<and> is_bytes (ge_types env) (it_type b)"
  using assms
  by (auto simp: declares_def env_class_def supported_item_def has_member_def stored_type_def range_field_def is_field_def
      split: if_splits)

lemma typed_leaf_length:
  "typed_leaf cls (AtomicType b f) \<Longrightarrow> length_value_of (AtomicType b f) = Some (Some e) \<Longrightarrow> type_expr cls None e = Some Integral"
  by (auto simp: typed_leaf_def)

lemma typed_leaf_cast:
  assumes "typed_leaf cls (AtomicType b f)" and "attrs_has (it_attributes b) ''transform_to''"
    and "serialized_type (AtomicType b f) \<noteq> it_type b"
    and "type_text (ck_types cls) (serialized_type (AtomicType b f)) = Some sty" and "type_text (ck_types cls) (it_type b) = Some ty"
  shows "castable cls sty ty" and "castable cls ty sty"
  using assms by (simp_all add: typed_leaf_def)

lemma parse_atomic_grows:
  assumes pa: "parse_atomic env b f s = Some s'" and decl: "declares cls env opt (AtomicType b f)"
    and env: "env_class cls env opt"
    and leaf: "typed_leaf cls (AtomicType b f)"
  shows "grows cls sw parse_locals s s'"
proof (cases "gen_inv s")
  case True
  note len = typed_leaf_length[OF leaf]
  let ?i = "AtomicType b f" and ?r = "\<not> it_app_accessible b \<and> ge_input_pointers env"
  define s1 where "s1 = (if ?r then s\<lparr>pg_input_pointer := True\<rparr> else s)"
  have s1: "pg_code s1 = pg_code s" "pg_temps s1 = pg_temps s" "temps_named s1" "pg_input_pointer s1 \<longleftrightarrow> ?r"
    using True by (auto simp: s1_def gen_inv_def temps_named_def)
  have u: "exprCurrentUnit env = Some (''UNIT('' @ ck_unit cls @ '')'')" using env by (simp add: env_class_def)
  obtain ty where ty: "type_text (ge_types env) (it_type b) = Some ty"
    "member_type cls (field_name b) = Some (if ?r then runtime_type ''var_stream_range'' else ty)"
    "?r \<Longrightarrow> serialized_type ?i = it_type b \<and> is_bytes (ge_types env) (it_type b)"
    using declares_atomic[OF decl env] by blast
  show ?thesis
  proof (cases "serialized_type ?i = it_type b")
    case same: True
    let ?st = "SDest (''UNIT('' @ ck_unit cls @ '')'') (field_name b)"
    obtain s2 where st: "parse_type env ?i (it_type b) (emit ?st s1) = Some s2" "s' = s2\<lparr>pg_input_pointer := False\<rparr>"
      using pa same by (auto simp: parse_atomic_def s1_def[symmetric] Let_def bind_eq_Some_conv u)
    have "keeps cls sw parse_locals (if ?r then runtime_type ''var_stream_range'' else ty) (emit ?st s1) s2"
      by (rule parse_type_keeps[OF st(1) ty(1)]) (use s1 ty(3) len in auto)
    from target_grows[OF this s1(1), of "[]"] show ?thesis
      using s1 st(2) ty(2) by (auto simp: typing_defs parse_locals_def)
  next
    case False
    have nr: "\<not> ?r" using False ty(3) by blast
    obtain s3 where s3: "parse_transformed env b f s1 = Some s3" "s' = s3\<lparr>pg_input_pointer := False\<rparr>"
      using pa False by (auto simp: parse_atomic_def s1_def[symmetric] Let_def bind_eq_Some_conv)
    obtain sty s2 where st: "type_text (ge_types env) (serialized_type ?i) = Some sty"
      "parse_type env ?i (serialized_type ?i) (emit (SDestTemp (fst (addTemp sty s1))) (snd (addTemp sty s1))) = Some s2"
      "s3 = s2 \<or> s3 = log_error s2 \<or> attrs_has (it_attributes b) ''transform_to'' \<and>
       s3 = emit (SStoreTemp (''UNIT('' @ ck_unit cls @ '')'') (field_name b) ty (fst (addTemp sty s1))) s2"
      using s3(1) u ty(1) by (auto simp: parse_transformed_def Let_def bind_eq_Some_conv case_prod_beta split: if_splits)
    have "keeps cls sw parse_locals sty (emit (SDestTemp (fst (addTemp sty s1))) (snd (addTemp sty s1))) s2"
      by (rule parse_type_keeps[OF st(2,1)]) (use s1 nr len in \<open>auto simp: addTemp_typed\<close>)
    note k = this
    have "grows cls sw parse_locals s (s2\<lparr>pg_input_pointer := False\<rparr>)"
      by (rule target_grows[OF k, where ts = "[(fst (addTemp sty s1), sty)]"])
        (use s1 in \<open>auto simp: addTemp_typed typing_defs parse_locals_def\<close>)
    note g = this
    have "pg_temps s2 = pg_temps s @ [(fst (addTemp sty s1), sty)]" using k s1 by (simp add: keeps_def addTemp_typed)
    then have "grows cls sw parse_locals (s2\<lparr>pg_input_pointer := False\<rparr>)
        (emit (SStoreTemp (''UNIT('' @ ck_unit cls @ '')'') (field_name b) ty (fst (addTemp sty s1))) (s2\<lparr>pg_input_pointer := False\<rparr>))"
      if "attrs_has (it_attributes b) ''transform_to''"
      using ty(2) nr typed_leaf_cast[OF leaf that False] st(1) ty(1) env
      by (intro grows_emit) (auto simp: typed_def typing_defs env_class_def)
    from grows_trans[OF g this] show ?thesis using st(3) s3(2) g grows_log by auto
  qed
qed (simp add: grows_def)

lemma grows_code_eq [simp]:
  "stmts c = stmts (pg_code s) \<Longrightarrow> grows cls sw vs (s\<lparr>pg_code := c\<rparr>) s' = grows cls sw vs s s'"
  "stmts c = stmts (pg_code s') \<Longrightarrow> grows cls sw vs s (s'\<lparr>pg_code := c\<rparr>) = grows cls sw vs s s'"
  by (simp_all add: grows_def)

lemma neutral_typed: "typed cls sw L [SLabel l]" "typed cls sw L [SAdvance l]"
  by (simp_all add: typed_def forget_def)

text \<open>Inside a switch of type \<open>T\<close>.\<close>

lemma grows_neutral:
  "grows cls (Switch_block T # sw) vs s (emit SDefault s)" "grows cls (Switch_block T # sw) vs s (emit SBreak s)"
  "is_constant e \<Longrightarrow> type_expr cls None e = Some T \<Longrightarrow> grows cls (Switch_block T # sw) vs s (emit (SCase e x) s)"
  by (rule grows_emit, simp add: typed_def require_def forget_def in_switch_def)+

lemma switch_grows:
  assumes e: "type_expr cls None e = Some T" "scalar cls T" and cs: "grows cls (Switch_block T # sw) vs (emit (SSwitch e x) s) s1"
  shows "grows cls sw vs s (emit SClose s1)"
proof (cases "gen_inv s")
  case True
  then obtain B ts where B: "stmts (pg_code s1) = stmts (pg_code s) @ SSwitch e x # B" "pg_temps s1 = pg_temps s @ ts" "gen_inv s1"
    "\<forall>L. scope L (vs @ pg_temps s1) \<longrightarrow> typed cls (Switch_block T # sw) L B"
    using cs by (auto simp: grows_def)
  have "typed cls sw L (SSwitch e x # B @ [SClose])" if "typed cls (Switch_block T # sw) L B" for L
    unfolding typed_def
  proof (intro allI)
    fix d g
    obtain d' g' where "type_stmts cls B (tstate L d g (Switch_block T # sw)) = Some (tstate L d' g' (Switch_block T # sw))"
      using \<open>typed cls (Switch_block T # sw) L B\<close> unfolding typed_def by blast
    then show "\<exists>d' g'. type_stmts cls (SSwitch e x # B @ [SClose]) (tstate L d g sw) = Some (tstate L d' g' sw)"
      using type_expr_dollar[OF e(1), of g] e(2) by (simp add: type_stmts_append forget_def)
  qed
  then show ?thesis using B True by (auto simp: grows_def)
qed (simp add: grows_def)

definition opens :: "pgen \<Rightarrow> pgen \<Rightarrow> bool" where
  "opens s s1 \<longleftrightarrow> (\<exists>l. stmts (pg_code s1) = [SLabel l, SAdvance l]) \<and> pg_temps s1 = pg_temps s \<and> gen_inv s1 = gen_inv s"

lemma begin_opens:
  "begin_instruction env i s = Some s1 \<Longrightarrow> opens s s1" "begin_serialize env i s = Some s1 \<Longrightarrow> opens s s1"
  by (auto simp: opens_def begin_instruction_def begin_serialize_def newInstructionLabel_def emitInitInstruction_def bind_eq_Some_conv)

lemma instruction_grows:
  assumes "opens s s1" and "grows cls sw vs s1 s2"
  shows "grows cls sw vs s (end_instruction (pg_code s) s2)"
proof (cases "gen_inv s")
  case True
  obtain l where l: "stmts (pg_code s1) = [SLabel l, SAdvance l]" "pg_temps s1 = pg_temps s" "gen_inv s1"
    using assms(1) True unfolding opens_def by blast
  then obtain A ts where A: "stmts (pg_code s2) = stmts (pg_code s1) @ A" "pg_temps s2 = pg_temps s1 @ ts" "gen_inv s2"
    "\<forall>L. scope L (vs @ pg_temps s2) \<longrightarrow> typed cls sw L A"
    using assms(2) unfolding grows_def by blast
  have typed: "\<forall>L. scope L (vs @ pg_temps s2) \<longrightarrow> typed cls sw L (SLabel l # SAdvance l # A)"
    using A(4) typed_Cons[OF neutral_typed(1) typed_Cons[OF neutral_typed(2)]] by blast
  have "pg_temps (end_instruction (pg_code s) s2) = pg_temps s2" "gen_inv (end_instruction (pg_code s) s2) = gen_inv s2"
    by (simp_all add: end_instruction_def)
  then show ?thesis unfolding grows_def using typed A(1-3) l by simp
qed (simp add: grows_def)

lemma emit_cases_grows:
  "emit_cases env es s = Some s' \<Longrightarrow> list_all (\<lambda>e. is_constant e \<and> type_expr cls None e = Some T) es \<Longrightarrow>
     grows cls (Switch_block T # sw) vs s s'"
proof (induction env es s rule: emit_cases.induct)
  case (2 env e es s)
  obtain x where x: "expr_text (ge_types env) e = Some x" "emit_cases env es (emit (SCase e x) s) = Some s'"
    using 2(2) by (auto simp: bind_eq_Some_conv)
  have "grows cls (Switch_block T # sw) vs (emit (SCase e x) s) s'" using 2(1)[OF x] 2(3) by simp
  from grows_trans[OF grows_neutral(3) this] show ?case using 2(3) by simp
qed (simp add: grows_def)

lemma case_grows:
  assumes "grows cls (Switch_block T # sw) vs s s1" and "grows cls (Switch_block T # sw) vs (if d then emit SDefault s1 else s1) s3"
    and "grows cls (Switch_block T # sw) vs (emit SBreak s3) s'"
  shows "grows cls (Switch_block T # sw) vs s s'"
proof -
  have "grows cls (Switch_block T # sw) vs s1 (if d then emit SDefault s1 else s1)" by (simp add: grows_neutral)
  from grows_trans[OF grows_trans[OF assms(1) this] assms(2)] show ?thesis
    using grows_trans[OF grows_trans[OF _ grows_neutral(2)] assms(3)] by blast
qed

lemma parse_visit_grows:
  assumes "parse_visit env i s = Some s'" and "declares cls env opt i" and "env_class cls env opt" and "typed_leaf cls i"
    and "\<nexists>b f e cs. i = Switch b f e cs"
  shows "grows cls sw parse_locals s s'"
proof -
  have "grows cls sw parse_locals s s'" if var: "parse_variable env b d s = Some s'" "i = Variable b d" for b d
  proof (cases "s' = s")
    case False
    then obtain e x where e: "s' = emit (SAssignField (''UNIT('' @ ck_unit cls @ '')'') (field_name b) e x) s"
      "(case attrs_lookup (it_attributes b) ''parse'' of Some a \<Rightarrow> attr_value a | None \<Rightarrow> d) = Some e"
      using var assms(3) by (auto simp: parse_variable_def env_class_def bind_eq_Some_conv split: option.splits)
    obtain ty where ty: "type_text (ge_types env) (it_type b) = Some ty" "member_type cls (field_name b) = Some ty"
      using assms(2) var(2) by (auto simp: declares_def has_member_def stored_type_def range_field_def is_field_def)
    have "type_expr cls None e = Some (value_type_of ty)"
      using assms(3,4) var(2) ty(1) e(2) by (simp add: typed_leaf_def env_class_def)
    note te = type_expr_dollar[OF this]
    show ?thesis using e(1) ty(2) by (auto intro!: grows_emit simp: typed_def typing_defs te)
  qed (simp add: grows_def)
  then show ?thesis
    using assms parse_atomic_grows by (cases i) (auto simp: grows_def)
qed

lemma parse_code_grows:
  assumes "env_class cls env opt"
  shows "parse_visit env i s1 = Some s2 \<Longrightarrow> \<forall>j\<in>set (leaves_item i). declares cls env opt j \<Longrightarrow> typed_item cls i \<Longrightarrow>
      grows cls sw parse_locals s1 s2"
    and "parse_items env is s = Some s' \<Longrightarrow> \<forall>j\<in>set (leaves is). declares cls env opt j \<Longrightarrow> typed_items cls is \<Longrightarrow>
      grows cls sw parse_locals s s'"
    and "parse_cases env cs s = Some s' \<Longrightarrow> \<forall>j\<in>set (leaves_cases cs). declares cls env opt j \<Longrightarrow> typed_cases cls T cs \<Longrightarrow>
      grows cls (Switch_block T # sw) parse_locals s s'"
  using assms
proof (induction env i s1 and env "is" s and env cs s arbitrary: s2 sw and s' sw and s' sw T
    rule: parse_visit_parse_items_parse_cases.induct)
  case (3 env b f e cs s)
  show ?case
  proof (cases e)
    case None
    then show ?thesis using 3(2) by (auto simp: grows_def)
  next
    case (Some x)
    then obtain tx s1 where st: "expr_text (ge_types env) x = Some tx" "parse_cases env cs (emit (SSwitch x tx) s) = Some s1" "s2 = emit SClose s1"
      using 3(2) by (auto simp: bind_eq_Some_conv)
    obtain T where T: "type_expr cls None x = Some T" "scalar cls T" "typed_cases cls T cs"
      using 3(4) Some by (auto split: option.splits)
    have "grows cls (Switch_block T # sw) parse_locals (emit (SSwitch x tx) s) s1" using 3(1)[OF Some st(1,2)] 3(3,5) T(3) by simp
    from switch_grows[OF T(1,2) this] show ?thesis using st(3) by simp
  qed
next
  case (7 env i "is" s)
  obtain s1 s2 where st: "begin_instruction env i s = Some s1" "parse_visit env i s1 = Some s2"
    "parse_items env is (end_instruction (pg_code s) s2) = Some s'"
    using 7(3) by (auto simp: bind_eq_Some_conv)
  have "grows cls sw parse_locals s1 s2" using 7(1)[OF st(1,2)] 7(4-6) by auto
  from instruction_grows[OF begin_opens(1)[OF st(1)] this] show ?case
    by (rule grows_trans) (use 7(2)[OF st] 7(4-6) in auto)
next
  case (9 env es "is" d cs s)
  obtain s1 s3 where st: "emit_cases env es s = Some s1"
    "parse_items env is ((if d then emit SDefault s1 else s1)\<lparr>pg_code := indent_code (pg_code (if d then emit SDefault s1 else s1))\<rparr>) = Some s3"
    "parse_cases env cs ((emit SBreak s3)\<lparr>pg_code := unindent_code (pg_code (emit SBreak s3))\<rparr>) = Some s'"
    using 9(3) by (auto simp: bind_eq_Some_conv Let_def)
  have "grows cls (Switch_block T # sw) parse_locals (if d then emit SDefault s1 else s1) s3"
    using 9(1)[OF st(1) refl st(2)] 9(4-6) by simp
  moreover have "grows cls (Switch_block T # sw) parse_locals (emit SBreak s3) s'"
    using 9(2)[OF st(1) refl st(2) refl st(3)] 9(4-6) by simp
  moreover have "list_all (\<lambda>e. is_constant e \<and> type_expr cls None e = Some T) es" using 9(5) by simp
  ultimately show ?case using case_grows[OF emit_cases_grows[OF st(1)]] by blast
qed (simp_all add: parse_visit_grows del: parse_visit.simps)

section \<open>The code of the serializer generator\<close>

lemma serialize_type_keeps:
  assumes pt: "serialize_type env i t s = Some s'" and ty: "type_text (ge_types env) t = Some ty"
    and range: "pg_input_pointer s \<Longrightarrow> is_bytes (ge_types env) t"
    and T: "T = (if pg_input_pointer s then runtime_type ''var_stream_range'' else ty)"
  shows "keeps cls sw serialize_locals T s s'"
proof -
  obtain a ob where a: "t = Some a" "ge_types env a = Some ob" using pt by (auto simp: serialize_type_def bind_eq_Some_conv)
  note kinds = type_text_kind[OF ty[unfolded a(1)] a(2)]
  have same: "keeps cls sw serialize_locals T s s'" if "s' = reset_errors s \<or> s' = log_error (reset_errors s)"
    using that by (auto simp: keeps_def)
  have bytes: "keeps cls sw serialize_locals T s s'" if "s' = serialize_bytes (reset_errors s)" "ty_kind ob = TBytes"
    using that(1) kinds(1)[OF that(2)] T
    by (cases "pg_input_pointer s") (auto simp: serialize_bytes_def typing_defs serialize_locals_def keeps_def)
  have str: "keeps cls sw serialize_locals T s s'"
    if "s' = emitCheckSerializeResult (emit (SCopyOut ''var_string'' ''data_'') (reset_errors s))" "ty_kind ob = TString"
    using that kinds(2)[OF that(2)] range a T by (auto simp: typing_defs serialize_locals_def keeps_def is_bytes_def)
  have int: "keeps cls sw serialize_locals T s s'"
    if "ty_kind ob = TInteger w sg" "s' = emitCheckSerializeResult (emit (SSerializeInt w sg bo) (reset_errors s))" for bo w sg
    using kinds(3)[OF that(1)] range that a T by (auto simp: typing_defs serialize_locals_def keeps_def is_bytes_def)
  show ?thesis
    using pt same bytes str int
    by (cases "ty_kind ob") (auto simp: serialize_type_def a bind_eq_Some_conv Let_def)
qed

lemma grows_addTemp: "grows cls sw vs s (snd (addTemp ty s))"
  by (auto simp: grows_def gen_inv_def addTemp_typed)

lemma serialize_transformed_grows:
  assumes tr: "serialize_transformed env b f s = Some s'" and inv: "gen_inv s"
    and u: "exprCurrentUnit env = Some (''UNIT('' @ ck_unit cls @ '')'')" and m: "member_type cls (field_name b) = Some ty"
    and cast: "\<And>sty. attrs_has (it_attributes b) ''transform_to'' \<Longrightarrow>
      type_text (ge_types env) (serialized_type (AtomicType b f)) = Some sty \<Longrightarrow> castable cls ty sty"
  shows "grows cls sw serialize_locals s (s'\<lparr>pg_input_pointer := False\<rparr>)"
proof -
  let ?i = "AtomicType b f" and ?u = "''UNIT('' @ ck_unit cls @ '')''"
  obtain sty s2 where st: "type_text (ge_types env) (serialized_type ?i) = Some sty"
    "attrs_has (it_attributes b) ''transform_to'' \<and>
      s2 = emit (SLoadTemp (fst (addTemp sty s)) sty ?u (field_name b)) (snd (addTemp sty s)) \<or> s2 = snd (addTemp sty s)
      \<or> s2 = log_error (snd (addTemp sty s))"
    "serialize_type env ?i (serialized_type ?i) (emit (SSrcTemp (fst (addTemp sty s))) s2) = Some s'"
    using tr u by (auto simp: serialize_transformed_def Let_def bind_eq_Some_conv case_prod_beta split: if_splits)
  let ?v = "(fst (addTemp sty s), sty)"
  have "gen_inv (snd (addTemp sty s))" using inv by (simp add: gen_inv_def addTemp_typed)
  then have s2: "pg_temps s2 = pg_temps s @ [?v]" "gen_inv s2"
    using st(2) by (auto simp: addTemp_typed)
  have "grows cls sw serialize_locals (snd (addTemp sty s)) (emit (SLoadTemp (fst (addTemp sty s)) sty ?u (field_name b)) (snd (addTemp sty s)))"
    if "attrs_has (it_attributes b) ''transform_to''"
    using m cast[OF that st(1)] by (intro grows_emit) (auto simp: addTemp_typed typed_def typing_defs)
  then have g: "grows cls sw serialize_locals s s2"
    using st(2) grows_trans[OF grows_addTemp] grows_addTemp[of cls sw serialize_locals s sty] by (auto intro: grows_log)
  have "keeps cls sw serialize_locals sty (emit (SSrcTemp (fst (addTemp sty s))) s2) s'"
    by (rule serialize_type_keeps[OF st(3,1)]) (use s2(2) in \<open>auto simp: gen_inv_def\<close>)
  then have "grows cls sw serialize_locals s2 (s'\<lparr>pg_input_pointer := False\<rparr>)"
    by (rule target_grows[where ts = "[]"]) (use s2 in \<open>auto simp: gen_inv_def typing_defs serialize_locals_def\<close>)
  from grows_trans[OF g this] show ?thesis .
qed

lemma serialize_atomic_grows:
  assumes sa: "serialize_atomic env b f s = Some s'" and decl: "declares cls env opt (AtomicType b f)"
    and env: "env_class cls env opt" and leaf: "typed_leaf cls (AtomicType b f)"
  shows "grows cls sw serialize_locals s s'"
proof (cases "gen_inv s")
  case True
  let ?i = "AtomicType b f" and ?r = "\<not> it_app_accessible b \<and> ge_input_pointers env"
  define s1 where "s1 = (if ?r then s\<lparr>pg_input_pointer := True\<rparr> else s)"
  have s1: "pg_code s1 = pg_code s" "pg_temps s1 = pg_temps s" "temps_named s1" "pg_input_pointer s1 \<longleftrightarrow> ?r"
    using True by (auto simp: s1_def gen_inv_def temps_named_def)
  have u: "exprCurrentUnit env = Some (''UNIT('' @ ck_unit cls @ '')'')" using env by (simp add: env_class_def)
  obtain ty where ty: "type_text (ge_types env) (it_type b) = Some ty"
    "member_type cls (field_name b) = Some (if ?r then runtime_type ''var_stream_range'' else ty)"
    "?r \<Longrightarrow> serialized_type ?i = it_type b \<and> is_bytes (ge_types env) (it_type b)"
    using declares_atomic[OF decl env] by blast
  show ?thesis
  proof (cases "serialized_type ?i = it_type b")
    case same: True
    let ?st = "SSrc (''UNIT('' @ ck_unit cls @ '')'') (field_name b)"
    obtain s2 where st: "serialize_type env ?i (it_type b) (emit ?st s1) = Some s2" "s' = s2\<lparr>pg_input_pointer := False\<rparr>"
      using sa same by (auto simp: serialize_atomic_def s1_def[symmetric] Let_def bind_eq_Some_conv u)
    have "keeps cls sw serialize_locals (if ?r then runtime_type ''var_stream_range'' else ty) (emit ?st s1) s2"
      by (rule serialize_type_keeps[OF st(1) ty(1)]) (use s1 ty(3) in auto)
    from target_grows[OF this s1(1), of "[]"] show ?thesis
      using s1 st(2) ty(2) by (auto simp: typing_defs serialize_locals_def)
  next
    case False
    then have nr: "\<not> ?r" using ty(3) by blast
    then have "s1 = s" by (auto simp: s1_def)
    then obtain s3 where "serialize_transformed env b f s = Some s3" "s' = s3\<lparr>pg_input_pointer := False\<rparr>"
      using sa False by (auto simp: serialize_atomic_def s1_def[symmetric] Let_def bind_eq_Some_conv)
    moreover have "member_type cls (field_name b) = Some ty" using ty(2) nr by auto
    ultimately show ?thesis
      using serialize_transformed_grows[OF _ True u] typed_leaf_cast(2)[OF leaf _ False] ty(1) env by (simp add: env_class_def)
  qed
qed (simp add: grows_def)

lemma serialize_visit_grows:
  assumes "serialize_visit env i s = Some s'" and "declares cls env opt i" and "env_class cls env opt" and "typed_leaf cls i"
    and "\<nexists>b f e cs. i = Switch b f e cs"
  shows "grows cls sw serialize_locals s s'"
proof -
  have "grows cls sw serialize_locals s s'" if var: "serialize_variable env b s = Some s'" "i = Variable b d" for b d
  proof (cases "s' = s")
    case False
    let ?st = "SDollar (''UNIT('' @ ck_unit cls @ '')'') (field_name b)"
    obtain a e x where s': "s' = emit (SEval e x) (emit ?st s)" "attrs_lookup (it_attributes b) ''serialize'' = Some a" "attr_value a = Some e"
      using False var assms(3) by (auto simp: serialize_variable_def env_class_def bind_eq_Some_conv split: option.splits)
    obtain ty where ty: "type_text (ge_types env) (it_type b) = Some ty" "member_type cls (field_name b) = Some ty"
      using assms(2) var(2) by (auto simp: declares_def has_member_def stored_type_def range_field_def is_field_def)
    have "type_expr cls (Some ty) e \<noteq> None"
      using assms(3,4) var(2) ty(1) s'(2,3) by (simp add: typed_leaf_def env_class_def)
    then have "\<forall>L. scope L (serialize_locals @ pg_temps s) \<longrightarrow> typed cls sw L [?st, SEval e x]"
      using ty(2) by (auto simp: typed_def typing_defs serialize_locals_def)
    then show ?thesis using s'(1) by (simp add: grows_def)
  qed simp
  then show ?thesis
    using assms serialize_atomic_grows by (cases i) (auto intro: grows_log)
qed

lemma serialize_code_grows:
  assumes "env_class cls env opt"
  shows "serialize_visit env i s1 = Some s2 \<Longrightarrow> \<forall>j\<in>set (leaves_item i). declares cls env opt j \<Longrightarrow> typed_item cls i \<Longrightarrow>
      grows cls sw serialize_locals s1 s2"
    and "serialize_items env is s = Some s' \<Longrightarrow> \<forall>j\<in>set (leaves is). declares cls env opt j \<Longrightarrow> typed_items cls is \<Longrightarrow>
      grows cls sw serialize_locals s s'"
    and "serialize_cases env cs s = Some s' \<Longrightarrow> \<forall>j\<in>set (leaves_cases cs). declares cls env opt j \<Longrightarrow> typed_cases cls T cs \<Longrightarrow>
      grows cls (Switch_block T # sw) serialize_locals s s'"
  using assms
proof (induction env i s1 and env "is" s and env cs s arbitrary: s2 sw and s' sw and s' sw T
    rule: serialize_visit_serialize_items_serialize_cases.induct)
  case (3 env b f e cs s)
  show ?case
  proof (cases e)
    case None
    then show ?thesis using 3(2) by (auto simp: grows_def)
  next
    case (Some x)
    then obtain tx s1 where st: "expr_text (ge_types env) x = Some tx" "serialize_cases env cs (emit (SSwitch x tx) s) = Some s1" "s2 = emit SClose s1"
      using 3(2) by (auto simp: bind_eq_Some_conv)
    obtain T where T: "type_expr cls None x = Some T" "scalar cls T" "typed_cases cls T cs"
      using 3(4) Some by (auto split: option.splits)
    have "grows cls (Switch_block T # sw) serialize_locals (emit (SSwitch x tx) s) s1" using 3(1)[OF Some st(1,2)] 3(3,5) T(3) by simp
    from switch_grows[OF T(1,2) this] show ?thesis using st(3) by simp
  qed
next
  case (7 env i "is" s)
  show ?case
  proof (cases "is_variable i")
    case True
    then obtain s1 where st: "serialize_visit env i (reset_errors s) = Some s1" "serialize_items env is s1 = Some s'"
      using 7(5) by (auto simp: bind_eq_Some_conv)
    have "grows cls sw serialize_locals (reset_errors s) s1" using 7(1)[OF True st(1)] 7(6-8) by auto
    then have "grows cls sw serialize_locals s s1" by (simp add: grows_def)
    then show ?thesis by (rule grows_trans) (use 7(2)[OF True st] 7(6-8) in auto)
  next
    case False
    then obtain s1 s2 where st: "begin_serialize env i s = Some s1" "serialize_visit env i s1 = Some s2"
      "serialize_items env is (end_instruction (pg_code s) s2) = Some s'"
      using 7(5) by (auto simp: bind_eq_Some_conv)
    have "grows cls sw serialize_locals s1 s2" using 7(3)[OF False st(1,2)] 7(6-8) by auto
    from instruction_grows[OF begin_opens(2)[OF st(1)] this] show ?thesis
      by (rule grows_trans) (use 7(4)[OF False st] 7(6-8) in auto)
  qed
next
  case (9 env es "is" d cs s)
  obtain s1 s3 where st: "emit_cases env es s = Some s1"
    "serialize_items env is ((if d then emit SDefault s1 else s1)\<lparr>pg_code := indent_code (pg_code (if d then emit SDefault s1 else s1))\<rparr>) = Some s3"
    "serialize_cases env cs ((emit SBreak s3)\<lparr>pg_code := unindent_code (pg_code (emit SBreak s3))\<rparr>) = Some s'"
    using 9(3) by (auto simp: bind_eq_Some_conv Let_def)
  have "grows cls (Switch_block T # sw) serialize_locals (if d then emit SDefault s1 else s1) s3"
    using 9(1)[OF st(1) refl st(2)] 9(4-6) by simp
  moreover have "grows cls (Switch_block T # sw) serialize_locals (emit SBreak s3) s'"
    using 9(2)[OF st(1) refl st(2) refl st(3)] 9(4-6) by simp
  moreover have "list_all (\<lambda>e. is_constant e \<and> type_expr cls None e = Some T) es" using 9(5) by simp
  ultimately show ?case using case_grows[OF emit_cases_grows[OF st(1)]] by blast
qed (simp_all add: serialize_visit_grows del: serialize_visit.simps)

text \<open>The members whose length is written back before serialization.\<close>

definition length_updated :: "gen_env \<Rightarrow> item \<Rightarrow> bool" where
  "length_updated env i \<longleftrightarrow>
     is_field i \<and> \<not> is_list_field i \<and> is_byte_string env (serialized_type i) = Some True \<and> it_app_accessible (base_of i) \<and>
     (case length_value_of i of Some (Some e) \<Rightarrow> attribute_access e | _ \<Rightarrow> False)"

definition supported_update :: "gen_env \<Rightarrow> item \<Rightarrow> bool" where
  "supported_update env i \<longleftrightarrow> (length_updated env i \<longrightarrow> has_member i \<and> serialized_type i = it_type (base_of i))"

lemma bytes_derived:
  assumes "type_text ts t = Some ty" and "is_byte_string env t = Some True" and "ge_types env = ts"
  shows "derived_from ty (runtime_type ''var_bytes'')"
proof -
  obtain a ob where a: "t = Some a" "ts a = Some ob" "ty_kind ob = TBytes \<or> ty_kind ob = TString"
    using assms by (auto simp: is_byte_string_def split: option.splits)
  show ?thesis using type_text_kind[OF assms(1)[unfolded a(1)] a(2)] a(3) by auto
qed

lemma updateLength_grows:
  assumes up: "updateLengthForField env i s = Some s'" and field: "is_field i" and sup: "supported_update env i"
    and d: "has_member i \<Longrightarrow> declares cls env opt i \<and> typed_leaf cls i" and env: "env_class cls env opt"
  shows "grows cls sw serialize_locals s s'"
proof (cases "s' = s")
  case False
  let ?src = "SSrc (''UNIT('' @ ck_unit cls @ '')'') (field_name (base_of i))"
  obtain e x where s': "s' = emit (SUpdateLen e x) (emit ?src s)" "length_updated env i"
    "length_value_of i = Some (Some e)" "attribute_access e"
    using False up field env
    by (auto simp: updateLengthForField_def length_updated_def env_class_def bind_eq_Some_conv split: if_splits option.splits)
  then have m: "has_member i" "serialized_type i = it_type (base_of i)" using sup by (auto simp: supported_update_def)
  have nr: "\<not> range_field opt i" using s'(2) by (simp add: length_updated_def range_field_def)
  obtain ty where ty: "type_text (ge_types env) (it_type (base_of i)) = Some ty" "member_type cls (field_name (base_of i)) = Some ty"
    using d[OF m(1)] m(1) nr by (auto simp: declares_def stored_type_def)
  have "derived_from ty (runtime_type ''var_bytes'')"
    using bytes_derived[OF ty(1) _ refl] s'(2) m(2) by (simp add: length_updated_def)
  moreover have "type_expr cls None e = Some Integral"
    using d[OF m(1)] m(1) field s'(3) typed_leaf_length by (cases i) (auto simp: has_member_def is_field_def)
  moreover have "is_lvalue e" using s'(4) by (auto simp: attribute_access_def is_lvalue_def split: expr.splits)
  ultimately have "\<forall>L. scope L (serialize_locals @ pg_temps s) \<longrightarrow> typed cls sw L [?src, SUpdateLen e x]"
    using ty(2) type_expr_dollar[of cls e Integral] by (auto simp: typed_def typing_defs serialize_locals_def)
  then show ?thesis using s'(1) by (simp add: grows_def)
qed simp

lemma update_lengths_grows:
  "update_lengths env is s = Some s' \<Longrightarrow> \<forall>i\<in>set is. supported_update env i \<Longrightarrow>
   \<forall>i\<in>set is. has_member i \<longrightarrow> declares cls env opt i \<and> typed_leaf cls i \<Longrightarrow> env_class cls env opt \<Longrightarrow> grows cls sw serialize_locals s s'"
proof (induction env "is" s rule: update_lengths.induct)
  case (2 env i "is" s)
  obtain s1 where s1: "(if is_field i then updateLengthForField env i s else Some s) = Some s1" "update_lengths env is s1 = Some s'"
    using 2(2) by (auto simp: bind_eq_Some_conv)
  have "grows cls sw serialize_locals s s1"
    using s1(1) updateLength_grows[of env i s s1] 2(3-5) by (auto split: if_splits)
  then show ?case by (rule grows_trans) (use 2(1)[OF s1] 2(3-5) in simp)
qed simp

end
