(* ===== verification/Gen_Labels.thy ===== *)
theory Gen_Labels
  imports Gen_Leaf
begin

text \<open>
  Labels of generated functions.  A generated function is resumed by a computed jump to the label
  stored in the parser state, so the labels of a function must be distinct and every stored label
  must be one of them.
\<close>

fun labels :: "stmt list \<Rightarrow> string list" where
  "labels [] = []"
| "labels (st # xs) = (case st of SLabel l \<Rightarrow> [l] | _ \<Rightarrow> []) @ labels xs"

fun jumps :: "stmt list \<Rightarrow> string list" where
  "jumps [] = []"
| "jumps (st # xs) = (case st of SAdvance l \<Rightarrow> [l] | _ \<Rightarrow> []) @ jumps xs"

fun silent :: "stmt \<Rightarrow> bool" where
  "silent (SLabel l) = False"
| "silent (SAdvance l) = False"
| "silent st = True"

definition quiet :: "stmt list \<Rightarrow> bool" where
  "quiet B \<longleftrightarrow> list_all silent B"

lemma labels_append [simp]: "labels (xs @ ys) = labels xs @ labels ys"
  by (induction xs) auto

lemma jumps_append [simp]: "jumps (xs @ ys) = jumps xs @ jumps ys"
  by (induction xs) auto

lemma quiet_simps [simp]: "quiet []" "quiet (st # B) \<longleftrightarrow> silent st \<and> quiet B" "quiet (A @ B) \<longleftrightarrow> quiet A \<and> quiet B"
  by (simp_all add: quiet_def)

lemma silent_none: "silent st \<Longrightarrow> labels [st] = [] \<and> jumps [st] = []"
  by (cases st) simp_all

lemma quiet_labels: "quiet B \<Longrightarrow> labels B = [] \<and> jumps B = []"
  by (induction B) (use silent_none in auto)

lemma is_case_silent: "is_case st \<Longrightarrow> silent st"
  by (cases st) (simp_all add: is_case_def)

lemma label_name_inj: "label_name m d = label_name n d' \<Longrightarrow> m = n"
proof -
  have under: "takeWhile (\<lambda>c. c \<noteq> CHR ''_'') (dec_nat k @ ''_'' @ x) = dec_nat k" for k x
    using dec_nat_digits[of "CHR ''_''" k] by (subst takeWhile_append2) (auto simp: c_isdigit_def less_eq_char_def)
  assume "label_name m d = label_name n d'"
  then have "dec_nat m @ ''_'' @ d = dec_nat n @ ''_'' @ d'" by (simp add: label_name_def)
  from arg_cong[OF this, of "takeWhile (\<lambda>c. c \<noteq> CHR ''_'')"] show ?thesis by (simp only: under dec_nat_inj)
qed

definition numbered :: "nat \<Rightarrow> nat \<Rightarrow> stmt list \<Rightarrow> bool" where
  "numbered k k' B \<longleftrightarrow>
     k \<le> k' \<and> distinct (labels B) \<and> jumps B = labels B \<and>
     (\<forall>l\<in>set (labels B). \<exists>n d. k < n \<and> n \<le> k' \<and> l = label_name n d)"

lemma numbered_append: "numbered k k' A \<Longrightarrow> numbered k' k'' B \<Longrightarrow> numbered k k'' (A @ B)"
proof -
  assume A: "numbered k k' A" and B: "numbered k' k'' B"
  have "set (labels A) \<inter> set (labels B) = {}"
  proof (rule ccontr)
    assume "set (labels A) \<inter> set (labels B) \<noteq> {}"
    then obtain m n d d' where "label_name m d = label_name n d'" "m \<le> k'" "k' < n"
      using A B by (fastforce simp: numbered_def)
    then show False using label_name_inj by fastforce
  qed
  then show ?thesis using A B by (fastforce simp: numbered_def)
qed

lemma numbered_quiet: "quiet B \<Longrightarrow> numbered k k B"
  by (simp add: numbered_def quiet_labels)

lemma numbered_start: "l = label_name (Suc k) d \<Longrightarrow> numbered k (Suc k) [SLabel l, SAdvance l]"
  by (auto simp: numbered_def)

lemma instrs_numbered:
  "instrs quiet quiet k B k' \<Longrightarrow> numbered k k' B" "selection quiet quiet k B k' \<Longrightarrow> numbered k k' B"
proof (induction rule: instrs_selection.inducts)
  case (instrs_field B k R k' l d)
  show ?case
    using numbered_append[OF numbered_start[OF instrs_field(4)] numbered_append[OF numbered_quiet[OF instrs_field(1)] instrs_field(3)]] by simp
next
  case (instrs_switch k B k' R k'' l d e s)
  have "numbered (Suc k) (Suc k) [SSwitch e s]" "numbered k' k' [SClose]" by (simp_all add: numbered_def)
  from numbered_append[OF numbered_start[OF instrs_switch(5)] numbered_append[OF this(1) numbered_append[OF instrs_switch(2) numbered_append[OF this(2) instrs_switch(4)]]]]
  show ?case by simp
next
  case (instrs_plain B k R k')
  then show ?case using numbered_append[OF numbered_quiet] by blast
next
  case (selection_case C k B k' R k'')
  have "quiet C" using selection_case(1) by (induction C) (auto dest: is_case_silent)
  moreover have "numbered k' k' [SBreak]" by (simp add: numbered_def)
  ultimately show ?case
    using numbered_append[OF numbered_quiet numbered_append[OF selection_case(3) numbered_append[OF _ selection_case(5)]], of C "[SBreak]"] by simp
qed (simp_all add: numbered_def)

lemma prim_quiet: "parse_prim ok P \<Longrightarrow> quiet P"
  by (erule parse_prim.cases) auto

lemma leaf_quiet: "parse_leaf ok okt B \<Longrightarrow> quiet B"
  by (erule parse_leaf.cases) (auto dest!: prim_quiet)

section \<open>The serializer's items\<close>

lemma emits_quiet_trans: "emits quiet s s1 \<Longrightarrow> emits quiet s1 s2 \<Longrightarrow> emits quiet s s2"
  by (fastforce simp: emits_def)

lemma emits_quiet_emit: "silent st \<Longrightarrow> emits quiet s (emit st s)"
  by (simp add: emits_def)

lemma emits_quiet_same: "pg_code s' = pg_code s \<Longrightarrow> pg_label s' = pg_label s \<Longrightarrow> emits quiet s s'"
  by (simp add: emits_def)

lemma serialize_type_quiet:
  assumes "serialize_type env i t s = Some s'"
  shows "emits quiet s s'"
proof -
  obtain a ob where a: "t = Some a" "ge_types env a = Some ob" using assms by (auto simp: serialize_type_def bind_eq_Some_conv)
  have "\<exists>B. stmts (pg_code s') = stmts (pg_code s) @ B \<and> quiet B \<and> pg_label s' = pg_label s"
    using assms by (cases "ty_kind ob") (simp_all add: serialize_type_def a serialize_bytes_def bind_eq_Some_conv Let_def, auto)
  then show ?thesis by (auto simp: emits_def)
qed

lemma serialize_atomic_quiet:
  assumes "serialize_atomic env b f s = Some s'"
  shows "emits quiet s s'"
proof -
  let ?i = "AtomicType b f"
  define s1 where "s1 = (if \<not> it_app_accessible b \<and> ge_input_pointers env then s\<lparr>pg_input_pointer := True\<rparr> else s)"
  have s1: "emits quiet s s1" by (simp add: s1_def emits_def)
  obtain s2 where s2: "emits quiet s1 s2" "s' = s2\<lparr>pg_input_pointer := False\<rparr>"
  proof (cases "serialized_type ?i = it_type b")
    case True
    then obtain u s2 where "serialize_type env ?i (serialized_type ?i) (emit (SSrc u (field_name b)) s1) = Some s2"
      "s' = s2\<lparr>pg_input_pointer := False\<rparr>"
      using assms by (auto simp: serialize_atomic_def s1_def[symmetric] Let_def bind_eq_Some_conv)
    then show ?thesis
      by (intro that[of s2] emits_quiet_trans[OF emits_quiet_emit serialize_type_quiet, of "SSrc u (field_name b)"]) simp_all
  next
    case False
    then obtain s3 where s3: "serialize_transformed env b f s1 = Some s3" "s' = s3\<lparr>pg_input_pointer := False\<rparr>"
      using assms by (auto simp: serialize_atomic_def s1_def[symmetric] Let_def bind_eq_Some_conv)
    obtain ty s2 where st: "serialize_type env ?i (serialized_type ?i) (emit (SSrcTemp (fst (addTemp ty s1))) s2) = Some s3"
      "s2 = snd (addTemp ty s1) \<or> s2 = log_error (snd (addTemp ty s1)) \<or>
       (\<exists>u. s2 = emit (SLoadTemp (fst (addTemp ty s1)) ty u (field_name b)) (snd (addTemp ty s1)))"
      using s3(1) by (simp add: serialize_transformed_def Let_def bind_eq_Some_conv case_prod_beta split: if_splits) blast+
    have "emits quiet s1 s2" using st(2) by (auto simp: emits_def)
    then have "emits quiet s1 s3"
      using emits_quiet_trans[OF _ emits_quiet_trans[OF emits_quiet_emit serialize_type_quiet[OF st(1)]]] by simp
    then show ?thesis using that s3(2) by blast
  qed
  have "emits quiet s2 s'" using s2(2) by (simp add: emits_def)
  then show ?thesis using s1 s2(1) emits_quiet_trans by blast
qed

lemma serialize_visit_quiet:
  assumes "serialize_visit env i s = Some s'" and "\<nexists>b f e cs. i = Switch b f e cs"
  shows "emits quiet s s'"
  using assms serialize_atomic_quiet
  by (cases i) (auto simp: serialize_variable_def emits_def bind_eq_Some_conv split: option.splits)

lemma serialize_items_grammar: "serialize_items env is s = Some s' \<Longrightarrow> generates (instrs quiet quiet) s s'"
  by (rule serialize_grammar(2)) (use serialize_visit_quiet leaves_leaf in auto)

lemma updateLengthForField_quiet:
  assumes "updateLengthForField env i s = Some s'"
  shows "emits quiet s s'"
proof -
  have "s' = s \<or> (\<exists>e x u. s' = emit (SUpdateLen e x) (emit (SSrc u (field_name (base_of i))) s))"
    using assms unfolding updateLengthForField_def bind_eq_Some_conv
    by (simp split: if_split_asm option.split_asm) (auto simp: bind_eq_Some_conv split: if_split_asm)
  then show ?thesis by (auto simp: emits_def)
qed

lemma update_lengths_quiet: "update_lengths env is s = Some s' \<Longrightarrow> emits quiet s s'"
proof (induction env "is" s rule: update_lengths.induct)
  case (2 env i "is" s)
  then obtain s1 where st: "(if is_field i then updateLengthForField env i s else Some s) = Some s1" "update_lengths env is s1 = Some s'"
    by (auto simp: bind_eq_Some_conv)
  have "emits quiet s s1"
    using st(1) updateLengthForField_quiet[of env i s s1] by (simp split: if_split_asm) (simp add: emits_def)
  then show ?case using 2(1)[OF st] emits_quiet_trans by blast
qed (simp add: emits_def)

section \<open>Whole functions\<close>

definition resume_header :: "string \<Rightarrow> stmt list" where
  "resume_header root = [SLabel root, SIfInstruction, SUnitFromState_in, SGotoInstruction, SClose]"

definition decls_of :: "(string \<times> string) list \<Rightarrow> stmt list" where
  "decls_of ts = map (\<lambda>(name, ty). SDecl ty name) ts"

lemma emit_decls_stmts: "stmts (pg_code (emit_decls ts s)) = stmts (pg_code s) @ decls_of ts"
  by (induction ts s rule: emit_decls.induct) (simp_all add: decls_of_def)

lemma parse_body_stmts:
  "stmts (pg_code (parse_body root u inner s)) =
     [SDecl ''char*'' ''parse_dest'', SDecl parse_result ''parse_res'', SDecl ''char*'' ''unit''] @ decls_of (pg_temps s) @
     resume_header root @ [SPush, SIfNotAllocate u, SReturnAreaFull, SUnitFromState, SInitPos ''in_buf_start''] @ stmts inner @
     [SCountBytes ''bytes_read'' ''in_buf_start'', SReturnDone parse_result]"
  by (simp add: parse_body_def Let_def emit_decls_stmts emitAllocateIntoPointerPointer_def emitPushBlockState_def resume_header_def)

lemma serialize_body_stmts:
  "stmts (pg_code (serialize_body root inner s)) =
     [SDecl ''char*'' ''serialize_src'', SDecl serialize_result ''serialize_res'', SDecl ''char*'' ''dollar''] @ decls_of (pg_temps s) @
     resume_header root @ [SPush, SStateUnit, SInitPos ''out_buf_start''] @ stmts inner @
     [SCountBytes ''bytes_written'' ''out_buf_start'', SReturnDone serialize_result]"
  by (simp add: serialize_body_def Let_def emit_decls_stmts emitPushBlockState_def resume_header_def)

lemma decls_quiet: "quiet (decls_of ts)"
  by (induction ts) (auto simp: decls_of_def)

lemma function_labels:
  assumes "numbered (Suc k) k' inner" and "root = label_name (Suc k) d" and "quiet A" "quiet B" "quiet C"
    and "code = A @ resume_header root @ B @ inner @ C"
  shows "distinct (labels code) \<and> set (jumps code) \<subseteq> set (labels code)"
proof -
  have "root \<notin> set (labels inner)" using assms(1,2) label_name_inj by (fastforce simp: numbered_def)
  then show ?thesis
    using assms quiet_labels[of A] quiet_labels[of B] quiet_labels[of C]
    by (auto simp: numbered_def resume_header_def)
qed

lemma generates_numbered:
  "generates (instrs quiet quiet) s s' \<Longrightarrow> \<exists>B. stmts (pg_code s') = stmts (pg_code s) @ B \<and> numbered (pg_label s) (pg_label s') B"
  using instrs_numbered(1) by (auto simp: generates_def)

lemma instrs_mono: "instrs P F k B k' \<Longrightarrow> (\<And>B. P B \<Longrightarrow> Q B) \<Longrightarrow> (\<And>B. F B \<Longrightarrow> G B) \<Longrightarrow> instrs Q G k B k'"
    "selection P F k B k' \<Longrightarrow> (\<And>B. P B \<Longrightarrow> Q B) \<Longrightarrow> (\<And>B. F B \<Longrightarrow> G B) \<Longrightarrow> selection Q G k B k'"
  by (induction rule: instrs_selection.inducts) (auto intro: instrs_selection.intros)

lemma parser_labels:
  assumes "run_parser env is cls s = Some (code, cls', s', ok)"
  shows "distinct (labels (stmts code)) \<and> set (jumps (stmts code)) \<subseteq> set (labels (stmts code))"
proof -
  define root where "root = fst (newInstructionLabel ''root'' s)"
  define s1 where "s1 = (snd (newInstructionLabel ''root'' s))\<lparr>pg_code := empty_code\<rparr>"
  obtain s2 u where st: "parse_items env (filter not_property is) s1 = Some s2" "code = pg_code (parse_body root u (pg_code s2) s2)"
    using assms by (auto simp: run_parser_def root_def s1_def Let_def bind_eq_Some_conv case_prod_beta)
  have s1: "pg_label s1 = Suc (pg_label s)" "stmts (pg_code s1) = []" by (simp_all add: s1_def newInstructionLabel_def)
  have "generates (instrs (parse_leaf (\<lambda>_ _. True) (\<lambda>_. True)) (\<lambda>_. False)) s1 s2"
    by (rule parse_items_grammar[OF st(1)]) (simp add: length_known_def split: option.split)
  then have "generates (instrs quiet quiet) s1 s2" using instrs_mono(1) leaf_quiet unfolding generates_def by blast
  then have inner: "numbered (Suc (pg_label s)) (pg_label s2) (stmts (pg_code s2))" using generates_numbered[of s1 s2] s1 by auto
  show ?thesis
    by (rule function_labels[OF inner, of root "''root''"
        "[SDecl ''char*'' ''parse_dest'', SDecl parse_result ''parse_res'', SDecl ''char*'' ''unit''] @ decls_of (pg_temps s2)"
        "[SPush, SIfNotAllocate u, SReturnAreaFull, SUnitFromState, SInitPos ''in_buf_start'']"
        "[SCountBytes ''bytes_read'' ''in_buf_start'', SReturnDone parse_result]"])
       (simp_all add: st(2) parse_body_stmts decls_quiet root_def newInstructionLabel_def label_name_def)
qed

lemma serializer_labels:
  assumes "run_serializer env is cls s = Some (code, cls', s', ok)"
  shows "distinct (labels (stmts code)) \<and> set (jumps (stmts code)) \<subseteq> set (labels (stmts code))"
proof -
  define root where "root = fst (newInstructionLabel ''root'' s)"
  define s1 where "s1 = (snd (newInstructionLabel ''root'' s))\<lparr>pg_code := empty_code\<rparr>"
  obtain s2 s3 s4 where st: "update_lengths env is s1 = Some s2" "serialize_items env (filter is_variable is) (emit_newline s2) = Some s3"
    "serialize_items env (filter (\<lambda>i. not_property i \<and> \<not> is_variable i) is) (emit_newline s3) = Some s4"
    "code = pg_code (serialize_body root (pg_code s4) s4)"
    using assms by (auto simp: run_serializer_def root_def s1_def Let_def bind_eq_Some_conv case_prod_beta)
  have s1: "pg_label s1 = Suc (pg_label s)" "stmts (pg_code s1) = []" by (simp_all add: s1_def newInstructionLabel_def)
  obtain A B C where "stmts (pg_code s2) = A" "quiet A" "pg_label s2 = Suc (pg_label s)"
    "stmts (pg_code s3) = A @ B" "numbered (Suc (pg_label s)) (pg_label s3) B"
    "stmts (pg_code s4) = A @ B @ C" "numbered (pg_label s3) (pg_label s4) C"
    using update_lengths_quiet[OF st(1)] generates_numbered[OF serialize_items_grammar[OF st(2)]]
      generates_numbered[OF serialize_items_grammar[OF st(3)]] s1
    by (auto simp: emits_def)
  then have inner: "numbered (Suc (pg_label s)) (pg_label s4) (stmts (pg_code s4))"
    using numbered_append[OF numbered_quiet numbered_append] by simp
  show ?thesis
    by (rule function_labels[OF inner, of root "''root''"
        "[SDecl ''char*'' ''serialize_src'', SDecl serialize_result ''serialize_res'', SDecl ''char*'' ''dollar''] @ decls_of (pg_temps s4)"
        "[SPush, SStateUnit, SInitPos ''out_buf_start'']" "[SCountBytes ''bytes_written'' ''out_buf_start'', SReturnDone serialize_result]"])
       (simp_all add: st(4) serialize_body_stmts decls_quiet root_def newInstructionLabel_def label_name_def)
qed

end
