(* ===== verification/Gen_Exec.thy ===== *)
theory Gen_Exec
  imports Gen_Code Parse_Util Serialize_Util
begin

text \<open>
  The meaning of generated code: the statements of \<^verbatim>\<open>Gen_Code\<close> run on the byte store, with the
  runtime's primitives as they are modelled from \<^verbatim>\<open>runtime/parsing/util.h\<close>, \<^verbatim>\<open>runtime/serializing/util.h\<close> and
  \<^verbatim>\<open>runtime/unit/unit_area.h\<close>.

  All jumps of generated code go forward, to a label, a case or the end of a switch, so running a
  function is a recursion on the statements that are left.  The layout of the unit class, which the
  C++ compiler chooses, is a parameter.  \<^const>\<open>None\<close> is undefined behaviour or an expression outside the
  fragment: members, constants, enumerators, sums, differences and comparisons, with results for
  which the integer conversions of C++ do not matter: no comparison has a negative operand.  A length of
  \<open>2 ^ 63\<close> or more is undefined too, because it moves a pointer out of its buffer, and so is a block pushed
  on a parser state without room for it, where the runtime's assertion fails; \<open>mc_space\<close> is the room
  left there.
\<close>

record layout =
  ly_size :: nat
  ly_offset :: "string \<Rightarrow> nat"
  ly_scalar :: "string \<Rightarrow> (int_width \<times> bool) option"
  ly_temp :: "string \<Rightarrow> addr"
  ly_temp_scalar :: "string \<Rightarrow> (int_width \<times> bool) option"
  ly_enumerator :: "taddr \<Rightarrow> string \<Rightarrow> int option"

record machine =
  mc_mem :: mem
  mc_area :: unit_area
  mc_pos :: addr
  mc_instr :: "string option"
  mc_blocks :: "addr list"
  mc_space :: nat
  mc_unit :: addr
  mc_ptr :: addr
  mc_res :: "ParseResult + SerializeResult"
  mc_count :: size_t

section \<open>Expressions\<close>

definition member_addr :: "layout \<Rightarrow> addr \<Rightarrow> string \<Rightarrow> addr" where
  "member_addr L u f = u + of_nat (ly_offset L f)"

definition self_field :: "expr list \<Rightarrow> string option" where
  "self_field ops =
     (case ops of
        [EParserState k i u t, EMemberAttribute a] \<Rightarrow> if k = SELF then Some (id_name a) else None
      | _ \<Rightarrow> None)"

definition plain_int :: "int \<Rightarrow> int option" where
  "plain_int v = (if 0 \<le> v \<and> v < 2 ^ 31 then Some v else None)"

definition plain_truth :: "int \<Rightarrow> int \<Rightarrow> bool \<Rightarrow> int option" where
  "plain_truth x y b = (if 0 \<le> x \<and> 0 \<le> y then Some (if b then 1 else 0) else None)"

definition eval_operator :: "op_kind \<Rightarrow> int \<Rightarrow> int \<Rightarrow> int option" where
  "eval_operator k x y =
     (case k of
        op_Plus \<Rightarrow> plain_int (x + y)
      | op_Minus \<Rightarrow> plain_int (x - y)
      | op_Equal \<Rightarrow> plain_truth x y (x = y)
      | op_Less \<Rightarrow> plain_truth x y (x < y)
      | op_Greater \<Rightarrow> plain_truth x y (x > y)
      | _ \<Rightarrow> None)"

definition read_member :: "layout \<Rightarrow> mem \<Rightarrow> addr \<Rightarrow> string \<Rightarrow> int option" where
  "read_member L m u f = map_option (\<lambda>(w, sg). c_value w sg m (member_addr L u f)) (ly_scalar L f)"

fun eval_expr :: "layout \<Rightarrow> mem \<Rightarrow> addr \<Rightarrow> expr \<Rightarrow> int option"
and eval_exprs :: "layout \<Rightarrow> mem \<Rightarrow> addr \<Rightarrow> expr list \<Rightarrow> int option list" where
  "eval_expr L m u (EConstant c) =
     (case c of
        CInteger v w sg \<Rightarrow> Some v
      | CBool v \<Rightarrow> Some (if v then 1 else 0)
      | CEnum label t \<Rightarrow> ly_enumerator L t (id_name label)
      | _ \<Rightarrow> None)"
| "eval_expr L m u (EOperator k ops) =
     (if k = op_Attribute then (case self_field ops of None \<Rightarrow> None | Some f \<Rightarrow> read_member L m u f)
      else (case eval_exprs L m u ops of [Some x, Some y] \<Rightarrow> eval_operator k x y | _ \<Rightarrow> None))"
| "eval_expr L m u e = None"
| "eval_exprs L m u [] = []"
| "eval_exprs L m u (e # es) = eval_expr L m u e # eval_exprs L m u es"

text \<open>The members an expression reads.\<close>

fun reads :: "expr \<Rightarrow> string list"
and reads_list :: "expr list \<Rightarrow> string list" where
  "reads (EOperator k ops) =
     (if k = op_Attribute then (case self_field ops of None \<Rightarrow> [] | Some f \<Rightarrow> [f]) else reads_list ops)"
| "reads e = []"
| "reads_list [] = []"
| "reads_list (e # es) = reads e @ reads_list es"

section \<open>Statements without jumps\<close>

definition int_bytes :: "int_width \<Rightarrow> int \<Rightarrow> byte list" where
  "int_bytes w v = le_of_word (width_bytes w) (word_of_int v :: 64 word)"

definition store_member :: "layout \<Rightarrow> string \<Rightarrow> int \<Rightarrow> machine \<Rightarrow> machine option" where
  "store_member L f v m =
     map_option (\<lambda>(w, sg). m\<lparr>mc_mem := store_bytes (mc_mem m) (member_addr L (mc_unit m) f) (int_bytes w v)\<rparr>) (ly_scalar L f)"

definition width_of_bits :: "int \<Rightarrow> int_width option" where
  "width_of_bits w =
     (if w = 8 then Some W8 else if w = 16 then Some W16 else if w = 32 then Some W32
      else if w = 64 then Some W64 else None)"

definition order_of_label :: "string \<Rightarrow> byte_order option" where
  "order_of_label s = (if s = ''big'' then Some Big else if s = ''little'' then Some Little else None)"

text \<open>Where the two members of a byte string and of a stream range lie.\<close>

definition len_at :: "string \<Rightarrow> addr \<Rightarrow> addr" where
  "len_at ty p = (if ty = ''var_stream_range'' then p + 8 else p)"

definition data_at :: "string \<Rightarrow> addr \<Rightarrow> addr" where
  "data_at ty p = (if ty = ''var_stream_range'' then p else p + 8)"

definition load_len :: "string \<Rightarrow> machine \<Rightarrow> size_t option" where
  "load_len ty m =
     (let len = load_word (mc_mem m) (len_at ty (mc_ptr m)) :: size_t in if unat len < 2 ^ 63 then Some len else None)"

text \<open>A block state holds a pointer to its unit.\<close>

definition block_size :: nat where
  "block_size = 8"

definition step :: "layout \<Rightarrow> addr \<Rightarrow> addr \<Rightarrow> stmt \<Rightarrow> machine \<Rightarrow> machine option" where
  "step L start fin st m =
     (case st of
        SDecl ty name \<Rightarrow> Some m
      | SLabel l \<Rightarrow> Some m
      | SCase e s \<Rightarrow> Some m
      | SDefault \<Rightarrow> Some m
      | SClose \<Rightarrow> Some m
      | SAdvance l \<Rightarrow> Some (m\<lparr>mc_instr := Some l\<rparr>)
      | SUnitFromState \<Rightarrow> (case mc_blocks m of [] \<Rightarrow> None | u # us \<Rightarrow> Some (m\<lparr>mc_unit := u\<rparr>))
      | SUnitFromState_in \<Rightarrow> (case mc_blocks m of [] \<Rightarrow> None | u # us \<Rightarrow> Some (m\<lparr>mc_unit := u\<rparr>))
      | SStateUnit \<Rightarrow> (case mc_blocks m of [] \<Rightarrow> None | u # us \<Rightarrow> Some (m\<lparr>mc_blocks := mc_unit m # us\<rparr>))
      | SPush \<Rightarrow>
          (if block_size < mc_space m
           then Some (m\<lparr>mc_blocks := 0 # mc_blocks m, mc_space := mc_space m - block_size\<rparr>) else None)
      | SInitPos buf \<Rightarrow> Some (m\<lparr>mc_pos := start\<rparr>)
      | SCountBytes var buf \<Rightarrow> Some (m\<lparr>mc_count := mc_pos m - start\<rparr>)
      | SDest u f \<Rightarrow> Some (m\<lparr>mc_ptr := member_addr L (mc_unit m) f\<rparr>)
      | SSrc u f \<Rightarrow> Some (m\<lparr>mc_ptr := member_addr L (mc_unit m) f\<rparr>)
      | SDestTemp tmp \<Rightarrow> Some (m\<lparr>mc_ptr := ly_temp L tmp\<rparr>)
      | SSrcTemp tmp \<Rightarrow> Some (m\<lparr>mc_ptr := ly_temp L tmp\<rparr>)
      | SStoreTemp u f ty tmp \<Rightarrow>
          do { (w, sg) \<leftarrow> ly_temp_scalar L tmp; store_member L f (c_value w sg (mc_mem m) (ly_temp L tmp)) m }
      | SLoadTemp tmp ty u f \<Rightarrow>
          do { (w, sg) \<leftarrow> ly_temp_scalar L tmp; v \<leftarrow> read_member L (mc_mem m) (mc_unit m) f;
               Some (m\<lparr>mc_mem := store_bytes (mc_mem m) (ly_temp L tmp) (int_bytes w v)\<rparr>) }
      | SAssignField u f e s \<Rightarrow> do { v \<leftarrow> eval_expr L (mc_mem m) (mc_unit m) e; store_member L f v m }
      | SSetLen ty e s \<Rightarrow>
          do { v \<leftarrow> eval_expr L (mc_mem m) (mc_unit m) e;
               Some (m\<lparr>mc_mem := store_word (mc_mem m) (len_at ty (mc_ptr m)) (word_of_int v :: size_t)\<rparr>) }
      | SCopyIn ty \<Rightarrow>
          do { len \<leftarrow> load_len ty m;
               let (r, pos, d, area, mem) =
                     allocateCopyBytes (mc_mem m) (mc_pos m) fin (load_word (mc_mem m) (data_at ty (mc_ptr m))) len (mc_area m);
               Some (m\<lparr>mc_res := Inl r, mc_pos := pos, mc_area := area,
                       mc_mem := store_word mem (data_at ty (mc_ptr m)) d\<rparr>) }
      | SRangeStart \<Rightarrow> Some (m\<lparr>mc_mem := store_word (mc_mem m) (data_at ''var_stream_range'' (mc_ptr m)) (mc_pos m)\<rparr>)
      | SSkipRange \<Rightarrow>
          do { len \<leftarrow> load_len ''var_stream_range'' m;
               let (r, pos) = advance (mc_pos m) fin len;
               Some (m\<lparr>mc_res := Inl r, mc_pos := pos\<rparr>) }
      | SParseInt w sg bo \<Rightarrow>
          do { w' \<leftarrow> width_of_bits w; bo' \<leftarrow> order_of_label bo;
               let (r, pos, mem) = parseInt w' sg bo' (mc_mem m) (mc_pos m) fin (mc_ptr m);
               Some (m\<lparr>mc_res := Inl r, mc_pos := pos, mc_mem := mem\<rparr>) }
      | SUpdateLen e s \<Rightarrow>
          (case e of
             EOperator k ops \<Rightarrow>
               if k = op_Attribute then
                 (case self_field ops of
                    None \<Rightarrow> None
                  | Some f \<Rightarrow> store_member L f (uint (load_word (mc_mem m) (len_at ''var_bytes'' (mc_ptr m)) :: size_t)) m)
               else None
           | _ \<Rightarrow> None)
      | SCopyOut ty member \<Rightarrow>
          do { len \<leftarrow> load_len ty m;
               let (r, pos, mem) = copyBytes_s (mc_mem m) (load_word (mc_mem m) (data_at ty (mc_ptr m))) len (mc_pos m) fin;
               Some (m\<lparr>mc_res := Inr r, mc_pos := pos, mc_mem := mem\<rparr>) }
      | SSerializeInt w sg bo \<Rightarrow>
          do { w' \<leftarrow> width_of_bits w; bo' \<leftarrow> order_of_label bo;
               let (r, pos, mem) = serializeInt w' sg bo' (mc_mem m) (mc_ptr m) (mc_pos m) fin;
               Some (m\<lparr>mc_res := Inr r, mc_pos := pos, mc_mem := mem\<rparr>) }
      | _ \<Rightarrow> None)"

section \<open>Jumps\<close>

definition after :: "(stmt \<Rightarrow> bool) \<Rightarrow> stmt list \<Rightarrow> stmt list" where
  "after P xs = tl (dropWhile (\<lambda>st. \<not> P st) xs)"

fun is_switch :: "stmt \<Rightarrow> bool" where
  "is_switch (SSwitch e s) = True"
| "is_switch st = False"

text \<open>The statements behind the closing brace of the switch \<open>d\<close> levels up.\<close>

fun leave :: "nat \<Rightarrow> stmt list \<Rightarrow> stmt list" where
  "leave d [] = []"
| "leave d (st # xs) =
     (if is_switch st then leave (Suc d) xs
      else if st = SClose then (case d of 0 \<Rightarrow> xs | Suc d' \<Rightarrow> leave d' xs)
      else leave d xs)"

text \<open>The statements behind the first label of the current switch that satisfies the test.\<close>

fun find_label :: "(stmt \<Rightarrow> bool) \<Rightarrow> nat \<Rightarrow> stmt list \<Rightarrow> stmt list option" where
  "find_label P d [] = None"
| "find_label P d (st # xs) =
     (if is_switch st then find_label P (Suc d) xs
      else if st = SClose then (case d of 0 \<Rightarrow> None | Suc d' \<Rightarrow> find_label P d' xs)
      else if d = 0 \<and> P st then Some xs
      else find_label P d xs)"

definition case_matches :: "layout \<Rightarrow> machine \<Rightarrow> int \<Rightarrow> stmt \<Rightarrow> bool" where
  "case_matches L m v st =
     (case st of SCase e s \<Rightarrow> eval_expr L (mc_mem m) (mc_unit m) e = Some v | _ \<Rightarrow> False)"

definition select :: "layout \<Rightarrow> machine \<Rightarrow> int \<Rightarrow> stmt list \<Rightarrow> stmt list" where
  "select L m v xs =
     (case find_label (case_matches L m v) 0 xs of
        Some ys \<Rightarrow> ys
      | None \<Rightarrow> (case find_label (\<lambda>st. st = SDefault) 0 xs of Some ys \<Rightarrow> ys | None \<Rightarrow> leave 0 xs))"

definition is_done :: "ParseResult + SerializeResult \<Rightarrow> bool" where
  "is_done r \<longleftrightarrow> r = Inl P_DONE \<or> r = Inr S_DONE"

text \<open>The unit is allocated through the pointer in the block state.\<close>

definition allocate_unit :: "layout \<Rightarrow> machine \<Rightarrow> (bool \<times> machine) option" where
  "allocate_unit L m =
     (case mc_blocks m of
        [] \<Rightarrow> None
      | u # us \<Rightarrow>
          (case allocate_item (mc_area m) (of_nat (ly_size L)) u of
             (ok, u', area) \<Rightarrow> Some (ok, m\<lparr>mc_blocks := u' # us, mc_area := area\<rparr>)))"

datatype outcome = Goto "stmt list" machine | Return "ParseResult + SerializeResult" machine | Undefined

definition transfer :: "layout \<Rightarrow> addr \<Rightarrow> addr \<Rightarrow> stmt \<Rightarrow> stmt list \<Rightarrow> machine \<Rightarrow> outcome" where
  "transfer L start fin st rest m =
     (case st of
        SIfInstruction \<Rightarrow> Goto (if mc_instr m = None then after (\<lambda>st. st = SClose) rest else rest) m
      | SGotoInstruction \<Rightarrow>
          (case mc_instr m of None \<Rightarrow> Undefined | Some l \<Rightarrow> Goto (after (\<lambda>st. st = SLabel l) rest) m)
      | SIfNotAllocate p \<Rightarrow>
          (case allocate_unit L m of None \<Rightarrow> Undefined | Some (ok, m') \<Rightarrow> Goto (if ok then tl rest else rest) m')
      | SIfNotDone var ty \<Rightarrow> Goto (if is_done (mc_res m) then tl rest else rest) m
      | SSwitch e s \<Rightarrow>
          (case eval_expr L (mc_mem m) (mc_unit m) e of None \<Rightarrow> Undefined | Some v \<Rightarrow> Goto (select L m v rest) m)
      | SBreak \<Rightarrow> Goto (leave 0 rest) m
      | SReturnAreaFull \<Rightarrow> Return (Inl P_AREA_FULL) m
      | SReturnRes var \<Rightarrow> Return (mc_res m) m
      | SReturnDone ty \<Rightarrow>
          Return (if ty = ''dr::parsing::ParseResult'' then Inl P_DONE else Inr S_DONE) m
      | _ \<Rightarrow> (case step L start fin st m of None \<Rightarrow> Undefined | Some m' \<Rightarrow> Goto rest m'))"

lemma after_length: "length (after P xs) \<le> length xs"
  using length_dropWhile_le[of "\<lambda>st. \<not> P st" xs] by (simp add: after_def)

lemma leave_length: "length (leave d xs) \<le> length xs"
  by (induction d xs rule: leave.induct) (auto split: nat.split)

lemma find_label_length: "find_label P d xs = Some ys \<Longrightarrow> length ys \<le> length xs"
  by (induction P d xs rule: find_label.induct) (auto split: nat.splits if_splits)

lemma select_length: "length (select L m v xs) \<le> length xs"
  using leave_length[of 0 xs] by (auto simp: select_def split: option.split dest: find_label_length)

lemma transfer_length: "transfer L start fin st rest m = Goto rest' m' \<Longrightarrow> length rest' \<le> length rest"
  using after_length select_length leave_length
  by (cases st) (auto simp: transfer_def split: option.splits if_splits)

function exec :: "layout \<Rightarrow> addr \<Rightarrow> addr \<Rightarrow> stmt list \<Rightarrow> machine \<Rightarrow> ((ParseResult + SerializeResult) \<times> machine) option" where
  "exec L start fin [] m = None"
| "exec L start fin (st # rest) m =
     (case transfer L start fin st rest m of
        Undefined \<Rightarrow> None
      | Return r m' \<Rightarrow> Some (r, m')
      | Goto rest' m' \<Rightarrow> exec L start fin rest' m')"
  by pat_completeness auto
termination
  by (relation "measure (\<lambda>(L, start, fin, xs, m). length xs)") (auto dest: transfer_length)

lemma tl_set: "set (tl xs) \<subseteq> set xs"
  by (cases xs) auto

lemma after_set: "set (after P xs) \<subseteq> set xs"
  using tl_set[of "dropWhile (\<lambda>st. \<not> P st) xs"] by (auto simp: after_def dest: set_dropWhileD)

lemma leave_set: "set (leave d xs) \<subseteq> set xs"
  by (induction d xs rule: leave.induct) (auto split: nat.splits)

lemma find_label_set: "find_label P d xs = Some ys \<Longrightarrow> set ys \<subseteq> set xs"
  by (induction P d xs rule: find_label.induct) (auto split: nat.splits if_splits)

lemma select_set: "set (select L m v xs) \<subseteq> set xs"
  using leave_set[of 0 xs] by (auto simp: select_def split: option.split dest: find_label_set)

lemma transfer_set: "transfer L start fin st rest m = Goto rest' m' \<Longrightarrow> set rest' \<subseteq> set rest"
  using after_set[of _ rest] select_set[of L m _ rest] leave_set[of 0 rest] tl_set[of rest]
  by (cases st) (simp_all add: transfer_def split: option.splits if_splits prod.splits, auto)

lemma step_space: "step L start fin st m = Some m' \<Longrightarrow> st \<noteq> SPush \<Longrightarrow> mc_space m' = mc_space m"
proof (cases st)
  case (SUpdateLen e s)
  then show "step L start fin st m = Some m' \<Longrightarrow> ?thesis"
    by (cases e) (auto simp: step_def store_member_def split: option.splits if_splits)
qed (auto simp: step_def store_member_def bind_eq_Some_conv Let_def case_prod_beta split: list.splits)

text \<open>Only a push takes room on the stack of the parser state.\<close>

lemma exec_space: "exec L start fin xs m = Some (r, m') \<Longrightarrow> SPush \<notin> set xs \<Longrightarrow> mc_space m' = mc_space m"
proof (induction L start fin xs m rule: exec.induct)
  case (2 L start fin st rest m)
  show ?case
  proof (cases "transfer L start fin st rest m")
    case (Goto rest' m1)
    have "mc_space m1 = mc_space m"
      using Goto 2(3) step_space[of L start fin st m m1]
      by (cases st) (auto simp: transfer_def allocate_unit_def split: option.splits list.splits prod.splits)
    moreover have "SPush \<notin> set rest'" using transfer_set[OF Goto] 2(3) by auto
    ultimately show ?thesis using 2(1)[OF Goto] 2(2) Goto by simp
  next
    case (Return r' m1)
    have "mc_space m1 = mc_space m"
      using Return by (cases st) (auto simp: transfer_def split: option.splits prod.splits)
    then show ?thesis using 2(2) Return by simp
  qed (use 2(2) in simp)
qed simp

text \<open>Calling the function again, with more and more input, as long as it asks for more.\<close>

fun feed :: "layout \<Rightarrow> addr \<Rightarrow> stmt list \<Rightarrow> addr list \<Rightarrow> machine \<Rightarrow> ((ParseResult + SerializeResult) \<times> machine) option" where
  "feed L start code [] m = None"
| "feed L start code (fin # fins) m =
     (case exec L start fin code m of
        None \<Rightarrow> None
      | Some (r, m') \<Rightarrow> if r = Inl P_OUT_OF_DATA \<and> fins \<noteq> [] then feed L start code fins m' else Some (r, m'))"

end
