(* ===== verification/Gen_Resume.thy ===== *)
theory Gen_Resume
  imports Gen_Labels Gen_Exec "HOL-Library.Sublist"
begin

text \<open>
  Incremental parsing.  A generated parser that runs out of input returns, and is called again when
  more input has arrived: it jumps to the label it had reached and goes on.  The lemmas show that the
  run which is interrupted and the run that has all of the input go through the same states, and that
  repeating the interrupted instruction does no harm.
\<close>

section \<open>Code that can be resumed\<close>

text \<open>Every suffix of a generated function that control can reach.\<close>

inductive good :: "(string \<Rightarrow> expr \<Rightarrow> bool) \<Rightarrow> stmt list \<Rightarrow> bool" for ok where
  good_nil: "good ok []"
| good_end: "good ok [SCountBytes v b, SReturnDone t]"
| good_block: "parse_leaf ok (\<lambda>_. False) B \<Longrightarrow> good ok R \<Longrightarrow> good ok (SLabel l # SAdvance l # B @ R)"
| good_switch: "good ok R \<Longrightarrow> good ok (SLabel l # SAdvance l # SSwitch e s # R)"
| good_case: "is_case st \<Longrightarrow> good ok R \<Longrightarrow> good ok (st # R)"
| good_close: "good ok R \<Longrightarrow> good ok (SClose # R)"
| good_break: "good ok R \<Longrightarrow> good ok (SBreak # R)"

lemma good_cases: "\<forall>st\<in>set C. is_case st \<Longrightarrow> good ok R \<Longrightarrow> good ok (C @ R)"
  by (induction C) (auto intro: good_case)

lemma instrs_good:
  "instrs (parse_leaf ok (\<lambda>_. False)) (\<lambda>_. False) k B k' \<Longrightarrow> good ok R \<Longrightarrow> good ok (B @ R)"
  "selection (parse_leaf ok (\<lambda>_. False)) (\<lambda>_. False) k B k' \<Longrightarrow> good ok R \<Longrightarrow> good ok (B @ R)"
proof (induction arbitrary: R and R rule: instrs_selection.inducts)
  case (instrs_field B k R' k' l d)
  then show ?case using good_block[OF instrs_field(1)] by simp
next
  case (instrs_switch k B k' R' k'' l d e s)
  then show ?case using good_switch good_close by simp
next
  case (selection_case C k B k' R' k'')
  then show ?case using good_cases[OF selection_case(1)] good_break by simp
qed simp_all

lemma not_case [simp]:
  "\<not> is_case (SCountBytes v b)" "\<not> is_case (SReturnDone t)" "\<not> is_case (SLabel l)" "\<not> is_case (SAdvance l)"
  "\<not> is_case SBreak" "\<not> is_case SClose" "\<not> is_case (SSwitch e s)"
  by (simp_all add: is_case_def)

text \<open>The code of an item has no label, case or brace, so jumps pass over it.\<close>

fun straight :: "stmt \<Rightarrow> bool" where
  "straight (SSwitch e s) = False"
| "straight SClose = False"
| "straight (SCase e s) = False"
| "straight SDefault = False"
| "straight st = True"

lemma straight_jumps:
  assumes "\<forall>st\<in>set B. straight st"
  shows "leave d (B @ R) = leave d R" and "(\<And>st. P st \<Longrightarrow> is_case st) \<Longrightarrow> find_label P d (B @ R) = find_label P d R"
proof -
  have "\<not> is_switch st" "st \<noteq> SClose" "\<not> is_case st" if "straight st" for st
    using that by (cases st; simp add: is_case_def)+
  then show "leave d (B @ R) = leave d R" "(\<And>st. P st \<Longrightarrow> is_case st) \<Longrightarrow> find_label P d (B @ R) = find_label P d R"
    using assms by (induction B) auto
qed

lemma leaf_straight: "parse_leaf ok okt B \<Longrightarrow> \<forall>st\<in>set B. straight st"
  by (erule parse_leaf.cases) (auto elim!: parse_prim.cases)

lemma is_case_simps: "is_case st \<Longrightarrow> \<not> is_switch st \<and> st \<noteq> SClose"
  by (cases st) (simp_all add: is_case_def)

lemma good_leave: "good ok S \<Longrightarrow> good ok (leave d S)"
  by (induction arbitrary: d rule: good.induct)
     (auto simp: straight_jumps(1)[OF leaf_straight] dest!: is_case_simps intro: good.intros split: nat.split)

lemma good_find_label: "good ok S \<Longrightarrow> find_label P d S = Some ys \<Longrightarrow> (\<And>st. P st \<Longrightarrow> is_case st) \<Longrightarrow> good ok ys"
proof (induction arbitrary: d rule: good.induct)
  case (good_end v b t)
  then show ?case by (auto split: if_splits nat.splits dest!: good_end(2))
next
  case (good_block B R l)
  have "find_label P d (B @ R) = Some ys"
    using good_block(4) by (auto split: if_splits dest!: good_block(5))
  then show ?case using straight_jumps(2)[OF leaf_straight[OF good_block(1)] good_block(5)] good_block(3,5) by simp
next
  case (good_switch R l e s)
  then show ?case by (auto split: if_splits dest!: good_switch(4))
next
  case (good_case st R)
  then show ?case using is_case_simps[of st] by (auto split: if_splits)
next
  case (good_close R)
  then show ?case by (auto split: nat.splits)
next
  case (good_break R)
  then show ?case by (auto split: if_splits dest!: good_break(4))
qed simp

lemma case_matches_case: "case_matches L m v st \<Longrightarrow> is_case st" "st = SDefault \<Longrightarrow> is_case st"
  by (cases st; simp add: case_matches_def is_case_def)+

lemma good_select:
  assumes "good ok S"
  shows "good ok (select L m v S)"
proof (cases "find_label (case_matches L m v) 0 S")
  case (Some ys)
  then show ?thesis using good_find_label[OF assms Some case_matches_case(1)] by (simp add: select_def)
next
  case None
  show ?thesis
  proof (cases "find_label (\<lambda>st. st = SDefault) 0 S")
    case (Some ys)
    then show ?thesis using None good_find_label[OF assms Some case_matches_case(2)] by (simp add: select_def)
  qed (simp add: None select_def good_leave[OF assms])
qed

section \<open>Running in step\<close>

text \<open>With more input behind the same position the primitives that succeed do the same.\<close>

definition inside :: "addr \<Rightarrow> addr \<Rightarrow> machine \<Rightarrow> bool" where
  "inside start fin m \<longleftrightarrow> start \<le> mc_pos m \<and> mc_pos m \<le> fin"

definition more_input :: "addr \<Rightarrow> addr \<Rightarrow> addr \<Rightarrow> bool" where
  "more_input start fin fin2 \<longleftrightarrow> start \<le> fin \<and> fin \<le> fin2 \<and> room start fin2 < 2 ^ 63"

lemma room_sub: "p \<le> f \<Longrightarrow> room p f = unat f - unat p"
  by (simp add: room_def unat_sub)

lemma room_more:
  assumes "start \<le> p" "p \<le> fin" "more_input start fin fin2"
  shows "room p fin \<le> room p fin2" "room p fin < 2 ^ 63" "room p fin2 < 2 ^ 63" "p \<le> fin2"
proof -
  show le: "p \<le> fin2" using assms by (auto simp: more_input_def)
  have "unat start \<le> unat p" "unat p \<le> unat fin" "unat fin \<le> unat fin2" "start \<le> fin2"
    using assms by (auto simp: more_input_def word_le_nat_alt)
  then show "room p fin \<le> room p fin2" "room p fin < 2 ^ 63" "room p fin2 < 2 ^ 63"
    using room_sub[of p fin] room_sub[of p fin2] room_sub[of start fin2] assms le by (auto simp: more_input_def)
qed

text \<open>\<open>lock\<close> relates a run on the shorter input to the run on the longer one: they end alike, or the first
  stops for want of data in a state from which the second can be reached by a jump to the stored label.\<close>

definition lock :: "layout \<Rightarrow> addr \<Rightarrow> addr \<Rightarrow> addr \<Rightarrow> stmt list \<Rightarrow> stmt list \<Rightarrow> machine \<Rightarrow> bool" where
  "lock L start fin fin2 tail S m \<longleftrightarrow>
     (case exec L start fin S m of
        None \<Rightarrow> exec L start fin2 S m = None
      | Some (r, m1) \<Rightarrow>
          if r \<noteq> Inl P_OUT_OF_DATA then exec L start fin2 S m = Some (r, m1)
          else mc_blocks m1 = mc_blocks m \<and> mc_unit m1 = mc_unit m \<and> inside start fin m1 \<and>
               (\<exists>l. mc_instr m1 = Some l \<and>
                    exec L start fin2 (after (\<lambda>st. st = SLabel l) tail) m1 = exec L start fin2 S m))"

lemma lock_cong:
  assumes "exec L start fin S m = exec L start fin S' m'" "exec L start fin2 S m = exec L start fin2 S' m'"
    and "mc_blocks m' = mc_blocks m" "mc_unit m' = mc_unit m" and "lock L start fin fin2 tail S' m'"
  shows "lock L start fin fin2 tail S m"
  using assms(5) unfolding lock_def assms(1-4) .

lemma lock_goto:
  assumes "transfer L start fin st rest m = Goto rest' m'" "transfer L start fin2 st rest m = Goto rest' m'"
    and "mc_blocks m' = mc_blocks m" "mc_unit m' = mc_unit m" and "lock L start fin fin2 tail rest' m'"
  shows "lock L start fin fin2 tail (st # rest) m"
  by (rule lock_cong[OF _ _ assms(3-5)]) (simp_all add: assms(1,2))

lemma lock_undefined:
  assumes "transfer L start fin st rest m = Undefined" "transfer L start fin2 st rest m = Undefined"
  shows "lock L start fin fin2 tail (st # rest) m"
  using assms by (simp add: lock_def)

section \<open>One instruction\<close>

lemma store_bytes_load: "n \<le> 2 ^ 64 \<Longrightarrow> store_bytes m a (load_bytes m a n) = m"
proof (rule ext)
  fix x assume n: "n \<le> 2 ^ 64"
  show "store_bytes m a (load_bytes m a n) x = m x"
  proof (cases "x \<in> range_of a n")
    case True
    then obtain i where "i < n" "x = a + of_nat i" by (auto simp: mem_range_of)
    then show ?thesis using store_bytes_inside[of "load_bytes m a n" i m a] n by simp
  qed (simp add: store_bytes_outside)
qed

lemma store_bytes_twice:
  assumes "length bs = length cs" "length bs \<le> 2 ^ 64"
  shows "store_bytes (store_bytes m a bs) a cs = store_bytes m a cs"
proof (rule ext)
  fix x show "store_bytes (store_bytes m a bs) a cs x = store_bytes m a cs x"
  proof (cases "x \<in> range_of a (length cs)")
    case True
    then obtain i where "i < length cs" "x = a + of_nat i" by (auto simp: mem_range_of)
    then show ?thesis using store_bytes_inside[of cs i _ a] assms by simp
  qed (use assms in \<open>simp add: store_bytes_outside\<close>)
qed

lemma store_word_load: "store_word m a (load_word m a :: 64 word) = m"
  using store_load_word[of m a a, where 'a = 64] store_bytes_load[of 8 m a] by simp

lemma store_word_twice: "store_word (store_word m a (v :: 64 word)) a (w :: 64 word) = store_word m a w"
  by (simp add: store_word_def store_bytes_twice)

lemma store_word_swap:
  assumes "disjoint_ranges a 8 b 8"
  shows "store_word (store_word m a (v :: 64 word)) b (w :: 64 word) = store_word (store_word m b w) a v"
proof (rule ext)
  fix x
  have inside: "store_word m' a v x = store_word m'' a v x" if "x \<in> range_of a 8" for m' m'' a and v :: "64 word"
    using that store_bytes_inside[of "le_of_word 8 v" _ _ a] by (auto simp: mem_range_of store_word_def)
  show "store_word (store_word m a v) b w x = store_word (store_word m b w) a v x"
  proof (cases "x \<in> range_of b 8")
    case True
    then have "x \<notin> range_of a 8" using assms by (auto simp: disjoint_ranges_def)
    then show ?thesis using inside[OF True] by (simp add: store_word_outside)
  next
    case False
    then show ?thesis
      using inside[where a = a and v = v and m' = m and m'' = "store_word m b w"]
      by (cases "x \<in> range_of a 8") (simp_all add: store_word_outside)
  qed
qed

lemma machine_update_same [simp]:
  "m\<lparr>mc_pos := mc_pos m\<rparr> = m" "m\<lparr>mc_mem := mc_mem m\<rparr> = m" "m\<lparr>mc_area := mc_area m\<rparr> = m"
  "m\<lparr>mc_unit := mc_unit m\<rparr> = m" "m\<lparr>mc_pos := mc_pos m, mc_mem := x\<rparr> = m\<lparr>mc_mem := x\<rparr>"
  "m\<lparr>mc_area := mc_area m, mc_mem := x\<rparr> = m\<lparr>mc_mem := x\<rparr>"
  by (cases m; simp)+

lemma exec_int:
  "exec L start fin (SParseInt w sg bo # SIfNotDone v t # SReturnRes v' # K) m =
     (case width_of_bits w of None \<Rightarrow> None | Some w' \<Rightarrow>
      case order_of_label bo of None \<Rightarrow> None | Some bo' \<Rightarrow>
      if room (mc_pos m) fin < width_bytes w' then Some (Inl P_OUT_OF_DATA, m\<lparr>mc_res := Inl P_OUT_OF_DATA\<rparr>)
      else exec L start fin K (m\<lparr>mc_res := Inl P_DONE, mc_pos := mc_pos m + of_nat (width_bytes w'),
             mc_mem := store_bytes (mc_mem m) (mc_ptr m) (reorder bo' (load_bytes (mc_mem m) (mc_pos m) (width_bytes w')))\<rparr>))"
  by (cases m) (auto simp: transfer_def step_def parseInt_spec is_done_def split: option.split)

definition bytes_type :: "string \<Rightarrow> bool" where
  "bytes_type ty \<longleftrightarrow> ty = ''var_bytes'' \<or> ty = ''var_string''"

lemma bytes_type_at: "bytes_type ty \<Longrightarrow> len_at ty p = p" "bytes_type ty \<Longrightarrow> data_at ty p = p + 8"
  by (auto simp: bytes_type_def len_at_def data_at_def)

lemma two_words: "disjoint_ranges p 8 (p + 8) 8"
  using disjoint_prefix[of 8 8 p] by (simp add: disjoint_ranges_def)

lemma load_word_store_word [simp]: "load_word (store_word m a (v :: 64 word)) a = (v :: 64 word)"
  by (simp add: load_store_word)

lemma load_word_other:
  "disjoint_ranges a 8 b 8 \<Longrightarrow> load_word (store_word m b (v :: 64 word)) a = (load_word m a :: 64 word)"
  by (simp add: load_word_def load_bytes_store_word_disjoint)

lemma second_word [simp]: "load_word (store_word (store_word m (p + 8) (v :: 64 word)) p (w :: 64 word)) (p + 8) = v"
  using load_word_other[of "p + 8" p] two_words[of p] disjoint_ranges_sym[of p 8 "p + 8" 8] by simp

lemma exec_copy:
  assumes "room (mc_pos m) fin < 2 ^ 63" and ty: "bytes_type ty"
  shows "exec L start fin (SSetLen ty e x # SCopyIn ty # SIfNotDone v t # SReturnRes v' # K) m =
     (case eval_expr L (mc_mem m) (mc_unit m) e of None \<Rightarrow> None | Some n \<Rightarrow>
      let len = word_of_int n :: size_t; mem1 = store_word (mc_mem m) (mc_ptr m) len
      in if 2 ^ 63 \<le> unat len then None
         else if room (mc_pos m) fin < unat len then Some (Inl P_OUT_OF_DATA, m\<lparr>mc_res := Inl P_OUT_OF_DATA, mc_mem := mem1\<rparr>)
         else if area_space (mc_area m) < len then Some (Inl P_AREA_FULL, m\<lparr>mc_res := Inl P_AREA_FULL, mc_mem := mem1\<rparr>)
         else exec L start fin K (m\<lparr>mc_res := Inl P_DONE, mc_pos := mc_pos m + len,
                mc_area := (mc_area m)\<lparr>nextAllocPos := nextAllocPos (mc_area m) + len\<rparr>,
                mc_mem := store_word (memcpy mem1 (nextAllocPos (mc_area m)) (mc_pos m) len) (mc_ptr m + 8) (nextAllocPos (mc_area m))\<rparr>))"
proof (cases "eval_expr L (mc_mem m) (mc_unit m) e")
  case None
  then show ?thesis by (simp add: transfer_def step_def)
next
  case (Some n)
  then show ?thesis using assms(1)
    by (cases m) (simp add: transfer_def step_def Let_def load_len_def bytes_type_at[OF ty] allocateCopyBytes_cases is_done_def store_word_load not_le)
qed

lemma exec_range:
  assumes "room (mc_pos m) fin < 2 ^ 63"
  shows "exec L start fin (SSetLen ''var_stream_range'' e x # SRangeStart # SSkipRange # SIfNotDone v t # SReturnRes v' # K) m =
     (case eval_expr L (mc_mem m) (mc_unit m) e of None \<Rightarrow> None | Some n \<Rightarrow>
      let len = word_of_int n :: size_t; mem1 = store_word (store_word (mc_mem m) (mc_ptr m + 8) len) (mc_ptr m) (mc_pos m)
      in if 2 ^ 63 \<le> unat len then None
         else if room (mc_pos m) fin < unat len then Some (Inl P_OUT_OF_DATA, m\<lparr>mc_res := Inl P_OUT_OF_DATA, mc_mem := mem1\<rparr>)
         else exec L start fin K (m\<lparr>mc_res := Inl P_DONE, mc_pos := mc_pos m + len, mc_mem := mem1\<rparr>))"
proof (cases "eval_expr L (mc_mem m) (mc_unit m) e")
  case None
  then show ?thesis by (simp add: transfer_def step_def)
next
  case (Some n)
  show ?thesis using assms Some sint_less_room[OF assms]
    by (cases m) (simp add: transfer_def step_def Let_def load_len_def len_at_def data_at_def advance_def is_done_def not_le)
qed

declare exec.simps(2) [simp del]

lemma machine_again [simp]:
  "m\<lparr>mc_instr := i, mc_ptr := p, mc_res := r, mc_instr := i, mc_ptr := p\<rparr> = m\<lparr>mc_instr := i, mc_ptr := p, mc_res := r\<rparr>"
  "m\<lparr>mc_mem := x, mc_instr := i, mc_ptr := p, mc_res := r, mc_instr := i, mc_ptr := p\<rparr> =
     m\<lparr>mc_mem := x, mc_instr := i, mc_ptr := p, mc_res := r\<rparr>"
  by simp_all

lemma lock_return:
  assumes "exec L start fin S m = Some (Inl P_OUT_OF_DATA, m1)"
    and "mc_blocks m1 = mc_blocks m" "mc_unit m1 = mc_unit m" "inside start fin m1" "mc_instr m1 = Some l"
    and "exec L start fin2 (after (\<lambda>st. st = SLabel l) tail) m1 = exec L start fin2 S m"
  shows "lock L start fin fin2 tail S m"
  using assms by (simp add: lock_def)

lemma lock_none: "exec L start fin S m = None \<Longrightarrow> exec L start fin2 S m = None \<Longrightarrow> lock L start fin fin2 tail S m"
  by (simp add: lock_def)

lemma lock_some:
  "exec L start fin S m = Some (r, m1) \<Longrightarrow> exec L start fin2 S m = Some (r, m1) \<Longrightarrow> r \<noteq> Inl P_OUT_OF_DATA \<Longrightarrow>
     lock L start fin fin2 tail S m"
  by (simp add: lock_def)

lemma inside_advance:
  "inside start fin m \<Longrightarrow> n \<le> room (mc_pos m) fin \<Longrightarrow> mc_pos m' = mc_pos m + of_nat n \<Longrightarrow> inside start fin m'"
  using position_in_buffer[of "mc_pos m" fin n] by (auto simp: inside_def)

lemma lock_int:
  assumes dest: "\<And>f m'. mc_unit m' = mc_unit m \<Longrightarrow> exec L start f (SAdvance l # D # P @ K) m' =
      exec L start f (P @ K) (m'\<lparr>mc_instr := Some l, mc_ptr := p\<rparr>)"
    and P: "P = SParseInt w sg bo # check_parse"
    and tail: "after (\<lambda>st. st = SLabel l) tail = SAdvance l # D # P @ K"
    and pos: "inside start fin m" "more_input start fin fin2"
    and rest: "\<And>m'. inside start fin m' \<Longrightarrow> mc_unit m' = mc_unit m \<Longrightarrow> lock L start fin fin2 tail K m'"
  shows "lock L start fin fin2 tail (SLabel l # SAdvance l # D # P @ K) m"
proof -
  let ?S = "SLabel l # SAdvance l # D # P @ K" and ?M = "m\<lparr>mc_instr := Some l, mc_ptr := p\<rparr>"
  have ex: "exec L start f ?S m = exec L start f (P @ K) ?M" for f
    using dest[of m f] by (simp add: exec.simps(2)[of L start f "SLabel l"] transfer_def step_def)
  have in_P: "exec L start f (P @ K) = exec L start f (SParseInt w sg bo # SIfNotDone ''parse_res'' parse_result # SReturnRes ''parse_res'' # K)" for f
    by (simp add: P)
  note room = room_more[of start "mc_pos m" fin fin2]
  show ?thesis
  proof (cases "width_of_bits w = None \<or> order_of_label bo = None")
    case True
    then show ?thesis by (intro lock_none) (auto simp: ex in_P exec_int split: option.splits)
  next
    case False
    then obtain w' bo' where wb: "width_of_bits w = Some w'" "order_of_label bo = Some bo'" by auto
    show ?thesis
    proof (cases "room (mc_pos m) fin < width_bytes w'")
      case True
      show ?thesis
        by (rule lock_return[where l = l and ?m1.0 = "?M\<lparr>mc_res := Inl P_OUT_OF_DATA\<rparr>"])
           (use True pos dest[of "?M\<lparr>mc_res := Inl P_OUT_OF_DATA\<rparr>" fin2] in
             \<open>simp_all add: ex in_P exec_int wb inside_def tail\<close>)
    next
      case False
      let ?m' = "?M\<lparr>mc_res := Inl P_DONE, mc_pos := mc_pos m + of_nat (width_bytes w'),
         mc_mem := store_bytes (mc_mem m) p (reorder bo' (load_bytes (mc_mem m) (mc_pos m) (width_bytes w')))\<rparr>"
      have "inside start fin ?m'" by (rule inside_advance[OF pos(1), of "width_bytes w'"]) (use False in simp_all)
      then show ?thesis
        by (intro lock_cong[OF _ _ _ _ rest[of ?m']]) (use False pos room in \<open>simp_all add: ex in_P exec_int wb inside_def\<close>)
    qed
  qed
qed

lemma lock_copy:
  assumes dest: "\<And>f m'. mc_unit m' = mc_unit m \<Longrightarrow> exec L start f (SAdvance l # D # P @ K) m' =
      exec L start f (P @ K) (m'\<lparr>mc_instr := Some l, mc_ptr := p\<rparr>)"
    and P: "P = SSetLen ty e x # SCopyIn ty # check_parse" "bytes_type ty"
    and len: "\<And>mem mem'. (\<forall>y. y \<notin> range_of p 16 \<longrightarrow> mem' y = mem y) \<Longrightarrow>
      eval_expr L mem' (mc_unit m) e = eval_expr L mem (mc_unit m) e"
    and tail: "after (\<lambda>st. st = SLabel l) tail = SAdvance l # D # P @ K"
    and pos: "inside start fin m" "more_input start fin fin2"
    and rest: "\<And>m'. inside start fin m' \<Longrightarrow> mc_unit m' = mc_unit m \<Longrightarrow> lock L start fin fin2 tail K m'"
  shows "lock L start fin fin2 tail (SLabel l # SAdvance l # D # P @ K) m"
proof -
  let ?S = "SLabel l # SAdvance l # D # P @ K" and ?M = "m\<lparr>mc_instr := Some l, mc_ptr := p\<rparr>"
  have ex: "exec L start f ?S m = exec L start f (P @ K) ?M" for f
    using dest[of m f] by (simp add: exec.simps(2)[of L start f "SLabel l"] transfer_def step_def)
  have in_P: "exec L start f (P @ K) = exec L start f (SSetLen ty e x # SCopyIn ty # SIfNotDone ''parse_res'' parse_result # SReturnRes ''parse_res'' # K)" for f
    by (simp add: P)
  have room: "room (mc_pos m) fin \<le> room (mc_pos m) fin2" "room (mc_pos m) fin < 2 ^ 63" "room (mc_pos m) fin2 < 2 ^ 63"
    using room_more[of start "mc_pos m" fin fin2] pos by (auto simp: inside_def)
  note copy = exec_copy[OF _ P(2)]
  show ?thesis
  proof (cases "eval_expr L (mc_mem m) (mc_unit m) e")
    case None
    then show ?thesis using room by (intro lock_none) (simp_all add: ex in_P copy)
  next
    case (Some n)
    let ?len = "word_of_int n :: size_t" and ?mem = "store_word (mc_mem m) p (word_of_int n :: size_t)"
    have "\<forall>y. y \<notin> range_of p 16 \<longrightarrow> ?mem y = mc_mem m y"
      using range_of_mono[of 8 16 p] by (auto simp: store_word_outside subset_eq)
    then have again: "eval_expr L ?mem (mc_unit m) e = Some n" using len[of ?mem "mc_mem m"] Some by simp
    consider "2 ^ 63 \<le> unat ?len" | "unat ?len < 2 ^ 63" "room (mc_pos m) fin < unat ?len"
      | "unat ?len < 2 ^ 63" "unat ?len \<le> room (mc_pos m) fin" "area_space (mc_area m) < ?len"
      | "unat ?len < 2 ^ 63" "unat ?len \<le> room (mc_pos m) fin" "\<not> area_space (mc_area m) < ?len" by linarith
    then show ?thesis
    proof cases
      case 1
      then show ?thesis using room by (intro lock_none) (simp_all add: ex in_P copy Some)
    next
      case 2
      let ?m1 = "?M\<lparr>mc_res := Inl P_OUT_OF_DATA, mc_mem := ?mem\<rparr>"
      show ?thesis
        by (rule lock_return[where l = l and ?m1.0 = ?m1])
           (use 2 pos(1) room dest[of ?m1 fin2] Some again in
             \<open>simp_all add: ex in_P copy inside_def tail Let_def store_word_twice\<close>)
    next
      case 3
      then show ?thesis using room by (intro lock_some[where r = "Inl P_AREA_FULL"]) (auto simp: ex in_P copy Some Let_def)
    next
      case 4
      let ?m' = "?M\<lparr>mc_res := Inl P_DONE, mc_pos := mc_pos m + ?len,
         mc_area := (mc_area m)\<lparr>nextAllocPos := nextAllocPos (mc_area m) + ?len\<rparr>,
         mc_mem := store_word (memcpy ?mem (nextAllocPos (mc_area m)) (mc_pos m) ?len) (p + 8) (nextAllocPos (mc_area m))\<rparr>"
      have "inside start fin ?m'" by (rule inside_advance[OF pos(1), of "unat ?len"]) (use 4 in simp_all)
      then show ?thesis
        by (intro lock_cong[OF _ _ _ _ rest[of ?m']]) (use 4 room in \<open>simp_all add: ex in_P copy Some Let_def\<close>)
    qed
  qed
qed

lemma lock_range:
  assumes dest: "\<And>f m'. mc_unit m' = mc_unit m \<Longrightarrow> exec L start f (SAdvance l # D # P @ K) m' =
      exec L start f (P @ K) (m'\<lparr>mc_instr := Some l, mc_ptr := p\<rparr>)"
    and P: "P = SSetLen ''var_stream_range'' e x # SRangeStart # SSkipRange # check_parse"
    and len: "\<And>mem mem'. (\<forall>y. y \<notin> range_of p 16 \<longrightarrow> mem' y = mem y) \<Longrightarrow>
      eval_expr L mem' (mc_unit m) e = eval_expr L mem (mc_unit m) e"
    and tail: "after (\<lambda>st. st = SLabel l) tail = SAdvance l # D # P @ K"
    and pos: "inside start fin m" "more_input start fin fin2"
    and rest: "\<And>m'. inside start fin m' \<Longrightarrow> mc_unit m' = mc_unit m \<Longrightarrow> lock L start fin fin2 tail K m'"
  shows "lock L start fin fin2 tail (SLabel l # SAdvance l # D # P @ K) m"
proof -
  let ?S = "SLabel l # SAdvance l # D # P @ K" and ?M = "m\<lparr>mc_instr := Some l, mc_ptr := p\<rparr>"
  have ex: "exec L start f ?S m = exec L start f (P @ K) ?M" for f
    using dest[of m f] by (simp add: exec.simps(2)[of L start f "SLabel l"] transfer_def step_def)
  have in_P: "exec L start f (P @ K) = exec L start f (SSetLen ''var_stream_range'' e x # SRangeStart # SSkipRange # SIfNotDone ''parse_res'' parse_result # SReturnRes ''parse_res'' # K)" for f
    by (simp add: P)
  have room: "room (mc_pos m) fin \<le> room (mc_pos m) fin2" "room (mc_pos m) fin < 2 ^ 63" "room (mc_pos m) fin2 < 2 ^ 63"
    using room_more[of start "mc_pos m" fin fin2] pos by (auto simp: inside_def)
  show ?thesis
  proof (cases "eval_expr L (mc_mem m) (mc_unit m) e")
    case None
    then show ?thesis using room by (intro lock_none) (simp_all add: ex in_P exec_range)
  next
    case (Some n)
    let ?len = "word_of_int n :: size_t" and ?mem = "store_word (store_word (mc_mem m) (p + 8) (word_of_int n :: size_t)) p (mc_pos m)"
    have "range_of p 16 = range_of p 8 \<union> range_of (p + 8) 8" using range_of_add[of p 8 8] by simp
    then have "\<forall>y. y \<notin> range_of p 16 \<longrightarrow> ?mem y = mc_mem m y" by (simp add: store_word_outside)
    then have again: "eval_expr L ?mem (mc_unit m) e = Some n" using len[of ?mem "mc_mem m"] Some by simp
    have twice: "store_word (store_word ?mem (p + 8) ?len) p (mc_pos m) = ?mem"
      using store_word_swap[OF two_words[of p]] by (simp add: store_word_twice)
    consider "2 ^ 63 \<le> unat ?len" | "unat ?len < 2 ^ 63" "room (mc_pos m) fin < unat ?len"
      | "unat ?len < 2 ^ 63" "unat ?len \<le> room (mc_pos m) fin" by linarith
    then show ?thesis
    proof cases
      case 1
      then show ?thesis using room by (intro lock_none) (simp_all add: ex in_P exec_range Some)
    next
      case 2
      let ?m1 = "?M\<lparr>mc_res := Inl P_OUT_OF_DATA, mc_mem := ?mem\<rparr>"
      show ?thesis
        by (rule lock_return[where l = l and ?m1.0 = ?m1])
           (use 2 pos(1) room dest[of ?m1 fin2] Some again in
             \<open>simp_all add: ex in_P exec_range inside_def tail Let_def twice\<close>)
    next
      case 3
      let ?m' = "?M\<lparr>mc_res := Inl P_DONE, mc_pos := mc_pos m + ?len,
         mc_mem := ?mem\<rparr>"
      have "inside start fin ?m'" by (rule inside_advance[OF pos(1), of "unat ?len"]) (use 3 in simp_all)
      then show ?thesis
        by (intro lock_cong[OF _ _ _ _ rest[of ?m']]) (use 3 room in \<open>simp_all add: ex in_P exec_range Some Let_def\<close>)
    qed
  qed
qed

lemma lock_prim:
  assumes dest: "\<And>f m'. mc_unit m' = mc_unit m \<Longrightarrow> exec L start f (SAdvance l # D # P @ K) m' =
      exec L start f (P @ K) (m'\<lparr>mc_instr := Some l, mc_ptr := p\<rparr>)"
    and P: "parse_prim okp P"
    and len: "\<And>e mem mem'. okp e \<Longrightarrow> (\<forall>y. y \<notin> range_of p 16 \<longrightarrow> mem' y = mem y) \<Longrightarrow>
      eval_expr L mem' (mc_unit m) e = eval_expr L mem (mc_unit m) e"
    and tail: "after (\<lambda>st. st = SLabel l) tail = SAdvance l # D # P @ K"
    and pos: "inside start fin m" "more_input start fin fin2"
    and rest: "\<And>m'. inside start fin m' \<Longrightarrow> mc_unit m' = mc_unit m \<Longrightarrow> lock L start fin fin2 tail K m'"
  shows "lock L start fin fin2 tail (SLabel l # SAdvance l # D # P @ K) m"
  using P
proof cases
  case prim_none
  let ?m' = "m\<lparr>mc_instr := Some l, mc_ptr := p\<rparr>"
  have "exec L start f (SLabel l # SAdvance l # D # P @ K) m = exec L start f K ?m'" for f
    using dest[of m f] prim_none by (simp add: exec.simps(2)[of L start f "SLabel l"] transfer_def step_def)
  then show ?thesis using pos(1) by (intro lock_cong[OF _ _ _ _ rest[of ?m']]) (auto simp: inside_def)
next
  case (prim_int w sg bo)
  show ?thesis by (rule lock_int[OF dest prim_int tail pos rest]) simp_all
next
  case (prim_copy e ty x)
  have bytes: "bytes_type ty" using prim_copy(3) by (simp add: bytes_type_def)
  show ?thesis by (rule lock_copy[OF dest prim_copy(1) bytes len[OF prim_copy(2)] tail pos rest]) simp_all
next
  case (prim_range e x)
  show ?thesis by (rule lock_range[OF dest prim_range(1) len[OF prim_range(2)] tail pos rest]) simp_all
qed

definition untouched :: "layout \<Rightarrow> string \<Rightarrow> expr \<Rightarrow> bool" where
  "untouched L f e \<longleftrightarrow>
     (\<forall>u mem mem'. (\<forall>y. y \<notin> range_of (member_addr L u f) 16 \<longrightarrow> mem' y = mem y) \<longrightarrow>
        eval_expr L mem' u e = eval_expr L mem u e)"

lemma store_member_keeps:
  "store_member L f v m = Some m' \<Longrightarrow> mc_blocks m' = mc_blocks m \<and> mc_unit m' = mc_unit m \<and> mc_pos m' = mc_pos m"
  by (auto simp: store_member_def)

text \<open>A statement whose effect does not depend on the end of the input.\<close>

lemma lock_step:
  assumes "\<And>f. transfer L start f st R m = (case r of None \<Rightarrow> Undefined | Some m' \<Rightarrow> Goto R m')"
    and "\<And>m'. r = Some m' \<Longrightarrow> mc_blocks m' = mc_blocks m \<and> mc_unit m' = mc_unit m \<and> mc_pos m' = mc_pos m"
    and "inside start fin m"
    and rest: "\<And>m'. inside start fin m' \<Longrightarrow> mc_unit m' = mc_unit m \<Longrightarrow> lock L start fin fin2 tail R m'"
  shows "lock L start fin fin2 tail (st # R) m"
proof (cases r)
  case None
  then show ?thesis using assms(1) by (intro lock_undefined) simp_all
next
  case (Some m')
  then have "inside start fin m'" using assms(2,3) by (simp add: inside_def)
  then show ?thesis using Some assms(1,2) by (intro lock_goto[OF _ _ _ _ rest[of m']]) simp_all
qed

lemma lock_start:
  assumes "inside start fin m" "\<And>m'. inside start fin m' \<Longrightarrow> mc_unit m' = mc_unit m \<Longrightarrow> lock L start fin fin2 tail R m'"
  shows "lock L start fin fin2 tail (SLabel l # SAdvance l # R) m"
proof (rule lock_step[where r = "Some m"])
  show "lock L start fin fin2 tail (SAdvance l # R) m'" if "inside start fin m'" "mc_unit m' = mc_unit m" for m'
    by (rule lock_step[where r = "Some (m'\<lparr>mc_instr := Some l\<rparr>)"]) (use that assms in \<open>auto simp: transfer_def step_def\<close>)
qed (use assms in \<open>auto simp: transfer_def step_def\<close>)

lemma lock_leaf:
  assumes leaf: "parse_leaf (untouched L) (\<lambda>_. False) B"
    and tail: "after (\<lambda>st. st = SLabel l) tail = SAdvance l # B @ R"
    and pos: "inside start fin m" "more_input start fin fin2"
    and rest: "\<And>m'. inside start fin m' \<Longrightarrow> mc_unit m' = mc_unit m \<Longrightarrow> lock L start fin fin2 tail R m'"
  shows "lock L start fin fin2 tail (SLabel l # SAdvance l # B @ R) m"
  using leaf
proof cases
  case leaf_none
  then show ?thesis using lock_start[OF pos(1) rest] by simp
next
  case (leaf_assign u f e x)
  have "lock L start fin fin2 tail (B @ R) m'" if m': "inside start fin m'" "mc_unit m' = mc_unit m" for m'
    unfolding leaf_assign append_Cons append_Nil
    by (rule lock_step[where r = "do { v \<leftarrow> eval_expr L (mc_mem m') (mc_unit m') e; store_member L f v m' }"])
       (use m' rest in \<open>auto simp: transfer_def step_def bind_eq_Some_conv dest: store_member_keeps\<close>)
  then show ?thesis by (rule lock_start[OF pos(1)])
next
  case (leaf_dest f P u)
  have len: "eval_expr L mem' (mc_unit m) e = eval_expr L mem (mc_unit m) e"
    if "untouched L f e" "\<forall>y. y \<notin> range_of (member_addr L (mc_unit m) f) 16 \<longrightarrow> mem' y = mem y" for e mem mem'
    using that unfolding untouched_def by blast
  show ?thesis
    unfolding leaf_dest(1) append_Cons
    by (rule lock_prim[OF _ leaf_dest(2) len _ pos rest])
       (use tail leaf_dest(1) in \<open>auto simp: exec.simps(2)[of L start _ "SAdvance l"] exec.simps(2)[of L start _ "SDest u f"] transfer_def step_def\<close>)
next
  case (leaf_temp P t)
  show ?thesis
    unfolding leaf_temp(1) append_Cons
    by (rule lock_prim[OF _ leaf_temp(2) _ _ pos rest])
       (use tail leaf_temp(1) in \<open>auto simp: exec.simps(2)[of L start _ "SAdvance l"] exec.simps(2)[of L start _ "SDestTemp t"] transfer_def step_def\<close>)
next
  case (leaf_store P t u f ty)
  have store: "lock L start fin fin2 tail (SStoreTemp u f ty t # R) m'" if m': "inside start fin m'" "mc_unit m' = mc_unit m" for m'
    by (rule lock_step[where r = "do { (w, sg) \<leftarrow> ly_temp_scalar L t; store_member L f (c_value w sg (mc_mem m') (ly_temp L t)) m' }"])
       (use m' rest in \<open>auto simp: transfer_def step_def bind_eq_Some_conv dest: store_member_keeps\<close>)
  show ?thesis
    unfolding leaf_store(1) append_Cons append_assoc append_Nil
    by (rule lock_prim[OF _ leaf_store(2) _ _ pos store])
       (use tail leaf_store(1) in \<open>auto simp: exec.simps(2)[of L start _ "SAdvance l"] exec.simps(2)[of L start _ "SDestTemp t"] transfer_def step_def\<close>)
qed

section \<open>Whole functions\<close>

lemma leave_suffix: "suffix (leave d S) S"
  by (induction d S rule: leave.induct) (auto intro: suffix_ConsI split: nat.split)

lemma find_label_suffix: "find_label P d S = Some ys \<Longrightarrow> suffix ys S"
  by (induction P d S rule: find_label.induct) (auto intro: suffix_ConsI split: nat.splits if_splits)

lemma select_suffix: "suffix (select L m v S) S"
  using leave_suffix[of 0 S] by (auto simp: select_def split: option.split dest: find_label_suffix)

lemma after_label:
  assumes "distinct (labels (pre @ SLabel l # S))"
  shows "after (\<lambda>st. st = SLabel l) (pre @ SLabel l # S) = S"
proof -
  have "l' \<in> set (labels pre)" if "SLabel l' \<in> set pre" for l' using that by (induction pre) auto
  then have "\<forall>st\<in>set pre. st \<noteq> SLabel l" using assms by auto
  then show ?thesis by (simp add: after_def dropWhile_append2)
qed

lemma lock_good:
  assumes "good (untouched L) S" "suffix S tail" "distinct (labels tail)" "inside start fin m" "more_input start fin fin2"
  shows "lock L start fin fin2 tail S m"
  using assms(1,2,4)
proof (induction S arbitrary: m rule: length_induct)
  case (1 S)
  have IH: "lock L start fin fin2 tail R m'" if "good (untouched L) R" "suffix R S" "length R < length S" "inside start fin m'" for R m'
    using 1(1) that suffix_order.trans[OF that(2) 1(3)] by blast
  have at: "after (\<lambda>st. st = SLabel l) tail = R" if "S = SLabel l # R" for l R
    using 1(3) assms(3) after_label[of _ l R] that by (auto simp: suffix_def)
  show ?case
    using 1(2)
  proof cases
    case good_nil
    then show ?thesis by (intro lock_none) simp_all
  next
    case (good_end v b t)
    then show ?thesis
      by (intro lock_some[where r = "if t = ''dr::parsing::ParseResult'' then Inl P_DONE else Inr S_DONE"])
         (auto simp: exec.simps(2) transfer_def step_def)
  next
    case (good_block B R l)
    show ?thesis
      unfolding good_block(1)
      by (rule lock_leaf[OF good_block(2) at[OF good_block(1)] 1(4) assms(5)])
         (rule IH[OF good_block(3)], auto simp: good_block(1) suffix_def)
  next
    case (good_switch R l e x)
    have "lock L start fin fin2 tail (SSwitch e x # R) m'" if m': "inside start fin m'" for m'
    proof (cases "eval_expr L (mc_mem m') (mc_unit m') e")
      case None
      then show ?thesis by (intro lock_undefined) (simp_all add: transfer_def)
    next
      case (Some v)
      have suf: "suffix (select L m' v R) S" "length (select L m' v R) < length S"
        using suffix_order.trans[OF select_suffix] select_length[of L m' v R] good_switch(1) by (auto simp: suffix_def)
      show ?thesis
        by (rule lock_goto[OF _ _ refl refl IH[OF good_select[OF good_switch(2)] suf m']]) (simp_all add: transfer_def Some)
    qed
    then show ?thesis unfolding good_switch(1) by (intro lock_start 1(4)) simp
  next
    case (good_case st R)
    have "lock L start fin fin2 tail R m" by (rule IH[OF good_case(3)]) (use good_case(1) 1(4) in \<open>auto simp: suffix_def\<close>)
    then show ?thesis
      unfolding good_case(1) using good_case(2) by (cases st) (auto simp: is_case_def transfer_def step_def intro: lock_goto)
  next
    case (good_close R)
    have "lock L start fin fin2 tail R m" by (rule IH[OF good_close(2)]) (use good_close(1) 1(4) in \<open>auto simp: suffix_def\<close>)
    then show ?thesis unfolding good_close(1) by (auto simp: transfer_def step_def intro: lock_goto)
  next
    case (good_break R)
    have suf: "suffix (leave 0 R) S" "length (leave 0 R) < length S"
      using suffix_order.trans[OF leave_suffix] leave_length[of 0 R] good_break(1) by (auto simp: suffix_def)
    show ?thesis
      unfolding good_break(1)
      by (rule lock_goto[OF _ _ refl refl IH[OF good_leave[OF good_break(2)] suf 1(4)]]) (simp_all add: transfer_def)
  qed
qed

definition prologue :: "string \<Rightarrow> stmt list" where
  "prologue u = [SPush, SIfNotAllocate u, SReturnAreaFull, SUnitFromState, SInitPos ''in_buf_start'']"

definition epilogue :: "stmt list" where
  "epilogue = [SCountBytes ''bytes_read'' ''in_buf_start'', SReturnDone parse_result]"

definition parser_code :: "(string \<times> string) list \<Rightarrow> string \<Rightarrow> string \<Rightarrow> stmt list \<Rightarrow> stmt list" where
  "parser_code ts root u inner =
     [SDecl ''char*'' ''parse_dest'', SDecl parse_result ''parse_res'', SDecl ''char*'' ''unit''] @ decls_of ts @
     resume_header root @ prologue u @ inner @ epilogue"

lemma exec_decls: "exec L start fin (decls_of ts @ R) m = exec L start fin R m"
  by (induction ts) (auto simp: decls_of_def exec.simps(2) transfer_def step_def)

lemma exec_parser_code:
  "exec L start fin (parser_code ts root u inner) m =
     exec L start fin (resume_header root @ prologue u @ inner @ epilogue) m"
  by (simp add: parser_code_def exec.simps(2) transfer_def step_def exec_decls)

lemma exec_resumed:
  assumes "mc_instr m = Some l" "mc_blocks m = mc_unit m # us"
  shows "exec L start fin (parser_code ts root u inner) m =
     exec L start fin (after (\<lambda>st. st = SLabel l) (SClose # prologue u @ inner @ epilogue)) m"
  using assms by (simp add: exec_parser_code resume_header_def exec.simps(2) transfer_def step_def)

definition unit_allocated :: "layout \<Rightarrow> addr \<Rightarrow> machine \<Rightarrow> machine" where
  "unit_allocated L start m =
     m\<lparr>mc_blocks := nextAllocPos (mc_area m) # mc_blocks m, mc_space := mc_space m - block_size,
       mc_unit := nextAllocPos (mc_area m), mc_pos := start,
       mc_area := (mc_area m)\<lparr>nextAllocPos := nextAllocPos (mc_area m) + of_nat (ly_size L)\<rparr>\<rparr>"

lemma exec_fresh:
  assumes "mc_instr m = None"
  shows "exec L start fin (parser_code ts root u inner) m =
     (if mc_space m \<le> block_size then None
      else if area_space (mc_area m) < of_nat (ly_size L)
      then Some (Inl P_AREA_FULL, m\<lparr>mc_blocks := 0 # mc_blocks m, mc_space := mc_space m - block_size\<rparr>)
      else exec L start fin (inner @ epilogue) (unit_allocated L start m))"
  using assms
  by (cases m) (simp add: exec_parser_code resume_header_def prologue_def exec.simps(2) transfer_def step_def after_def
      allocate_unit_def allocate_item_def allocate_def unit_allocated_def)

lemma run_parser_code:
  assumes "run_parser env is cls s = Some (code, cls', s', ok)"
    and "\<forall>i\<in>set (leaves (filter not_property is)). length_known P Q i"
  shows "\<exists>ts root u inner k k'. stmts code = parser_code ts root u inner \<and>
     instrs (parse_leaf P Q) (\<lambda>_. False) k inner k'"
proof -
  define root where "root = fst (newInstructionLabel ''root'' s)"
  define s1 where "s1 = (snd (newInstructionLabel ''root'' s))\<lparr>pg_code := empty_code\<rparr>"
  obtain s2 u where st: "parse_items env (filter not_property is) s1 = Some s2" "code = pg_code (parse_body root u (pg_code s2) s2)"
    using assms(1) by (auto simp: run_parser_def root_def s1_def Let_def bind_eq_Some_conv case_prod_beta)
  have "stmts (pg_code s1) = []" by (simp add: s1_def)
  then obtain k k' where "instrs (parse_leaf P Q) (\<lambda>_. False) k (stmts (pg_code s2)) k'"
    using parse_items_grammar[OF st(1) assms(2)] by (auto simp: generates_def)
  then show ?thesis
    unfolding st(2) parse_body_stmts parser_code_def prologue_def epilogue_def by (metis append.assoc)
qed

lemma parser_lock:
  assumes code: "code = parser_code ts root u inner" "instrs (parse_leaf (untouched L) (\<lambda>_. False)) (\<lambda>_. False) k inner k'"
    and "distinct (labels code)" and more: "more_input start fin fin2" and fresh: "mc_instr m = None"
  shows "(exec L start fin code m = None \<longrightarrow> exec L start fin2 code m = None) \<and>
     (\<forall>r m1. exec L start fin code m = Some (r, m1) \<longrightarrow>
        (if r = Inl P_OUT_OF_DATA then exec L start fin2 code m1 = exec L start fin2 code m
         else exec L start fin2 code m = Some (r, m1)))"
proof (cases "mc_space m \<le> block_size \<or> area_space (mc_area m) < of_nat (ly_size L)")
  case True
  then show ?thesis by (auto simp: code(1) exec_fresh[OF fresh])
next
  case False
  let ?m0 = "unit_allocated L start m" and ?tail = "SClose # prologue u @ inner @ epilogue"
  have ex: "exec L start f code m = exec L start f (inner @ epilogue) ?m0" for f
    using False by (simp add: code(1) exec_fresh[OF fresh])
  have "good (untouched L) (inner @ epilogue)" using instrs_good(1)[OF code(2)] good_end by (simp add: epilogue_def)
  moreover have "suffix (inner @ epilogue) ?tail" by (auto simp: suffix_def prologue_def)
  moreover have "distinct (labels ?tail)" using assms(3) by (simp add: code(1) parser_code_def)
  moreover have "inside start fin ?m0" using more by (simp add: inside_def unit_allocated_def more_input_def)
  ultimately have lock: "lock L start fin fin2 ?tail (inner @ epilogue) ?m0" using lock_good more by blast
  show ?thesis
  proof (cases "exec L start fin code m")
    case None
    then show ?thesis using lock by (simp add: lock_def ex)
  next
    case (Some rm)
    obtain r m1 where rm: "rm = (r, m1)" by (cases rm)
    show ?thesis
    proof (cases "r = Inl P_OUT_OF_DATA")
      case True
      then obtain l where "mc_instr m1 = Some l" "mc_blocks m1 = mc_unit m1 # mc_blocks m"
        "exec L start fin2 (after (\<lambda>st. st = SLabel l) ?tail) m1 = exec L start fin2 code m"
        using lock Some rm by (auto simp: lock_def ex unit_allocated_def)
      then show ?thesis using Some rm True exec_resumed[of m1 l "mc_blocks m"] by (simp add: code(1))
    next
      case False
      then show ?thesis using lock Some rm by (simp add: lock_def ex)
    qed
  qed
qed

end
