(* ===== verification/Wire.thy ===== *)
theory Wire
  imports Gen_Resume
begin

text \<open>
  The wire format of a unit without nesting, as a specification: a unit is a list of integers and
  byte strings, and \<open>wire_parse\<close> reads them from a list of bytes, one after the other, evaluating
  length expressions on the values read so far.  \<open>wire_of\<close> takes an item of a unit to its wire format,
  and \<open>wired\<close> is the code that the parser generator emits for a list of such items.
\<close>

section \<open>Reading a list of bytes\<close>

datatype wire = WInt string int_width bool byte_order | WBytes string expr

datatype wval = VInt int_width bool byte_order "byte list" | VBytes "byte list"

fun wire_name :: "wire \<Rightarrow> string" where
  "wire_name (WInt f w sg bo) = f"
| "wire_name (WBytes f e) = f"

fun wval_bytes :: "wval \<Rightarrow> byte list" where
  "wval_bytes (VInt w sg bo bs) = bs"
| "wval_bytes (VBytes bs) = bs"

definition wire_bytes :: "(string \<times> wval) list \<Rightarrow> byte list" where
  "wire_bytes vs = concat (map (wval_bytes \<circ> snd) vs)"

fun wval_int :: "wval \<Rightarrow> int option" where
  "wval_int (VInt w sg bo bs) = Some (wire_value sg bo bs)"
| "wval_int (VBytes bs) = None"

definition int_values :: "(string \<times> wval) list \<Rightarrow> string \<Rightarrow> int option" where
  "int_values vs f = Option.bind (map_of vs f) wval_int"

fun eval_with :: "(taddr \<Rightarrow> string \<Rightarrow> int option) \<Rightarrow> (string \<Rightarrow> int option) \<Rightarrow> expr \<Rightarrow> int option"
and evals_with :: "(taddr \<Rightarrow> string \<Rightarrow> int option) \<Rightarrow> (string \<Rightarrow> int option) \<Rightarrow> expr list \<Rightarrow> int option list" where
  "eval_with en rd (EConstant c) =
     (case c of
        CInteger v w sg \<Rightarrow> Some v
      | CBool v \<Rightarrow> Some (if v then 1 else 0)
      | CEnum label t \<Rightarrow> en t (id_name label)
      | _ \<Rightarrow> None)"
| "eval_with en rd (EOperator k ops) =
     (if k = op_Attribute then Option.bind (self_field ops) rd
      else (case evals_with en rd ops of [Some x, Some y] \<Rightarrow> eval_operator k x y | _ \<Rightarrow> None))"
| "eval_with en rd e = None"
| "evals_with en rd [] = []"
| "evals_with en rd (e # es) = eval_with en rd e # evals_with en rd es"

datatype wire_result = WDone "(string \<times> wval) list" "byte list" | WShort | WUndefined

fun wire_parse :: "(taddr \<Rightarrow> string \<Rightarrow> int option) \<Rightarrow> wire list \<Rightarrow> (string \<times> wval) list \<Rightarrow> byte list \<Rightarrow> wire_result" where
  "wire_parse en [] vs bs = WDone vs bs"
| "wire_parse en (WInt f w sg bo # ws) vs bs =
     (if length bs < width_bytes w then WShort
      else wire_parse en ws (vs @ [(f, VInt w sg bo (take (width_bytes w) bs))]) (drop (width_bytes w) bs))"
| "wire_parse en (WBytes f e # ws) vs bs =
     (case eval_with en (int_values vs) e of
        None \<Rightarrow> WUndefined
      | Some n \<Rightarrow>
          if n < 0 \<or> 2 ^ 63 \<le> n then WUndefined
          else if length bs < nat n then WShort
          else wire_parse en ws (vs @ [(f, VBytes (take (nat n) bs))]) (drop (nat n) bs))"

lemma eval_expr_with:
  "eval_expr L m u e = eval_with (ly_enumerator L) (read_member L m u) e"
  "eval_exprs L m u es = evals_with (ly_enumerator L) (read_member L m u) es"
  by (induction e and es rule: reads_reads_list.induct) (auto split: option.split)

lemma eval_with_mono:
  assumes "\<And>g x. rd g = Some x \<Longrightarrow> rd' g = Some x"
  shows "eval_with en rd e = Some n \<Longrightarrow> eval_with en rd' e = Some n"
    and "list_all2 (\<lambda>a b. \<forall>n. a = Some n \<longrightarrow> b = Some n) (evals_with en rd es) (evals_with en rd' es)"
proof (induction e and es arbitrary: n rule: reads_reads_list.induct)
  case (1 k ops)
  show ?case
  proof (cases "k = op_Attribute")
    case True
    then show ?thesis using 1 assms by (auto simp: bind_eq_Some_conv)
  next
    case False
    then obtain x y where xy: "evals_with en rd ops = [Some x, Some y]" "eval_operator k x y = Some n"
      using 1(2) by (auto split: list.splits option.splits)
    then have "evals_with en rd' ops = [Some x, Some y]" using 1(1)[OF False] by (auto simp: list_all2_Cons1)
    then show ?thesis using False xy(2) by simp
  qed
qed simp_all

lemma wire_parse_bytes: "wire_parse en ws vs bs = WDone us rest \<Longrightarrow> wire_bytes vs @ bs = wire_bytes us @ rest"
proof (induction en ws vs bs rule: wire_parse.induct)
  case (2 en f w sg bo ws vs bs)
  then show ?case by (fastforce simp: wire_bytes_def split: if_splits)
next
  case (3 en f e ws vs bs)
  then show ?case by (fastforce simp: wire_bytes_def split: if_splits option.splits)
qed simp

lemma wire_parse_names: "wire_parse en ws vs bs = WDone us rest \<Longrightarrow> map fst us = map fst vs @ map wire_name ws"
  by (induction en ws vs bs rule: wire_parse.induct) (auto split: if_splits option.splits)

section \<open>The wire format of items\<close>

definition wire_of_type :: "gen_env \<Rightarrow> item \<Rightarrow> string \<Rightarrow> type_kind \<Rightarrow> wire option" where
  "wire_of_type env i f k =
     (case k of
        TInteger n sg \<Rightarrow>
          do { w \<leftarrow> width_of_bits n; label \<leftarrow> byteOrderLabel env i; bo \<leftarrow> order_of_label label; Some (WInt f w sg bo) }
      | TBytes \<Rightarrow> do { e \<leftarrow> length_value_of i; x \<leftarrow> e; Some (WBytes f x) }
      | TString \<Rightarrow> do { e \<leftarrow> length_value_of i; x \<leftarrow> e; Some (WBytes f x) }
      | _ \<Rightarrow> None)"

definition wire_of :: "gen_env \<Rightarrow> item \<Rightarrow> wire option" where
  "wire_of env i =
     (case i of
        AtomicType b fb \<Rightarrow>
          if serialized_type i \<noteq> it_type b \<or> \<not> it_app_accessible b \<and> ge_input_pointers env then None
          else do { t \<leftarrow> it_type b; ob \<leftarrow> ge_types env t; wire_of_type env i (field_name b) (ty_kind ob) }
      | _ \<Rightarrow> None)"

inductive wired :: "wire list \<Rightarrow> stmt list \<Rightarrow> bool" where
  wired_nil: "wired [] []"
| wired_int: "width_of_bits n = Some w \<Longrightarrow> order_of_label s = Some bo \<Longrightarrow> wired ws R \<Longrightarrow>
    wired (WInt f w sg bo # ws) (SLabel l # SAdvance l # SDest u f # SParseInt n sg s # check_parse @ R)"
| wired_bytes: "bytes_type ty \<Longrightarrow> wired ws R \<Longrightarrow>
    wired (WBytes f e # ws) (SLabel l # SAdvance l # SDest u f # SSetLen ty e x # SCopyIn ty # check_parse @ R)"

lemma parse_type_wired:
  assumes "parse_type env i (Some t) s = Some s'" "ge_types env t = Some ob" "wire_of_type env i f (ty_kind ob) = Some w"
    and "\<not> pg_input_pointer s"
  shows "\<exists>B. stmts (pg_code s') = stmts (pg_code s) @ B \<and> \<not> pg_input_pointer s' \<and>
    (\<forall>u l ws R. wired ws R \<longrightarrow> wired (w # ws) (SLabel l # SAdvance l # SDest u f # B @ R))"
proof (cases "ty_kind ob")
  case TBytes
  then obtain e x where e: "length_value_of i = Some (Some e)" "w = WBytes f e" "expr_text (ge_types env) e = Some x"
    "s' = emitCheckParseResult (emit (SCopyIn ''var_bytes'') (emit (SSetLen ''var_bytes'' e x) (reset_errors s)))"
    using assms by (auto simp: parse_type_def parse_bytes_def wire_of_type_def bind_eq_Some_conv)
  then show ?thesis
    using assms(4) wired_bytes[of "''var_bytes''"] by (auto simp: bytes_type_def emitCheckParseResult_def parse_result_def)
next
  case TString
  then obtain e x where e: "length_value_of i = Some (Some e)" "w = WBytes f e" "expr_text (ge_types env) e = Some x"
    "s' = emitCheckParseResult (emit (SCopyIn ''var_string'') (emit (SSetLen ''var_string'' e x) (reset_errors s)))"
    using assms by (auto simp: parse_type_def parse_string_def wire_of_type_def bind_eq_Some_conv)
  then show ?thesis
    using assms(4) wired_bytes[of "''var_string''"] by (auto simp: bytes_type_def emitCheckParseResult_def parse_result_def)
next
  case (TInteger n sg)
  then obtain label w' bo where e: "byteOrderLabel env i = Some label" "width_of_bits n = Some w'" "order_of_label label = Some bo"
    "w = WInt f w' sg bo" "s' = emitCheckParseResult (emit (SParseInt n sg label) (reset_errors s))"
    using assms by (auto simp: parse_type_def wire_of_type_def bind_eq_Some_conv)
  then show ?thesis
    using assms(4) wired_int[OF e(2,3)] by (auto simp: emitCheckParseResult_def parse_result_def)
qed (use assms(3) in \<open>simp_all add: wire_of_type_def\<close>)

lemma parse_atomic_wired:
  assumes "parse_atomic env b fb s = Some s'" "wire_of env (AtomicType b fb) = Some w" "\<not> pg_input_pointer s"
  shows "\<exists>B. stmts (pg_code s') = stmts (pg_code s) @ B \<and> \<not> pg_input_pointer s' \<and>
    (\<forall>l ws R. wired ws R \<longrightarrow> wired (w # ws) (SLabel l # SAdvance l # B @ R))"
proof -
  obtain t ob where t: "it_type b = Some t" "ge_types env t = Some ob" "wire_of_type env (AtomicType b fb) (field_name b) (ty_kind ob) = Some w"
    "serialized_type (AtomicType b fb) = Some t" "\<not> (\<not> it_app_accessible b \<and> ge_input_pointers env)"
    using assms(2) by (auto simp: wire_of_def bind_eq_Some_conv split: if_splits)
  then obtain u s2 where st: "parse_type env (AtomicType b fb) (Some t) (emit (SDest u (field_name b)) s) = Some s2"
    "s' = s2\<lparr>pg_input_pointer := False\<rparr>"
    using assms(1) by (auto simp: parse_atomic_def Let_def bind_eq_Some_conv)
  from parse_type_wired[OF st(1) t(2,3)] assms(3) st(2) show ?thesis by auto
qed

lemma parse_items_wired:
  "parse_items env is s = Some s' \<Longrightarrow> map (wire_of env) is = map Some ws \<Longrightarrow> \<not> pg_input_pointer s \<Longrightarrow>
     \<exists>B. stmts (pg_code s') = stmts (pg_code s) @ B \<and> wired ws B"
proof (induction "is" arbitrary: s ws)
  case Nil
  then show ?case by (auto intro: wired_nil)
next
  case (Cons i "is")
  obtain w ws' where ws: "ws = w # ws'" "wire_of env i = Some w" "map (wire_of env) is = map Some ws'" using Cons.prems(2) by auto
  obtain b fb where i: "i = AtomicType b fb" using ws(2) by (auto simp: wire_of_def split: item.splits)
  obtain s1 s2 where st: "begin_instruction env i s = Some s1" "parse_atomic env b fb s1 = Some s2"
    "parse_items env is (end_instruction (pg_code s) s2) = Some s'"
    using Cons.prems(1) by (auto simp: i bind_eq_Some_conv)
  obtain l where l: "stmts (pg_code s1) = [SLabel l, SAdvance l]" using begin_instruction_code[OF st(1)] by auto
  have p1: "\<not> pg_input_pointer s1"
    using st(1) Cons.prems(3)
    by (auto simp: begin_instruction_def newInstructionLabel_def emitInitInstruction_def bind_eq_Some_conv emit_def reset_errors_def)
  obtain B where B: "stmts (pg_code s2) = [SLabel l, SAdvance l] @ B" "\<not> pg_input_pointer s2"
    "\<forall>l ws R. wired ws R \<longrightarrow> wired (w # ws) (SLabel l # SAdvance l # B @ R)"
    using parse_atomic_wired[OF st(2) _ p1] ws(2) l by (auto simp: i)
  have "\<not> pg_input_pointer (end_instruction (pg_code s) s2)" using B(2) by (simp add: end_instruction_def)
  from Cons.IH[OF st(3) ws(3) this] obtain R where "stmts (pg_code s') = stmts (pg_code s) @ [SLabel l, SAdvance l] @ B @ R" "wired ws' R"
    using B(1) by auto
  then show ?case using B(3) ws(1) by auto
qed

end
