(* ===== verification/Incremental.thy ===== *)
theory Incremental
  imports Gen_Resume Samples
begin

text \<open>
  The two properties of every generated parser: its labels are distinct, and it can be fed its input
  piece by piece.
\<close>

text \<open>A member of scalar type that a length expression reads does not share bytes with the byte string
  whose length it gives.\<close>

definition apart :: "layout \<Rightarrow> string \<Rightarrow> expr \<Rightarrow> bool" where
  "apart L f e \<longleftrightarrow>
     (\<forall>g\<in>set (reads e).
        case ly_scalar L g of
          None \<Rightarrow> True
        | Some (w, sg) \<Rightarrow>
            (ly_offset L g + width_bytes w \<le> ly_offset L f \<or> ly_offset L f + 16 \<le> ly_offset L g) \<and>
            ly_offset L f + 16 \<le> 2 ^ 63 \<and> ly_offset L g + width_bytes w \<le> 2 ^ 63)"

definition independent_length :: "layout \<Rightarrow> item \<Rightarrow> bool" where
  "independent_length L i \<longleftrightarrow>
     (case length_value_of i of
        Some (Some e) \<Rightarrow> serialized_type i = it_type (base_of i) \<and> apart L (field_name (base_of i)) e
      | _ \<Rightarrow> True)"

lemma offset_ranges_disjoint:
  assumes "a + n \<le> b \<or> b + k \<le> a" "a + n \<le> 2 ^ 63" "b + k \<le> 2 ^ 63"
  shows "range_of (u + of_nat a) n \<inter> range_of (u + of_nat b) k = {}"
proof -
  have one: "range_of (u + of_nat c) n' \<inter> range_of (u + of_nat d) k' = {}" if "c + n' \<le> d" "d + k' \<le> 2 ^ 63" for c d n' k'
  proof -
    have "u + of_nat d = u + of_nat c + of_nat (d - c)" using that by (simp add: of_nat_diff)
    then have "range_of (u + of_nat c) (d - c) \<inter> range_of (u + of_nat d) k' = {}"
      using disjoint_prefix[of "d - c" k' "u + of_nat c"] that by simp
    moreover have "n' \<le> d - c" using that by simp
    ultimately show ?thesis using range_of_mono[of n' "d - c" "u + of_nat c"] by blast
  qed
  show ?thesis using assms one[of a n b k] one[of b k a n] by blast
qed

lemma eval_cong:
  "(\<And>g. g \<in> set (reads e) \<Longrightarrow> read_member L mem' u g = read_member L mem u g) \<Longrightarrow> eval_expr L mem' u e = eval_expr L mem u e"
  "(\<And>g. g \<in> set (reads_list es) \<Longrightarrow> read_member L mem' u g = read_member L mem u g) \<Longrightarrow> eval_exprs L mem' u es = eval_exprs L mem u es"
  by (induction e and es rule: reads_reads_list.induct) (simp_all split: option.split)

lemma apart_untouched:
  assumes "apart L f e"
  shows "untouched L f e"
  unfolding untouched_def
proof (intro allI impI eval_cong(1))
  fix u g and mem mem' :: mem
  assume same: "\<forall>y. y \<notin> range_of (member_addr L u f) 16 \<longrightarrow> mem' y = mem y" and g: "g \<in> set (reads e)"
  show "read_member L mem' u g = read_member L mem u g"
  proof (cases "ly_scalar L g")
    case (Some wsg)
    obtain w sg where wsg: "wsg = (w, sg)" by (cases wsg)
    have "range_of (member_addr L u g) (width_bytes w) \<inter> range_of (member_addr L u f) 16 = {}"
      using assms g Some wsg offset_ranges_disjoint[of "ly_offset L g" "width_bytes w" "ly_offset L f" 16 u]
      by (fastforce simp: apart_def member_addr_def)
    then have "load_bytes mem' (member_addr L u g) (width_bytes w) = load_bytes mem (member_addr L u g) (width_bytes w)"
      using same by (intro load_bytes_cong) auto
    then show ?thesis by (simp add: read_member_def Some wsg c_value_wire)
  qed (simp add: read_member_def)
qed

lemma feed_parser:
  assumes code: "code = parser_code ts root u inner" "instrs (parse_leaf (untouched L) (\<lambda>_. False)) (\<lambda>_. False) k inner k'"
    "distinct (labels code)" and fresh: "mc_instr m = None"
  shows "fins \<noteq> [] \<Longrightarrow> sorted fins \<Longrightarrow> start \<le> hd fins \<Longrightarrow> room start (last fins) < 2 ^ 63 \<Longrightarrow>
     feed L start code fins m = exec L start (last fins) code m"
proof (induction fins)
  case (Cons fin fins)
  show ?case
  proof (cases fins)
    case Nil
    then show ?thesis by (simp split: option.split)
  next
    case (Cons fin2 fins')
    have more: "more_input start fin f" if "fin \<le> f" "f \<le> last fins" for f
    proof -
      have "room start f \<le> room start (last fins)"
        using that Cons.prems(3) by (simp add: room_sub word_le_nat_alt)
      then show ?thesis using that Cons.prems Cons by (auto simp: more_input_def)
    qed
    have sorted: "sorted fins" "fin \<le> fin2" "fin2 \<le> last fins" using Cons.prems(2) Cons by (auto simp: last_in_set)
    have IH: "feed L start code fins m = exec L start (last fins) code m"
      using Cons.IH Cons.prems Cons sorted by (auto intro: order_trans)
    have next1: "feed L start code fins m1 = feed L start code fins m"
      if "exec L start fin code m = Some (Inl P_OUT_OF_DATA, m1)" for m1
      using parser_lock[OF code more[of fin2] fresh] that sorted Cons by simp
    have last: "(exec L start fin code m = None \<longrightarrow> exec L start (last fins) code m = None) \<and>
       (\<forall>r m1. exec L start fin code m = Some (r, m1) \<longrightarrow> r \<noteq> Inl P_OUT_OF_DATA \<longrightarrow> exec L start (last fins) code m = Some (r, m1))"
      using parser_lock[OF code more[of "last fins"] fresh] sorted by auto
    show ?thesis using next1 last IH Cons by (auto split: option.split)
  qed
qed simp

section \<open>A sample unit\<close>

definition sample_env :: gen_env where
  "sample_env = \<lparr>ge_types = sample_types, ge_unit = 3, ge_module = (\<lambda>u. None), ge_input_pointers = False\<rparr>"

lemma parser_class_total: "\<exists>cls'. parser_class body cls = Some cls'"
proof -
  have "Class ''ParserConstants'' [] \<noteq> None" "Class ''BlockState'' [] \<noteq> None" by (simp_all add: Class_def)
  moreover have "MemberVariable ''consts_'' ''ParserConstants'' False acc_Public \<noteq> None" "MemberVariable ''unit'' ''char*'' False acc_Public \<noteq> None"
    by (simp_all add: MemberVariable_def makeIdentifier_def replace_char_def)
  moreover have "Function ''initParserConstants'' ''void'' acc_Private False \<noteq> None" "Function ''parse'' parse_result acc_Public False \<noteq> None"
    by (simp_all add: Function_def setReturnType_def parse_result_def)
  ultimately show ?thesis by (auto simp: parser_class_def)
qed

lemma run_parser_result:
  assumes "parse_items env (filter not_property is) ((snd (newInstructionLabel ''root'' s))\<lparr>pg_code := empty_code\<rparr>) = Some s2"
    and "exprCurrentUnitPP env = Some u"
  shows "\<exists>code cls' s' ok. run_parser env is cls s = Some (code, cls', s', ok) \<and>
    stmts code = parser_code (pg_temps s2) (fst (newInstructionLabel ''root'' s)) u (stmts (pg_code s2))"
proof -
  let ?s = "parse_body (fst (newInstructionLabel ''root'' s)) u (pg_code s2) s2"
  obtain cls' where "parser_class (kc_text (to_kcode (pg_code ?s))) cls = Some cls'" using parser_class_total by blast
  then have "run_parser env is cls s = Some (pg_code ?s, cls', ?s, pg_errors ?s = 0)"
    using assms by (simp add: run_parser_def Let_def case_prod_beta)
  then show ?thesis by (auto simp: parse_body_stmts parser_code_def prologue_def epilogue_def)
qed

definition sample_layout :: layout where
  "sample_layout =
     \<lparr>ly_size = 24, ly_offset = (\<lambda>f. if f = ''len'' then 0 else if f = ''tag'' then 2 else 8),
      ly_scalar = (\<lambda>f. if f = ''len'' then Some (W16, False) else if f = ''tag'' then Some (W8, False) else None),
      ly_temp = (\<lambda>t. 0), ly_temp_scalar = (\<lambda>t. None), ly_enumerator = (\<lambda>t l. None)\<rparr>"

definition sample_machine :: machine where
  "sample_machine =
     \<lparr>mc_mem = store_bytes (\<lambda>a. 0) 0x100 [0, 2, 7, 65, 66], mc_area = UnitArea 0x1000 256, mc_pos = 0, mc_instr = None,
      mc_blocks = [], mc_space = 64, mc_unit = 0, mc_ptr = 0, mc_res = Inl P_DONE, mc_count = 0\<rparr>"

definition sample_body :: "stmt list" where
  "sample_body =
     [SLabel ''lbl2_parse_Message_len'', SAdvance ''lbl2_parse_Message_len'', SDest ''UNIT(Message)'' ''len'',
      SParseInt 16 False ''big''] @ check_parse @
     [SLabel ''lbl3_parse_Message_tag'', SAdvance ''lbl3_parse_Message_tag'', SDest ''UNIT(Message)'' ''tag'',
      SParseInt 8 False ''big''] @ check_parse @
     [SLabel ''lbl4_parse_Message_body'', SAdvance ''lbl4_parse_Message_body'', SDest ''UNIT(Message)'' ''body'',
      SSetLen ''var_bytes'' (self_member 3 ''len'') ''(SELF(Message).len)'', SCopyIn ''var_bytes''] @ check_parse"

lemma sample_items:
  "map_option (\<lambda>s. (stmts (pg_code s), pg_temps s)) (parse_items sample_env (filter not_property message_items)
     ((snd (newInstructionLabel ''root'' ParserGenerator))\<lparr>pg_code := empty_code\<rparr>)) = Some (sample_body, [])"
  by code_simp

lemma sample_parser:
  "\<exists>code cls' s' ok. run_parser sample_env message_items cls ParserGenerator = Some (code, cls', s', ok) \<and>
     stmts code = parser_code [] ''lbl1_root'' ''UNITPP(Message)'' sample_body"
proof -
  have "exprCurrentUnitPP sample_env = Some ''UNITPP(Message)''" "fst (newInstructionLabel ''root'' ParserGenerator) = ''lbl1_root''"
    by code_simp+
  then show ?thesis using sample_items run_parser_result[of sample_env message_items ParserGenerator] by fastforce
qed

section \<open>Properties\<close>

text \<open>C11: in the code of every generated parser and serializer, whatever the unit and whatever was
  generated before with the same generator, the labels are pairwise distinct and every label that is
  stored as the place to resume at is one of them.\<close>

theorem generated_labels:
  assumes "run_parser env is cls s = Some (code, cls', s', ok) \<or> run_serializer env is cls s = Some (code, cls', s', ok)"
  shows "distinct (labels (stmts code)) \<and> set (jumps (stmts code)) \<subseteq> set (labels (stmts code))"
  using assms parser_labels serializer_labels by blast

theorem generated_labels_witness:
  "\<exists>cls code cls' s' ok. Class ''MessageParser'' [] = Some cls \<and> run_parser sample_env message_items cls ParserGenerator = Some (code, cls', s', ok) \<and>
     length (labels (stmts code)) = 4 \<and> distinct (labels (stmts code)) \<and> set (jumps (stmts code)) \<subseteq> set (labels (stmts code))"
proof -
  obtain cls where cls: "Class ''MessageParser'' [] = Some cls" by (simp add: Class_def)
  obtain code cls' s' ok where run: "run_parser sample_env message_items cls ParserGenerator = Some (code, cls', s', ok)"
    "stmts code = parser_code [] ''lbl1_root'' ''UNITPP(Message)'' sample_body"
    using sample_parser by blast
  then show ?thesis
    using cls generated_labels[of sample_env message_items cls ParserGenerator code cls' s' ok]
    by (auto simp: parser_code_def decls_of_def resume_header_def prologue_def epilogue_def sample_body_def)
qed

text \<open>C3: a generated parser can be fed its input in pieces.  Called again and again with the same start
  of the buffer and a growing end, as long as it reports that it is out of data, it finally returns
  the same result, leaves the same unit, position and byte count, and does so after the same
  allocations, as a single call with the whole input.  The only condition on the unit is that no
  length expression reads bytes of the field whose length it gives.\<close>

theorem incremental_parse:
  assumes "run_parser env is cls s = Some (code, cls', s', ok)"
    and "list_all (independent_length L) (leaves (filter not_property is))"
    and "fins \<noteq> []" "sorted fins" "start \<le> hd fins" "room start (last fins) < 2 ^ 63" "mc_instr m = None"
  shows "feed L start (stmts code) fins m = exec L start (last fins) (stmts code) m"
proof -
  have "length_known (untouched L) (\<lambda>_. False) i" if "independent_length L i" for i
    using that apart_untouched[of L] by (auto simp: independent_length_def length_known_def split: option.splits)
  then have "\<forall>i\<in>set (leaves (filter not_property is)). length_known (untouched L) (\<lambda>_. False) i"
    using assms(2) by (auto simp: list_all_iff)
  from run_parser_code[OF assms(1) this] obtain ts root u inner k k' where
    "stmts code = parser_code ts root u inner" "instrs (parse_leaf (untouched L) (\<lambda>_. False)) (\<lambda>_. False) k inner k'"
    by blast
  then show ?thesis using feed_parser parser_labels[OF assms(1)] assms(3-7) by blast
qed

theorem incremental_parse_witness:
  "\<exists>cls code cls' s' ok. Class ''MessageParser'' [] = Some cls \<and> run_parser sample_env message_items cls ParserGenerator = Some (code, cls', s', ok) \<and>
     feed sample_layout 0x100 (stmts code) [0x101, 0x104, 0x105] sample_machine =
     exec sample_layout 0x100 0x105 (stmts code) sample_machine"
proof -
  obtain cls where cls: "Class ''MessageParser'' [] = Some cls" by (simp add: Class_def)
  obtain code cls' s' ok where run: "run_parser sample_env message_items cls ParserGenerator = Some (code, cls', s', ok)"
    using sample_parser by blast
  have "list_all (independent_length sample_layout) (leaves (filter not_property message_items))"
    by (simp add: sample_defs not_property_def property_of_def independent_length_def length_value_of_def attrs_lookup_def
        serialized_type_def apart_def self_field_def sample_layout_def field_name_def unitFieldName_def id_name_def)
  then show ?thesis
    using cls run incremental_parse[OF run, of sample_layout "[0x101, 0x104, 0x105]" "0x100" sample_machine]
    by (simp add: room_def sample_machine_def del: feed.simps)
qed

end
