(* ===== verification/Gen_Decode.thy ===== *)
theory Gen_Decode
  imports Wire Incremental
begin

text \<open>
  Generated parsers decode their wire format: run on a buffer, the code fills the unit with exactly
  the values that the specification \<open>wire_parse\<close> reads from the bytes of the buffer, or reports that it is
  out of data when the specification does.
\<close>

section \<open>Values in a unit\<close>

fun wire_size :: "wire \<Rightarrow> nat" where
  "wire_size (WInt f w sg bo) = width_bytes w"
| "wire_size (WBytes f e) = 16"

fun wire_scalar :: "layout \<Rightarrow> wire \<Rightarrow> bool" where
  "wire_scalar L (WInt f w sg bo) \<longleftrightarrow> ly_scalar L f = Some (w, sg)"
| "wire_scalar L (WBytes f e) \<longleftrightarrow> True"

definition wire_span :: "layout \<Rightarrow> wire \<Rightarrow> nat \<times> nat" where
  "wire_span L w = (ly_offset L (wire_name w), ly_offset L (wire_name w) + wire_size w)"

definition spans_apart :: "nat \<times> nat \<Rightarrow> nat \<times> nat \<Rightarrow> bool" where
  "spans_apart a b \<longleftrightarrow> snd a \<le> fst b \<or> snd b \<le> fst a"

text \<open>A layout fits a wire format when the members lie in the unit, do not overlap and have the types of
  the fields.\<close>

definition fits :: "layout \<Rightarrow> wire list \<Rightarrow> bool" where
  "fits L ws \<longleftrightarrow>
     ly_size L \<le> 2 ^ 62 \<and> distinct (map wire_name ws) \<and>
     list_all (\<lambda>w. snd (wire_span L w) \<le> ly_size L \<and> wire_scalar L w) ws \<and>
     list_all (\<lambda>a. list_all (\<lambda>b. a = b \<or> spans_apart (wire_span L a) (wire_span L b)) ws) ws"

fun in_unit :: "layout \<Rightarrow> mem \<Rightarrow> addr \<Rightarrow> string \<Rightarrow> wval \<Rightarrow> bool" where
  "in_unit L mem u f (VInt w sg bo bs) \<longleftrightarrow> c_value w sg mem (member_addr L u f) = wire_value sg bo bs"
| "in_unit L mem u f (VBytes bs) \<longleftrightarrow>
     load_word mem (member_addr L u f) = (of_nat (length bs) :: size_t) \<and>
     load_bytes mem (load_word mem (member_addr L u f + 8)) (length bs) = bs"

fun wval_size :: "wval \<Rightarrow> nat" where
  "wval_size (VInt w sg bo bs) = width_bytes w"
| "wval_size (VBytes bs) = 16"

fun holds :: "layout \<Rightarrow> mem \<Rightarrow> addr \<Rightarrow> addr set \<Rightarrow> string \<Rightarrow> wval \<Rightarrow> bool" where
  "holds L mem u A f (VInt w sg bo bs) \<longleftrightarrow>
     ly_scalar L f = Some (w, sg) \<and> load_bytes mem (member_addr L u f) (width_bytes w) = reorder bo bs"
| "holds L mem u A f (VBytes bs) \<longleftrightarrow>
     load_word mem (member_addr L u f) = (of_nat (length bs) :: size_t) \<and> length bs < 2 ^ 63 \<and>
     load_bytes mem (load_word mem (member_addr L u f + 8)) (length bs) = bs \<and>
     range_of (load_word mem (member_addr L u f + 8)) (length bs) \<subseteq> A"

lemma holds_in_unit: "holds L mem u A f v \<Longrightarrow> in_unit L mem u f v"
  by (cases v) (simp_all add: c_value_wire wire_value_reorder)

lemma holds_read: "holds L mem u A f v \<Longrightarrow> wval_int v = Some n \<Longrightarrow> read_member L mem u f = Some n"
  by (cases v) (auto simp: read_member_def c_value_wire wire_value_reorder)

lemma load_word_cong:
  "(\<And>y. y \<in> range_of a 8 \<Longrightarrow> mem' y = mem y) \<Longrightarrow> (load_word mem' a :: 64 word) = load_word mem a"
  using load_bytes_cong[of a 8 mem' mem] by (simp add: load_word_def)

lemma holds_frame:
  assumes "holds L mem u A f v" "\<And>y. y \<notin> W \<Longrightarrow> mem' y = mem y"
    and "W \<inter> range_of (member_addr L u f) (wval_size v) = {}" "W \<inter> A = {}" "A \<subseteq> A'"
  shows "holds L mem' u A' f v"
proof (cases v)
  case (VInt w sg bo bs)
  have "load_bytes mem' (member_addr L u f) (width_bytes w) = load_bytes mem (member_addr L u f) (width_bytes w)"
    using assms(2,3) VInt by (intro load_bytes_cong) auto
  then show ?thesis using assms(1) VInt by simp
next
  case (VBytes bs)
  have "range_of (member_addr L u f) 16 = range_of (member_addr L u f) 8 \<union> range_of (member_addr L u f + 8) 8"
    using range_of_add[of "member_addr L u f" 8 8] by simp
  then have words: "(load_word mem' (member_addr L u f) :: 64 word) = load_word mem (member_addr L u f)"
    "(load_word mem' (member_addr L u f + 8) :: 64 word) = load_word mem (member_addr L u f + 8)"
    using assms(2,3) VBytes by (auto intro!: load_word_cong)
  have "load_bytes mem' (load_word mem (member_addr L u f + 8)) (length bs) = load_bytes mem (load_word mem (member_addr L u f + 8)) (length bs)"
    using assms(1,2,4) VBytes by (intro load_bytes_cong) auto
  then show ?thesis using assms(1,5) VBytes words by auto
qed

lemma range_of_inner: "k + n \<le> N \<Longrightarrow> range_of (u + of_nat k) n \<subseteq> range_of u N"
  using range_of_add[of u k n] range_of_mono[of "k + n" N u] by blast

fun wire_shape :: "string \<times> wval \<Rightarrow> wire \<Rightarrow> bool" where
  "wire_shape (g, v) w \<longleftrightarrow> g = wire_name w \<and> wval_size v = wire_size w"

lemma fits_member:
  assumes "fits L ws" "w \<in> set ws"
  shows "range_of (member_addr L u (wire_name w)) (wire_size w) \<subseteq> range_of u (ly_size L)"
  using assms range_of_inner[of "ly_offset L (wire_name w)" "wire_size w" "ly_size L" u]
  by (auto simp: fits_def list_all_iff wire_span_def member_addr_def)

lemma fits_apart:
  assumes "fits L ws" "v \<in> set ws" "w \<in> set ws" "v \<noteq> w"
  shows "range_of (member_addr L u (wire_name v)) (wire_size v) \<inter> range_of (member_addr L u (wire_name w)) (wire_size w) = {}"
proof -
  have "spans_apart (wire_span L v) (wire_span L w)" "snd (wire_span L v) \<le> ly_size L" "snd (wire_span L w) \<le> ly_size L" "ly_size L \<le> 2 ^ 62"
    using assms by (auto simp: fits_def list_all_iff)
  then show ?thesis
    using offset_ranges_disjoint[of "ly_offset L (wire_name v)" "wire_size v" "ly_offset L (wire_name w)" "wire_size w" u]
    by (simp add: spans_apart_def wire_span_def member_addr_def)
qed

section \<open>Reading one field\<close>

definition decoding :: "layout \<Rightarrow> addr \<Rightarrow> machine \<Rightarrow> (string \<times> wval) list \<Rightarrow> byte list \<Rightarrow> bool" where
  "decoding L fin m vs bs \<longleftrightarrow>
     mc_pos m \<le> fin \<and> room (mc_pos m) fin < 2 ^ 63 \<and> bs = load_bytes (mc_mem m) (mc_pos m) (room (mc_pos m) fin) \<and>
     range_of (mc_pos m) (room (mc_pos m) fin) \<inter> area_arena (mc_area m) = {} \<and>
     area_wf (mc_area m) \<and> range_of (mc_unit m) (ly_size L) \<subseteq> area_used (mc_area m) \<and>
     length bs \<le> unat (area_space (mc_area m)) \<and>
     (\<forall>(f, v)\<in>set vs. holds L (mc_mem m) (mc_unit m) (area_used (mc_area m) - range_of (mc_unit m) (ly_size L)) f v)"

lemma used_in_arena: "area_wf area \<Longrightarrow> area_used area \<subseteq> area_arena area"
  by (rule ua.used_in_arena)

lemma decoding_next:
  assumes d: "decoding L fin m vs bs" and n: "n \<le> length bs"
    and m': "mc_pos m' = mc_pos m + of_nat n" "mc_unit m' = mc_unit m"
    and area: "area_wf (mc_area m')" "area_arena (mc_area m') = area_arena (mc_area m)" "area_used (mc_area m) \<subseteq> area_used (mc_area m')"
      "length bs - n \<le> unat (area_space (mc_area m'))"
    and frame: "\<And>y. y \<notin> W \<Longrightarrow> mc_mem m' y = mc_mem m y" "W \<subseteq> area_arena (mc_area m)"
    and old: "\<And>g v. (g, v) \<in> set vs \<Longrightarrow> W \<inter> range_of (member_addr L (mc_unit m) g) (wval_size v) = {}"
      "W \<inter> (area_used (mc_area m) - range_of (mc_unit m) (ly_size L)) = {}"
    and new: "holds L (mc_mem m') (mc_unit m) (area_used (mc_area m') - range_of (mc_unit m) (ly_size L)) f x"
  shows "decoding L fin m' (vs @ [(f, x)]) (drop n bs)"
proof -
  let ?p = "mc_pos m" and ?r = "room (mc_pos m) fin"
  have bs: "bs = load_bytes (mc_mem m) ?p ?r" "?p \<le> fin" "?r < 2 ^ 63" using d by (auto simp: decoding_def)
  have nr: "n \<le> ?r" using n bs(1) by simp
  note pos = position_in_buffer[OF bs(2) nr]
  have r: "?r = n + room (mc_pos m') fin" using pos(3) nr by (simp add: m')
  have "range_of ?p ?r \<inter> area_arena (mc_area m) = {}" using d by (simp add: decoding_def)
  then have apart: "range_of (mc_pos m') (room (mc_pos m') fin) \<inter> area_arena (mc_area m) = {}"
    using range_of_add[of ?p n "room (mc_pos m') fin"] r by (auto simp: m')
  have "drop n bs = load_bytes (mc_mem m) (mc_pos m') (room (mc_pos m') fin)"
    unfolding bs(1) r load_bytes_append by (simp add: m')
  also have "\<dots> = load_bytes (mc_mem m') (mc_pos m') (room (mc_pos m') fin)"
  proof (rule load_bytes_cong)
    fix y assume "y \<in> range_of (mc_pos m') (room (mc_pos m') fin)"
    then have "y \<notin> W" using apart frame(2) by blast
    then show "mc_mem m y = mc_mem m' y" using frame(1) by simp
  qed
  finally have dr: "drop n bs = load_bytes (mc_mem m') (mc_pos m') (room (mc_pos m') fin)" .
  let ?A = "area_used (mc_area m) - range_of (mc_unit m) (ly_size L)" and ?A' = "area_used (mc_area m') - range_of (mc_unit m) (ly_size L)"
  have keep: "holds L (mc_mem m') (mc_unit m) ?A' g v" if "(g, v) \<in> set vs" for g v
  proof (rule holds_frame[OF _ frame(1) old(1)[OF that] old(2)])
    show "holds L (mc_mem m) (mc_unit m) ?A g v" using d that by (auto simp: decoding_def)
    show "?A \<subseteq> ?A'" using area(3) by blast
  qed
  have "\<forall>(g, v)\<in>set (vs @ [(f, x)]). holds L (mc_mem m') (mc_unit m') (area_used (mc_area m') - range_of (mc_unit m') (ly_size L)) g v"
    using keep new by (auto simp: m'(2))
  moreover have "range_of (mc_unit m') (ly_size L) \<subseteq> area_used (mc_area m')" using d area(3) by (auto simp: decoding_def m'(2))
  moreover have "mc_pos m' \<le> fin" "room (mc_pos m') fin < 2 ^ 63" using pos r bs(3) by (simp_all add: m'(1))
  moreover have "length (drop n bs) \<le> unat (area_space (mc_area m'))" using area(4) by simp
  ultimately show ?thesis using dr apart area(1,2) by (simp add: decoding_def)
qed

lemma old_apart:
  assumes "fits L (dn @ w # ws)" "list_all2 wire_shape vs dn" "(g, v) \<in> set vs"
  shows "range_of (member_addr L u (wire_name w)) (wire_size w) \<inter> range_of (member_addr L u g) (wval_size v) = {}"
    and "range_of (member_addr L u g) (wval_size v) \<subseteq> range_of u (ly_size L)"
proof -
  have "\<exists>a\<in>set dn. wire_shape (g, v) a" using assms(2,3) by (induction rule: list_all2_induct) auto
  then obtain a where a: "a \<in> set dn" "wire_shape (g, v) a" by blast
  have "a \<noteq> w" using a(1) assms(1) by (auto simp: fits_def)
  then show "range_of (member_addr L u (wire_name w)) (wire_size w) \<inter> range_of (member_addr L u g) (wval_size v) = {}"
    using fits_apart[OF assms(1), of w a u] a by auto
  show "range_of (member_addr L u g) (wval_size v) \<subseteq> range_of u (ly_size L)"
    using fits_member[OF assms(1), of a u] a by auto
qed

lemma decode_int:
  assumes d: "decoding L fin m vs bs" and fit: "fits L (dn @ WInt f w sg bo # ws)" "list_all2 wire_shape vs dn"
    and n: "width_bytes w \<le> length bs"
    and m': "mc_pos m' = mc_pos m + of_nat (width_bytes w)" "mc_unit m' = mc_unit m" "mc_area m' = mc_area m"
      "mc_mem m' = store_bytes (mc_mem m) (member_addr L (mc_unit m) f) (reorder bo (load_bytes (mc_mem m) (mc_pos m) (width_bytes w)))"
  shows "decoding L fin m' (vs @ [(f, VInt w sg bo (take (width_bytes w) bs))]) (drop (width_bytes w) bs)"
proof (rule decoding_next[OF d n m'(1,2), where W = "range_of (member_addr L (mc_unit m) f) (width_bytes w)"])
  let ?W = "range_of (member_addr L (mc_unit m) f) (width_bytes w)"
  have unit: "?W \<subseteq> range_of (mc_unit m) (ly_size L)" using fits_member[OF fit(1), of "WInt f w sg bo" "mc_unit m"] by simp
  have wf: "area_wf (mc_area m)" "range_of (mc_unit m) (ly_size L) \<subseteq> area_used (mc_area m)" using d by (auto simp: decoding_def)
  show "area_wf (mc_area m')" "area_arena (mc_area m') = area_arena (mc_area m)" "area_used (mc_area m) \<subseteq> area_used (mc_area m')"
    "length bs - width_bytes w \<le> unat (area_space (mc_area m'))"
    using d by (auto simp: decoding_def m'(3))
  show "mc_mem m' y = mc_mem m y" if "y \<notin> ?W" for y using that by (simp add: m'(4) store_bytes_outside)
  show "?W \<subseteq> area_arena (mc_area m)" using unit wf used_in_arena by blast
  show "?W \<inter> range_of (member_addr L (mc_unit m) g) (wval_size v) = {}" if "(g, v) \<in> set vs" for g v
    using old_apart(1)[OF fit that, of "mc_unit m"] by simp
  show "?W \<inter> (area_used (mc_area m) - range_of (mc_unit m) (ly_size L)) = {}" using unit by blast
  have "take (width_bytes w) bs = load_bytes (mc_mem m) (mc_pos m) (width_bytes w)"
    using d n load_bytes_append[of "mc_mem m" "mc_pos m" "width_bytes w" "length bs - width_bytes w"] by (auto simp: decoding_def)
  moreover have "ly_scalar L f = Some (w, sg)" using fit(1) by (simp add: fits_def)
  ultimately show "holds L (mc_mem m') (mc_unit m) (area_used (mc_area m') - range_of (mc_unit m) (ly_size L)) f
      (VInt w sg bo (take (width_bytes w) bs))"
    by (simp add: m'(4))
qed

lemma load_word_memcpy:
  "disjoint_ranges a 8 q (unat n) \<Longrightarrow> (load_word (memcpy m q b n) a :: 64 word) = load_word m a"
  by (simp add: load_word_def load_bytes_memcpy_disjoint)

lemma decode_bytes:
  fixes n :: nat and m m' :: machine and L :: layout
  defines "p \<equiv> \<lambda>f. member_addr L (mc_unit m) f" and "q \<equiv> nextAllocPos (mc_area m)"
  assumes d: "decoding L fin m vs bs" and fit: "fits L (dn @ WBytes f e # ws)" "list_all2 wire_shape vs dn"
    and n: "n \<le> length bs"
    and m': "mc_pos m' = mc_pos m + of_nat n" "mc_unit m' = mc_unit m" "mc_area m' = (mc_area m)\<lparr>nextAllocPos := q + of_nat n\<rparr>"
      "mc_mem m' = store_word (memcpy (store_word (mc_mem m) (p f) (of_nat n :: size_t)) q (mc_pos m) (of_nat n)) (p f + 8) q"
  shows "decoding L fin m' (vs @ [(f, VBytes (take n bs))]) (drop n bs)"
proof -
  let ?W = "range_of (p f) 16 \<union> range_of q n" and ?U = "range_of (mc_unit m) (ly_size L)"
  have wf: "area_wf (mc_area m)" "?U \<subseteq> area_used (mc_area m)" "length bs < 2 ^ 63" "length bs \<le> unat (area_space (mc_area m))"
    "range_of (mc_pos m) (length bs) \<inter> area_arena (mc_area m) = {}" "bs = load_bytes (mc_mem m) (mc_pos m) (length bs)"
    using d by (auto simp: decoding_def)
  have un: "unat (of_nat n :: size_t) = n" using n wf(3) by (simp add: unat_of_nat)
  have ok: "allocate (mc_area m) (of_nat n) 0 = (True, q, mc_area m')"
    using wf(4) n un by (simp add: allocate_granted word_le_nat_alt q_def m'(3))
  note al = ua.alloc_in_arena[OF wf(1) ok, unfolded un] ua.alloc_fresh[OF wf(1) ok, unfolded un] ua.alloc_used[OF wf(1) ok, unfolded un]
  have split: "range_of (p f) 16 = range_of (p f) 8 \<union> range_of (p f + 8) 8" using range_of_add[of "p f" 8 8] by simp
  have unit: "range_of (p f) 16 \<subseteq> ?U" using fits_member[OF fit(1), of "WBytes f e" "mc_unit m"] by (simp add: p_def)
  have frame: "mc_mem m' y = mc_mem m y" if "y \<notin> ?W" for y
    using that split by (simp add: m'(4) store_word_outside memcpy_outside un)
  have data: "load_bytes (mc_mem m') q n = take n bs"
  proof -
    have "range_of (p f) 16 \<inter> range_of q n = {}" using unit wf(2) al(2) by blast
    then have "disjoint_ranges q n (p f + 8) 8" using split by (auto simp: disjoint_ranges_def)
    moreover have "range_of (mc_pos m) n \<inter> range_of (p f) 8 = {}"
      using split unit wf(2,5) used_in_arena[OF wf(1)] range_of_mono[OF n, of "mc_pos m"] by blast
    ultimately have q8: "disjoint_ranges q n (p f + 8) 8" "range_of (mc_pos m) n \<inter> range_of (p f) 8 = {}" by blast+
    have "load_bytes (mc_mem m') q n = load_bytes (store_word (mc_mem m) (p f) (of_nat n :: size_t)) (mc_pos m) n"
      using load_bytes_memcpy[of "store_word (mc_mem m) (p f) (of_nat n :: size_t)" q "mc_pos m" "of_nat n"] q8(1)
      by (simp add: m'(4) load_bytes_store_word_disjoint un)
    also have "\<dots> = load_bytes (mc_mem m) (mc_pos m) n"
      using q8(2) by (intro load_bytes_store_word_disjoint) (simp add: disjoint_ranges_def)
    also have "\<dots> = take n bs"
      using wf(6) n load_bytes_append[of "mc_mem m" "mc_pos m" n "length bs - n"] by (metis append_eq_conv_conj le_add_diff_inverse length_load_bytes)
    finally show ?thesis .
  qed
  have words: "load_word (mc_mem m') (p f + 8) = q" "load_word (mc_mem m') (p f) = (of_nat n :: size_t)"
  proof -
    show "load_word (mc_mem m') (p f + 8) = q" by (simp add: m'(4))
    have "disjoint_ranges (p f) 8 (p f + 8) 8" "disjoint_ranges (p f) 8 q n" using two_words unit wf(2) al(2) split by (auto simp: disjoint_ranges_def)
    then show "load_word (mc_mem m') (p f) = (of_nat n :: size_t)"
      by (simp add: m'(4) load_word_other load_word_memcpy un)
  qed
  show ?thesis
  proof (rule decoding_next[OF d n m'(1,2), where W = ?W])
    show "area_wf (mc_area m')" "area_arena (mc_area m') = area_arena (mc_area m)" "area_used (mc_area m) \<subseteq> area_used (mc_area m')"
      using allocate_wf[OF wf(1) ok] ua.alloc_arena[OF wf(1) ok] al(3) by auto
    show "length bs - n \<le> unat (area_space (mc_area m'))"
      using unat_area_space[OF wf(1)] unat_area_space[OF allocate_wf[OF wf(1) ok]] unat_allocated_add[OF wf(1), of "of_nat n"] ok wf(4) un n
      by (simp add: allocate_granted)
    show "?W \<inter> range_of (member_addr L (mc_unit m) g) (wval_size v) = {}" if "(g, v) \<in> set vs" for g v
      using old_apart(1)[OF fit that, of "mc_unit m"] old_apart(2)[OF fit that, of "mc_unit m"] wf(2) al(2) by (auto simp: p_def)
    show "holds L (mc_mem m') (mc_unit m) (area_used (mc_area m') - ?U) f (VBytes (take n bs))"
      using words data n wf(2,3) al(2,3) by (auto simp: p_def)
  qed (use frame al unit wf(1,2) used_in_arena[OF wf(1)] in auto)
qed

section \<open>Reading all fields\<close>

lemma decoding_eval:
  assumes "decoding L fin m vs bs" "eval_with (ly_enumerator L) (int_values vs) e = Some n"
  shows "eval_expr L (mc_mem m) (mc_unit m) e = Some n"
proof -
  have "read_member L (mc_mem m) (mc_unit m) g = Some x" if rd: "int_values vs g = Some x" for g x
  proof -
    obtain v where v: "map_of vs g = Some v" "wval_int v = Some x" using rd by (auto simp: int_values_def bind_eq_Some_conv)
    then show ?thesis using assms(1) holds_read map_of_SomeD[OF v(1)] by (fastforce simp: decoding_def)
  qed
  then show ?thesis using eval_with_mono(1)[OF _ assms(2)] by (simp add: eval_expr_with)
qed

lemma exec_to_prim:
  "exec L start fin (SLabel l # SAdvance l # SDest u f # P) m =
     exec L start fin P (m\<lparr>mc_instr := Some l, mc_ptr := member_addr L (mc_unit m) f\<rparr>)"
  by (simp add: exec.simps(2) transfer_def step_def)

lemma area_arena_update [simp]: "area_arena (area\<lparr>nextAllocPos := x\<rparr>) = area_arena area"
  by (simp add: area_arena_def)

lemma exec_wired:
  assumes "wired ws B"
  shows "decoding L fin m vs bs \<Longrightarrow> fits L (dn @ ws) \<Longrightarrow> list_all2 wire_shape vs dn \<Longrightarrow>
     (case wire_parse (ly_enumerator L) ws vs bs of
        WDone us rest \<Rightarrow> \<exists>m'. exec L start fin (B @ K) m = exec L start fin K m' \<and> decoding L fin m' us rest \<and>
          area_arena (mc_area m') = area_arena (mc_area m)
      | WShort \<Rightarrow> \<exists>m'. exec L start fin (B @ K) m = Some (Inl P_OUT_OF_DATA, m')
      | WUndefined \<Rightarrow> True)"
  using assms
proof (induction arbitrary: m vs bs dn)
  case wired_nil
  then show ?case by auto
next
  case (wired_int n w s bo ws R f sg l u)
  let ?p = "member_addr L (mc_unit m) f" and ?n = "width_bytes w"
  let ?M = "m\<lparr>mc_instr := Some l, mc_ptr := ?p\<rparr>"
  have len: "length bs = room (mc_pos m) fin" using wired_int.prems(1) by (simp add: decoding_def)
  have run: "exec L start fin ((SLabel l # SAdvance l # SDest u f # SParseInt n sg s # check_parse @ R) @ K) m =
      exec L start fin (SParseInt n sg s # SIfNotDone ''parse_res'' parse_result # SReturnRes ''parse_res'' # R @ K) ?M"
    by (simp add: exec_to_prim)
  show ?case
  proof (cases "length bs < ?n")
    case True
    then show ?thesis using run wired_int.hyps(1,2) len by (simp add: exec_int)
  next
    case False
    let ?m' = "?M\<lparr>mc_res := Inl P_DONE, mc_pos := mc_pos m + of_nat ?n,
       mc_mem := store_bytes (mc_mem m) ?p (reorder bo (load_bytes (mc_mem m) (mc_pos m) ?n))\<rparr>"
    have "decoding L fin ?m' (vs @ [(f, VInt w sg bo (take ?n bs))]) (drop ?n bs)"
      by (rule decode_int[OF wired_int.prems]) (use False in simp_all)
    from wired_int.IH[OF this, of "dn @ [WInt f w sg bo]"] show ?thesis
      using False run wired_int.hyps(1,2) wired_int.prems(2,3) len by (simp add: exec_int list_all2_appendI cong: wire_result.case_cong)
  qed
next
  case (wired_bytes ty ws R f e l u x)
  let ?p = "member_addr L (mc_unit m) f"
  let ?M = "m\<lparr>mc_instr := Some l, mc_ptr := ?p\<rparr>"
  have len: "length bs = room (mc_pos m) fin" "room (mc_pos ?M) fin < 2 ^ 63" "length bs \<le> unat (area_space (mc_area m))"
    using wired_bytes.prems(1) by (auto simp: decoding_def)
  have run: "exec L start fin ((SLabel l # SAdvance l # SDest u f # SSetLen ty e x # SCopyIn ty # check_parse @ R) @ K) m =
      exec L start fin (SSetLen ty e x # SCopyIn ty # SIfNotDone ''parse_res'' parse_result # SReturnRes ''parse_res'' # R @ K) ?M"
    by (simp add: exec_to_prim)
  show ?case
  proof (cases "eval_with (ly_enumerator L) (int_values vs) e")
    case None
    then show ?thesis by simp
  next
    case (Some n)
    note ev = decoding_eval[OF wired_bytes.prems(1) Some]
    show ?thesis
    proof (cases "n < 0 \<or> 2 ^ 63 \<le> n")
      case False
      then obtain k where k: "n = int k" "k < 2 ^ 63" by (metis linorder_not_less nonneg_int_cases of_nat_less_numeral_power_cancel_iff)
      have un: "unat (of_nat k :: size_t) = k" using k(2) by (simp add: unat_of_nat)
      note sem = Some[unfolded k(1)] ev[unfolded k(1)] exec_copy[OF len(2) wired_bytes.hyps(1)]
      show ?thesis
      proof (cases "length bs < k")
        case True
        then show ?thesis using run k un len by (simp add: sem Let_def)
      next
        case enough: False
        let ?m' = "?M\<lparr>mc_res := Inl P_DONE, mc_pos := mc_pos m + of_nat k,
           mc_area := (mc_area m)\<lparr>nextAllocPos := nextAllocPos (mc_area m) + of_nat k\<rparr>,
           mc_mem := store_word (memcpy (store_word (mc_mem m) ?p (of_nat k :: size_t)) (nextAllocPos (mc_area m)) (mc_pos m) (of_nat k))
              (?p + 8) (nextAllocPos (mc_area m))\<rparr>"
        have "decoding L fin ?m' (vs @ [(f, VBytes (take k bs))]) (drop k bs)"
          by (rule decode_bytes[OF wired_bytes.prems]) (use enough in simp_all)
        moreover have "\<not> area_space (mc_area m) < of_nat k" using enough len(3) un by (simp add: word_less_nat_alt)
        ultimately show ?thesis
          using wired_bytes.IH[of ?m' "vs @ [(f, VBytes (take k bs))]" "drop k bs" "dn @ [WBytes f e]"]
            enough run wired_bytes.prems(2,3) un len k
          by (simp add: sem Let_def list_all2_appendI cong: wire_result.case_cong)
      qed
    qed (simp add: Some)
  qed
qed

lemma run_parser_wired:
  assumes "run_parser env is cls s = Some (code, cls', s', ok)" "map (wire_of env) (filter not_property is) = map Some ws" "\<not> pg_input_pointer s"
  shows "\<exists>ts root u inner. stmts code = parser_code ts root u inner \<and> wired ws inner"
proof -
  define root where "root = fst (newInstructionLabel ''root'' s)"
  define s1 where "s1 = (snd (newInstructionLabel ''root'' s))\<lparr>pg_code := empty_code\<rparr>"
  obtain s2 u where st: "parse_items env (filter not_property is) s1 = Some s2" "code = pg_code (parse_body root u (pg_code s2) s2)"
    using assms(1) by (auto simp: run_parser_def root_def s1_def Let_def bind_eq_Some_conv case_prod_beta)
  have "stmts (pg_code s1) = []" "\<not> pg_input_pointer s1" using assms(3) by (simp_all add: s1_def newInstructionLabel_def)
  then have "wired ws (stmts (pg_code s2))" using parse_items_wired[OF st(1) assms(2)] by auto
  then show ?thesis unfolding st(2) parse_body_stmts parser_code_def prologue_def epilogue_def by (metis append.assoc)
qed

lemma unit_allocated_decoding:
  assumes "area_wf (mc_area m)" "start \<le> fin" "room start fin < 2 ^ 63" "range_of start (room start fin) \<inter> area_arena (mc_area m) = {}"
    and "ly_size L + room start fin \<le> unat (area_space (mc_area m))" "ly_size L \<le> 2 ^ 62"
  shows "decoding L fin (unit_allocated L start m) [] (load_bytes (mc_mem m) start (room start fin))"
proof -
  let ?sz = "of_nat (ly_size L) :: size_t" and ?m = "unit_allocated L start m"
  have un: "unat ?sz = ly_size L" using assms(6) by (simp add: unat_of_nat)
  have ok: "allocate (mc_area m) ?sz 0 = (True, nextAllocPos (mc_area m), mc_area ?m)"
    using assms(5) un by (simp add: allocate_granted word_le_nat_alt unit_allocated_def)
  have "unat (area_space (mc_area ?m)) = unat (area_space (mc_area m)) - ly_size L"
    using unat_area_space[OF assms(1)] unat_area_space[OF allocate_wf[OF assms(1) ok]] unat_allocated_add[OF assms(1), of ?sz] ok un
    by (simp add: allocate_granted)
  then show ?thesis
    using assms allocate_wf[OF assms(1) ok] ua.alloc_arena[OF assms(1) ok] ua.alloc_used[OF assms(1) ok] un
    by (auto simp: decoding_def unit_allocated_def)
qed

lemma wired_push: "wired ws xs \<Longrightarrow> SPush \<notin> set xs"
  by (induction rule: wired.induct) auto

lemma parser_decodes:
  assumes "run_parser env is cls s = Some (code, cls', s', ok)" "\<not> pg_input_pointer s"
    and "map (wire_of env) (filter not_property is) = map Some ws" "fits L ws"
    and "mc_instr m = None" "area_wf (mc_area m)" "start \<le> fin" "room start fin < 2 ^ 63"
    and "range_of start (room start fin) \<inter> area_arena (mc_area m) = {}"
    and "ly_size L + room start fin \<le> unat (area_space (mc_area m))" "block_size < mc_space m"
  shows "case wire_parse (ly_enumerator L) ws [] (load_bytes (mc_mem m) start (room start fin)) of
     WDone vs rest \<Rightarrow>
       \<exists>m'. exec L start fin (stmts code) m = Some (Inl P_DONE, m') \<and>
            mc_count m' = of_nat (room start fin - length rest) \<and> mc_space m' = mc_space m - block_size \<and>
            decoding L fin m' vs rest \<and> area_arena (mc_area m') = area_arena (mc_area m)
   | WShort \<Rightarrow> \<exists>m'. exec L start fin (stmts code) m = Some (Inl P_OUT_OF_DATA, m')
   | WUndefined \<Rightarrow> True"
proof -
  obtain ts root u inner where code: "stmts code = parser_code ts root u inner" "wired ws inner"
    using run_parser_wired[OF assms(1,3,2)] by blast
  let ?m = "unit_allocated L start m" and ?bs = "load_bytes (mc_mem m) start (room start fin)"
  have size: "ly_size L \<le> 2 ^ 62" using assms(4) by (simp add: fits_def)
  have "\<not> area_space (mc_area m) < of_nat (ly_size L)" using assms(10) size by (simp add: word_less_nat_alt unat_of_nat)
  then have run: "exec L start fin (stmts code) m = exec L start fin (inner @ epilogue) ?m"
    using assms(11) by (simp add: code(1) exec_fresh[OF assms(5)])
  have "SPush \<notin> set (inner @ epilogue)" using wired_push[OF code(2)] by (simp add: epilogue_def)
  then have space: "exec L start fin (stmts code) m = Some (r, m') \<Longrightarrow> mc_space m' = mc_space m - block_size" for r m'
    using exec_space[of L start fin "inner @ epilogue" ?m r m'] by (simp add: run unit_allocated_def)
  note dec = exec_wired[OF code(2) unit_allocated_decoding[OF assms(6-10) size], where dn = "[]" and K = epilogue and start = start]
  show ?thesis
  proof (cases "wire_parse (ly_enumerator L) ws [] ?bs")
    case (WDone vs rest)
    then obtain m1 where m1: "exec L start fin (inner @ epilogue) ?m = exec L start fin epilogue m1" "decoding L fin m1 vs rest"
      "area_arena (mc_area m1) = area_arena (mc_area m)"
      using dec assms(4) by (auto simp: unit_allocated_def)
    have "decoding L fin (m1\<lparr>mc_count := c\<rparr>) vs rest" for c using m1(2) by (auto simp: decoding_def)
    moreover have "mc_pos m1 - start = of_nat (room start fin - length rest)"
    proof -
      have "length rest = room (mc_pos m1) fin" "length rest \<le> room start fin"
        using m1(2) wire_parse_bytes[OF WDone] by (auto simp: decoding_def wire_bytes_def dest: arg_cong[where f = length])
      then show ?thesis by (simp add: room_def of_nat_diff)
    qed
    ultimately show ?thesis
      using WDone run m1(1,3) space[of "Inl P_DONE"] by (simp add: epilogue_def exec.simps(2) transfer_def step_def parse_result_def)
  next
    case WShort
    then show ?thesis using dec assms(4) run by simp
  qed simp
qed

section \<open>The sample unit\<close>

definition sample_wires :: "wire list" where
  "sample_wires = [WInt ''len'' W16 False Big, WInt ''tag'' W8 False Big, WBytes ''body'' (self_member 3 ''len'')]"

lemma sample_wires_of: "map (wire_of sample_env) (filter not_property message_items) = map Some sample_wires"
  by code_simp

lemma sample_fits: "fits sample_layout sample_wires"
  by (simp add: fits_def sample_wires_def wire_span_def sample_layout_def spans_apart_def)

lemma sample_area:
  "area_wf (mc_area sample_machine)" "unat (area_space (mc_area sample_machine)) = 240"
  "range_of 0x100 5 \<inter> area_arena (mc_area sample_machine) = {}"
proof -
  note area = UnitArea_wf[of 256 "0x1000"]
  show "area_wf (mc_area sample_machine)" using area(1) by (simp add: sample_machine_def)
  show "unat (area_space (mc_area sample_machine)) = 240" by (simp add: sample_machine_def area_defs)
  show "range_of 0x100 5 \<inter> area_arena (mc_area sample_machine) = {}"
    using disjoint_rangesI[of "0x100" 5 "0x1010" 240] area(3) by (simp add: disjoint_ranges_def sample_machine_def)
qed

definition sample_values :: "(string \<times> wval) list" where
  "sample_values = [(''len'', VInt W16 False Big [0, 2]), (''tag'', VInt W8 False Big [7]), (''body'', VBytes [65, 66])]"

lemma sample_wire_parse:
  "wire_parse (ly_enumerator sample_layout) sample_wires [] (load_bytes (mc_mem sample_machine) 0x100 5) = WDone sample_values []"
proof -
  have "load_bytes (mc_mem sample_machine) 0x100 5 = [0, 2, 7, 65, 66]"
    by (simp add: sample_machine_def load_bytes_def upt_rec)
  then show ?thesis
    by (simp add: sample_wires_def sample_values_def self_member_def self_field_def id_name_def int_values_def wire_value_def wire_nat_def)
qed

section \<open>Property\<close>

text \<open>C2: the parser that is generated for a unit of integers and byte strings implements the wire
  format of that unit.  Called with a buffer, an area large enough and a state with room for a block, it reads the values
  that the format assigns to the bytes of the buffer, one field after the other, each length evaluated on the
  fields before it, stores every one of them in the member that belongs to it, and reports \<open>DONE\<close> and
  the number of bytes it has used.  When the buffer ends before the unit does it reports \<open>OUT_OF_DATA\<close>.\<close>

theorem generated_parser_decodes:
  assumes "run_parser env is cls s = Some (code, cls', s', ok)" "\<not> pg_input_pointer s"
    and "map (wire_of env) (filter not_property is) = map Some ws" "fits L ws"
    and "mc_instr m = None" "area_wf (mc_area m)" "start \<le> fin" "room start fin < 2 ^ 63"
    and "range_of start (room start fin) \<inter> area_arena (mc_area m) = {}"
    and "ly_size L + room start fin \<le> unat (area_space (mc_area m))" "block_size < mc_space m"
  shows "case wire_parse (ly_enumerator L) ws [] (load_bytes (mc_mem m) start (room start fin)) of
     WDone vs rest \<Rightarrow>
       \<exists>m'. exec L start fin (stmts code) m = Some (Inl P_DONE, m') \<and>
            mc_count m' = of_nat (room start fin - length rest) \<and>
            list_all (\<lambda>(f, v). in_unit L (mc_mem m') (mc_unit m') f v) vs
   | WShort \<Rightarrow> \<exists>m'. exec L start fin (stmts code) m = Some (Inl P_OUT_OF_DATA, m')
   | WUndefined \<Rightarrow> True"
proof -
  have "list_all (\<lambda>(f, v). in_unit L (mc_mem m') (mc_unit m') f v) vs" if "decoding L fin m' vs rest" for m' vs rest
    using that holds_in_unit by (fastforce simp: decoding_def list_all_iff)
  then show ?thesis using parser_decodes[OF assms] by (fastforce split: wire_result.splits)
qed

theorem generated_parser_decodes_witness:
  "\<exists>cls code cls' s' ok m'. Class ''MessageParser'' [] = Some cls \<and> run_parser sample_env message_items cls ParserGenerator = Some (code, cls', s', ok) \<and>
     exec sample_layout 0x100 0x105 (stmts code) sample_machine = Some (Inl P_DONE, m') \<and> mc_count m' = 5 \<and>
     c_value W16 False (mc_mem m') (mc_unit m') = 2 \<and> c_value W8 False (mc_mem m') (mc_unit m' + 2) = 7 \<and>
     load_bytes (mc_mem m') (load_word (mc_mem m') (mc_unit m' + 16)) 2 = [65, 66]"
proof -
  obtain cls where cls: "Class ''MessageParser'' [] = Some cls" by (simp add: Class_def)
  obtain code cls' s' ok where run: "run_parser sample_env message_items cls ParserGenerator = Some (code, cls', s', ok)"
    using sample_parser by blast
  have "case wire_parse (ly_enumerator sample_layout) sample_wires [] (load_bytes (mc_mem sample_machine) 0x100 (room 0x100 0x105)) of
     WDone vs rest \<Rightarrow>
       \<exists>m'. exec sample_layout 0x100 0x105 (stmts code) sample_machine = Some (Inl P_DONE, m') \<and>
            mc_count m' = of_nat (room 0x100 0x105 - length rest) \<and>
            list_all (\<lambda>(f, v). in_unit sample_layout (mc_mem m') (mc_unit m') f v) vs
   | WShort \<Rightarrow> \<exists>m'. exec sample_layout 0x100 0x105 (stmts code) sample_machine = Some (Inl P_OUT_OF_DATA, m')
   | WUndefined \<Rightarrow> True"
    by (rule generated_parser_decodes[OF run _ sample_wires_of sample_fits _ sample_area(1)])
       (use sample_area(2,3) in \<open>simp_all add: ParserGenerator_def sample_machine_def room_def sample_layout_def block_size_def\<close>)
  moreover have "room 0x100 0x105 = 5" by (simp add: room_def)
  ultimately show ?thesis
    using cls run sample_wire_parse
    by (auto simp: sample_values_def member_addr_def sample_layout_def wire_value_def wire_nat_def add.commute simp flip: numeral_2_eq_2)
qed

end
