(* ===== verification/Gen_Encode.thy ===== *)
theory Gen_Encode
  imports Gen_Decode
begin

text \<open>
  Generated serializers write the wire format: run on a unit that holds the values of a message they
  produce the bytes of that message.  Together with the decoding theorem this closes the circle from
  the bytes of a buffer through the unit to the bytes of another buffer.
\<close>

section \<open>The code of a serializer\<close>

inductive sent :: "wire list \<Rightarrow> stmt list \<Rightarrow> bool" where
  sent_nil: "sent [] []"
| sent_int: "width_of_bits n = Some w \<Longrightarrow> order_of_label s = Some bo \<Longrightarrow> sent ws R \<Longrightarrow>
    sent (WInt f w sg bo # ws) (SLabel l # SAdvance l # SSrc u f # SSerializeInt n sg s # check_serialize @ R)"
| sent_bytes: "bytes_type ty \<Longrightarrow> sent ws R \<Longrightarrow>
    sent (WBytes f e # ws) (SLabel l # SAdvance l # SSrc u f # SCopyOut ty x # check_serialize @ R)"

inductive updates :: "wire list \<Rightarrow> stmt list \<Rightarrow> bool" where
  updates_nil: "updates [] []"
| updates_none: "updates ws R \<Longrightarrow> updates (w # ws) R"
| updates_length: "attribute_access e \<Longrightarrow> updates ws R \<Longrightarrow> updates (WBytes f e # ws) (SSrc u f # SUpdateLen e x # R)"

lemma emitCheckSerialize_pointer [simp]: "pg_input_pointer (emitCheckSerializeResult s) = pg_input_pointer s"
  by (simp add: emitCheckSerializeResult_def)

lemma serialize_type_sent:
  assumes "serialize_type env i (Some t) s = Some s'" "ge_types env t = Some ob" "wire_of_type env i f (ty_kind ob) = Some w"
    and "\<not> pg_input_pointer s"
  shows "\<exists>B. stmts (pg_code s') = stmts (pg_code s) @ B \<and> \<not> pg_input_pointer s' \<and>
    (\<forall>u l ws R. sent ws R \<longrightarrow> sent (w # ws) (SLabel l # SAdvance l # SSrc u f # B @ R))"
proof (cases "ty_kind ob")
  case TBytes
  then obtain e where e: "w = WBytes f e" "s' = serialize_bytes (reset_errors s)"
    using assms by (auto simp: serialize_type_def wire_of_type_def bind_eq_Some_conv)
  then show ?thesis using assms(4) sent_bytes[of "''var_bytes''"] by (auto simp: bytes_type_def serialize_bytes_def)
next
  case TString
  then obtain e where e: "w = WBytes f e" "s' = emitCheckSerializeResult (emit (SCopyOut ''var_string'' ''data_'') (reset_errors s))"
    using assms by (auto simp: serialize_type_def wire_of_type_def bind_eq_Some_conv)
  then show ?thesis using assms(4) sent_bytes[of "''var_string''"] by (auto simp: bytes_type_def)
next
  case (TInteger n sg)
  then obtain label w' bo where e: "byteOrderLabel env i = Some label" "width_of_bits n = Some w'" "order_of_label label = Some bo"
    "w = WInt f w' sg bo" "s' = emitCheckSerializeResult (emit (SSerializeInt n sg label) (reset_errors s))"
    using assms by (auto simp: serialize_type_def wire_of_type_def bind_eq_Some_conv)
  then show ?thesis using assms(4) sent_int[OF e(2,3)] by auto
qed (use assms(3) in \<open>simp_all add: wire_of_type_def\<close>)

lemma serialize_atomic_sent:
  assumes "serialize_atomic env b fb s = Some s'" "wire_of env (AtomicType b fb) = Some w" "\<not> pg_input_pointer s"
  shows "\<exists>B. stmts (pg_code s') = stmts (pg_code s) @ B \<and> \<not> pg_input_pointer s' \<and>
    (\<forall>l ws R. sent ws R \<longrightarrow> sent (w # ws) (SLabel l # SAdvance l # B @ R))"
proof -
  obtain t ob where t: "it_type b = Some t" "ge_types env t = Some ob" "wire_of_type env (AtomicType b fb) (field_name b) (ty_kind ob) = Some w"
    "serialized_type (AtomicType b fb) = Some t" "\<not> (\<not> it_app_accessible b \<and> ge_input_pointers env)"
    using assms(2) by (auto simp: wire_of_def bind_eq_Some_conv split: if_splits)
  then obtain u s2 where st: "serialize_type env (AtomicType b fb) (Some t) (emit (SSrc u (field_name b)) s) = Some s2"
    "s' = s2\<lparr>pg_input_pointer := False\<rparr>"
    using assms(1) by (auto simp: serialize_atomic_def Let_def bind_eq_Some_conv)
  from serialize_type_sent[OF st(1) t(2,3)] assms(3) st(2) show ?thesis by auto
qed

lemma serialize_items_sent:
  "serialize_items env is s = Some s' \<Longrightarrow> map (wire_of env) is = map Some ws \<Longrightarrow> \<not> pg_input_pointer s \<Longrightarrow>
     \<exists>B. stmts (pg_code s') = stmts (pg_code s) @ B \<and> sent ws B"
proof (induction "is" arbitrary: s ws)
  case Nil
  then show ?case by (auto intro: sent_nil)
next
  case (Cons i "is")
  obtain w ws' where ws: "ws = w # ws'" "wire_of env i = Some w" "map (wire_of env) is = map Some ws'" using Cons.prems(2) by auto
  obtain b fb where i: "i = AtomicType b fb" using ws(2) by (auto simp: wire_of_def split: item.splits)
  obtain s1 s2 where st: "begin_serialize env i s = Some s1" "serialize_atomic env b fb s1 = Some s2"
    "serialize_items env is (end_instruction (pg_code s) s2) = Some s'"
    using Cons.prems(1) by (auto simp: i bind_eq_Some_conv is_variable_def)
  obtain l where l: "stmts (pg_code s1) = [SLabel l, SAdvance l]" using begin_serialize_code[OF st(1)] by auto
  have p1: "\<not> pg_input_pointer s1"
    using st(1) Cons.prems(3)
    by (auto simp: begin_serialize_def newInstructionLabel_def emitInitInstruction_def bind_eq_Some_conv emit_def reset_errors_def)
  obtain B where B: "stmts (pg_code s2) = [SLabel l, SAdvance l] @ B" "\<not> pg_input_pointer s2"
    "\<forall>l ws R. sent ws R \<longrightarrow> sent (w # ws) (SLabel l # SAdvance l # B @ R)"
    using serialize_atomic_sent[OF st(2) _ p1] ws(2) l by (auto simp: i)
  have "\<not> pg_input_pointer (end_instruction (pg_code s) s2)" using B(2) by (simp add: end_instruction_def)
  from Cons.IH[OF st(3) ws(3) this] obtain R where "stmts (pg_code s') = stmts (pg_code s) @ [SLabel l, SAdvance l] @ B @ R" "sent ws' R"
    using B(1) by auto
  then show ?case using B(3) ws(1) by auto
qed

lemma updateLength_updates:
  assumes "updateLengthForField env i s = Some s'" "wire_of env i = Some w"
  shows "\<exists>B. stmts (pg_code s') = stmts (pg_code s) @ B \<and> pg_input_pointer s' = pg_input_pointer s \<and>
    (\<forall>ws R. updates ws R \<longrightarrow> updates (w # ws) (B @ R))"
proof -
  obtain b fb where i: "i = AtomicType b fb" using assms(2) by (auto simp: wire_of_def split: item.splits)
  obtain t ob where t: "it_type b = Some t" "ge_types env t = Some ob" "wire_of_type env i (field_name b) (ty_kind ob) = Some w"
    "serialized_type i = Some t"
    using assms(2) by (auto simp: i wire_of_def bind_eq_Some_conv split: if_splits)
  have st: "s' = s \<or> (\<exists>e x u. length_value_of i = Some (Some e) \<and> attribute_access e \<and> (ty_kind ob = TBytes \<or> ty_kind ob = TString) \<and>
      s' = emit (SUpdateLen e x) (emit (SSrc u (field_name b)) s))"
    using assms(1) t(2,4) unfolding updateLengthForField_def is_byte_string_def bind_eq_Some_conv
    by (simp add: i is_list_field_def split: if_split_asm option.split_asm) (auto simp: bind_eq_Some_conv split: if_split_asm)
  show ?thesis
  proof (cases "s' = s")
    case True
    then show ?thesis by (intro exI[of _ "[]"]) (auto intro: updates_none)
  next
    case False
    then obtain e x u where e: "length_value_of i = Some (Some e)" "attribute_access e" "ty_kind ob = TBytes \<or> ty_kind ob = TString"
      "s' = emit (SUpdateLen e x) (emit (SSrc u (field_name b)) s)" using st by blast
    then have "w = WBytes (field_name b) e" using t(3) by (auto simp: wire_of_type_def)
    then show ?thesis using e by (intro exI[of _ "[SSrc u (field_name b), SUpdateLen e x]"]) (auto intro: updates_length)
  qed
qed

lemma update_lengths_updates:
  "update_lengths env is s = Some s' \<Longrightarrow> map (wire_of env) (filter not_property is) = map Some ws \<Longrightarrow>
     \<exists>B. stmts (pg_code s') = stmts (pg_code s) @ B \<and> pg_input_pointer s' = pg_input_pointer s \<and> updates ws B"
proof (induction "is" arbitrary: s ws)
  case Nil
  then show ?case by (auto intro: updates_nil)
next
  case (Cons i "is")
  show ?case
  proof (cases "not_property i")
    case False
    then have "\<not> is_field i" by (cases i) (auto simp: not_property_def property_of_def is_field_def)
    then show ?thesis using Cons False by auto
  next
    case True
    then obtain w ws' where ws: "ws = w # ws'" "wire_of env i = Some w" "map (wire_of env) (filter not_property is) = map Some ws'"
      using Cons.prems(2) by auto
    have "is_field i" using ws(2) by (auto simp: wire_of_def is_field_def split: item.splits)
    then obtain s1 where st: "updateLengthForField env i s = Some s1" "update_lengths env is s1 = Some s'"
      using Cons.prems(1) by (auto simp: bind_eq_Some_conv)
    obtain B where B: "stmts (pg_code s1) = stmts (pg_code s) @ B" "pg_input_pointer s1 = pg_input_pointer s"
      "\<forall>ws R. updates ws R \<longrightarrow> updates (w # ws) (B @ R)" using updateLength_updates[OF st(1) ws(2)] by auto
    obtain R where "stmts (pg_code s') = stmts (pg_code s1) @ R" "pg_input_pointer s' = pg_input_pointer s1" "updates ws' R"
      using Cons.IH[OF st(2) ws(3)] by auto
    then show ?thesis using B ws(1) by (intro exI[of _ "B @ R"]) simp
  qed
qed

lemma wire_items:
  assumes "map (wire_of env) (filter not_property is) = map Some ws"
  shows "filter is_variable is = []" "filter (\<lambda>i. not_property i \<and> \<not> is_variable i) is = filter not_property is"
proof -
  have "\<forall>x\<in>set (map (wire_of env) (filter not_property is)). x \<noteq> None" unfolding assms by auto
  then have "wire_of env i \<noteq> None" if "i \<in> set is" "not_property i" for i using that by auto
  then have var: "\<not> is_variable i" if "i \<in> set is" for i
    using that by (cases i) (fastforce simp: is_variable_def wire_of_def not_property_def property_of_def)+
  then show "filter is_variable is = []" "filter (\<lambda>i. not_property i \<and> \<not> is_variable i) is = filter not_property is"
    by (auto simp: filter_empty_conv intro: filter_cong)
qed

definition serializer_code :: "(string \<times> string) list \<Rightarrow> string \<Rightarrow> stmt list \<Rightarrow> stmt list" where
  "serializer_code ts root inner =
     [SDecl ''char*'' ''serialize_src'', SDecl serialize_result ''serialize_res'', SDecl ''char*'' ''dollar''] @ decls_of ts @
     resume_header root @ [SPush, SStateUnit, SInitPos ''out_buf_start''] @ inner @
     [SCountBytes ''bytes_written'' ''out_buf_start'', SReturnDone serialize_result]"

lemma run_serializer_sent:
  assumes "run_serializer env is cls s = Some (code, cls', s', ok)" "map (wire_of env) (filter not_property is) = map Some ws" "\<not> pg_input_pointer s"
  shows "\<exists>ts root A B. stmts code = serializer_code ts root (A @ B) \<and> updates ws A \<and> sent ws B"
proof -
  define root where "root = fst (newInstructionLabel ''root'' s)"
  define s1 where "s1 = (snd (newInstructionLabel ''root'' s))\<lparr>pg_code := empty_code\<rparr>"
  note items = wire_items[OF assms(2)]
  obtain s2 s4 where st: "update_lengths env is s1 = Some s2"
    "serialize_items env (filter not_property is) (emit_newline (emit_newline s2)) = Some s4"
    "code = pg_code (serialize_body root (pg_code s4) s4)"
    using assms(1) by (auto simp: run_serializer_def root_def s1_def Let_def bind_eq_Some_conv case_prod_beta items)
  have s1: "stmts (pg_code s1) = []" "\<not> pg_input_pointer s1" using assms(3) by (simp_all add: s1_def newInstructionLabel_def)
  obtain A where A: "stmts (pg_code s2) = A" "\<not> pg_input_pointer s2" "updates ws A"
    using update_lengths_updates[OF st(1) assms(2)] s1 by auto
  then obtain B where "stmts (pg_code s4) = A @ B" "sent ws B"
    using serialize_items_sent[OF st(2) assms(2)] by (auto simp: emit_newline_def)
  then show ?thesis using A(3) unfolding st(3) serialize_body_stmts serializer_code_def by auto
qed

section \<open>Updating lengths\<close>

lemma int_bytes_wire:
  assumes "length cs = width_bytes w" "wire_value sg Little cs = int k"
  shows "int_bytes w (int k) = cs"
proof -
  have len: "8 * length cs \<le> LENGTH(64)" using assms(1) by (cases w) simp_all
  have "int (le_nat cs) < 256 ^ length cs" using le_nat_less[of cs] by (metis of_nat_less_iff of_nat_numeral of_nat_power)
  then have "int (le_nat cs) - 256 ^ length cs \<noteq> int k" by linarith
  then have "k = le_nat cs" using assms(2) by (auto simp: wire_value_def wire_nat_def Let_def split: if_splits)
  moreover have "of_nat (unat (word_of_le cs :: 64 word)) = (word_of_le cs :: 64 word)" by simp
  ultimately have "word_of_int (int k) = (word_of_le cs :: 64 word)" unfolding unat_word_of_le[OF len] by simp
  then show ?thesis using le_of_word_of_le[OF len] assms(1) by (simp add: int_bytes_def)
qed

definition lengths_agree :: "(taddr \<Rightarrow> string \<Rightarrow> int option) \<Rightarrow> wire list \<Rightarrow> (string \<times> wval) list \<Rightarrow> bool" where
  "lengths_agree en ws vs \<longleftrightarrow>
     (\<forall>f e. WBytes f e \<in> set ws \<longrightarrow> (\<exists>bs. (f, VBytes bs) \<in> set vs \<and> eval_with en (int_values vs) e = Some (int (length bs))))"

definition holds_all :: "layout \<Rightarrow> addr set \<Rightarrow> machine \<Rightarrow> (string \<times> wval) list \<Rightarrow> bool" where
  "holds_all L A m vs \<longleftrightarrow> (\<forall>(f, v)\<in>set vs. holds L (mc_mem m) (mc_unit m) A f v)"

lemma update_same:
  assumes "holds_all L A m vs" "attribute_access e" "(f, VBytes bs) \<in> set vs" "eval_with en (int_values vs) e = Some (int (length bs))"
    and "\<forall>f v. (f, v) \<in> set vs \<longrightarrow> length (wval_bytes v) = (case v of VInt w sg bo bs \<Rightarrow> width_bytes w | VBytes bs \<Rightarrow> length bs)"
  shows "exec L start fin (SSrc u f # SUpdateLen e x # K) m = exec L start fin K (m\<lparr>mc_ptr := member_addr L (mc_unit m) f\<rparr>)"
proof -
  let ?p = "member_addr L (mc_unit m) f"
  obtain ops g where e: "e = EOperator op_Attribute ops" "self_field ops = Some g" "int_values vs g = Some (int (length bs))"
    using assms(2,4) by (auto simp: attribute_access_def bind_eq_Some_conv split: expr.splits)
  then obtain v where v: "(g, v) \<in> set vs" "wval_int v = Some (int (length bs))"
    by (auto simp: int_values_def bind_eq_Some_conv dest: map_of_SomeD)
  then obtain w sg bo cs where vi: "v = VInt w sg bo cs" "wire_value sg bo cs = int (length bs)" by (cases v) auto
  have g: "ly_scalar L g = Some (w, sg)" "load_bytes (mc_mem m) (member_addr L (mc_unit m) g) (width_bytes w) = reorder bo cs"
    using assms(1) v(1) vi(1) by (auto simp: holds_all_def)
  have f: "load_word (mc_mem m) ?p = (of_nat (length bs) :: size_t)" "length bs < 2 ^ 63" using assms(1,3) by (auto simp: holds_all_def)
  have len: "length cs = width_bytes w" using assms(5) v(1) vi(1) by fastforce
  have "int_bytes w (int (length bs)) = reorder bo cs"
    by (rule int_bytes_wire[where sg = sg]) (use len vi(2) in \<open>simp_all add: wire_value_reorder\<close>)
  moreover have "uint (of_nat (length bs) :: size_t) = int (length bs)" using f(2) by (simp add: uint_nat unat_of_nat)
  moreover have "store_bytes (mc_mem m) (member_addr L (mc_unit m) g) (reorder bo cs) = mc_mem m"
    using store_bytes_load[of "width_bytes w" "mc_mem m" "member_addr L (mc_unit m) g"] g(2) width_bytes_bounds(2)[of w] by simp
  ultimately show ?thesis
    using f(1) g(1) by (cases m) (simp add: exec.simps(2) transfer_def step_def e(1,2) len_at_def store_member_def)
qed

definition sized :: "(string \<times> wval) list \<Rightarrow> bool" where
  "sized vs \<longleftrightarrow> (\<forall>f v. (f, v) \<in> set vs \<longrightarrow> length (wval_bytes v) = (case v of VInt w sg bo bs \<Rightarrow> width_bytes w | VBytes bs \<Rightarrow> length bs))"

lemma exec_updates:
  "updates ws A' \<Longrightarrow> holds_all L A m vs \<Longrightarrow> sized vs \<Longrightarrow> lengths_agree en ws vs \<Longrightarrow>
     \<exists>p. exec L start fin (A' @ K) m = exec L start fin K (m\<lparr>mc_ptr := p\<rparr>)"
proof (induction arbitrary: m rule: updates.induct)
  case updates_nil
  show ?case by (rule exI[of _ "mc_ptr m"]) (cases m; simp)
next
  case (updates_none ws R w)
  then show ?case by (simp add: lengths_agree_def)
next
  case (updates_length e ws R f u x)
  obtain bs where bs: "(f, VBytes bs) \<in> set vs" "eval_with en (int_values vs) e = Some (int (length bs))"
    using updates_length.prems(3) by (auto simp: lengths_agree_def)
  let ?m = "m\<lparr>mc_ptr := member_addr L (mc_unit m) f\<rparr>"
  have "holds_all L A ?m vs" "lengths_agree en ws vs" using updates_length.prems by (simp_all add: holds_all_def lengths_agree_def)
  then obtain p where "exec L start fin (R @ K) ?m = exec L start fin K (?m\<lparr>mc_ptr := p\<rparr>)"
    using updates_length.IH updates_length.prems(2) by blast
  then show ?case
    using update_same[OF updates_length.prems(1) updates_length.hyps(1) bs updates_length.prems(2)[unfolded sized_def]] by auto
qed

section \<open>Writing the fields\<close>

lemma exec_out_int:
  "exec L start fin (SSerializeInt n sg s # SIfNotDone v t # SReturnRes v' # K) m =
     (case width_of_bits n of None \<Rightarrow> None | Some w \<Rightarrow>
      case order_of_label s of None \<Rightarrow> None | Some bo \<Rightarrow>
      if room (mc_pos m) fin < width_bytes w then Some (Inr S_OUT_BUF_FULL, m\<lparr>mc_res := Inr S_OUT_BUF_FULL\<rparr>)
      else exec L start fin K (m\<lparr>mc_res := Inr S_DONE, mc_pos := mc_pos m + of_nat (width_bytes w),
             mc_mem := store_bytes (mc_mem m) (mc_pos m) (reorder bo (load_bytes (mc_mem m) (mc_ptr m) (width_bytes w)))\<rparr>))"
  by (cases m) (auto simp: exec.simps(2) transfer_def step_def serializeInt_spec is_done_def split: option.split)

lemma exec_out_bytes:
  assumes "room (mc_pos m) fin < 2 ^ 63" "load_word (mc_mem m) (mc_ptr m) = (of_nat k :: size_t)" "k < 2 ^ 63" and ty: "bytes_type ty"
  shows "exec L start fin (SCopyOut ty x # SIfNotDone v t # SReturnRes v' # K) m =
     (if room (mc_pos m) fin < k then Some (Inr S_OUT_BUF_FULL, m\<lparr>mc_res := Inr S_OUT_BUF_FULL\<rparr>)
      else exec L start fin K (m\<lparr>mc_res := Inr S_DONE, mc_pos := mc_pos m + of_nat k,
             mc_mem := memcpy (mc_mem m) (mc_pos m) (load_word (mc_mem m) (mc_ptr m + 8)) (of_nat k)\<rparr>))"
proof -
  have un: "unat (of_nat k :: size_t) = k" using assms(3) by (simp add: unat_of_nat)
  show ?thesis
    using assms(1-3) sint_less_room[OF assms(1), of "of_nat k"] un
    by (cases m) (simp add: exec.simps(2) transfer_def step_def Let_def load_len_def bytes_type_at[OF ty] copyBytes_s_def is_done_def)
qed

fun wire_value_of :: "string \<times> wval \<Rightarrow> wire \<Rightarrow> bool" where
  "wire_value_of (g, VInt w sg bo bs) x \<longleftrightarrow> x = WInt g w sg bo \<and> length bs = width_bytes w"
| "wire_value_of (g, VBytes bs) x \<longleftrightarrow> (\<exists>e. x = WBytes g e)"

definition writable :: "layout \<Rightarrow> addr set \<Rightarrow> addr \<Rightarrow> machine \<Rightarrow> bool" where
  "writable L A fin m \<longleftrightarrow>
     mc_pos m \<le> fin \<and> room (mc_pos m) fin < 2 ^ 63 \<and>
     range_of (mc_pos m) (room (mc_pos m) fin) \<inter> (A \<union> range_of (mc_unit m) (ly_size L)) = {}"

definition written :: "machine \<Rightarrow> machine \<Rightarrow> byte list \<Rightarrow> bool" where
  "written m m' bs \<longleftrightarrow>
     mc_pos m' = mc_pos m + of_nat (length bs) \<and> mc_unit m' = mc_unit m \<and>
     load_bytes (mc_mem m') (mc_pos m) (length bs) = bs \<and>
     (\<forall>y. y \<notin> range_of (mc_pos m) (length bs) \<longrightarrow> mc_mem m' y = mc_mem m y)"

lemma written_nil: "written m m []"
  by (simp add: written_def)

lemma written_append:
  assumes "written m m1 bs" "written m1 m2 cs" "length bs + length cs \<le> 2 ^ 64"
  shows "written m m2 (bs @ cs)"
proof -
  have pos: "mc_pos m1 = mc_pos m + of_nat (length bs)" using assms(1) by (simp add: written_def)
  have dis: "range_of (mc_pos m) (length bs) \<inter> range_of (mc_pos m1) (length cs) = {}"
    unfolding pos by (rule disjoint_prefix[OF assms(3)])
  have "load_bytes (mc_mem m2) (mc_pos m) (length bs) = load_bytes (mc_mem m1) (mc_pos m) (length bs)"
    using dis assms(2) by (intro load_bytes_cong) (auto simp: written_def)
  then have "load_bytes (mc_mem m2) (mc_pos m) (length (bs @ cs)) = bs @ cs"
    using assms(1,2) pos by (simp add: load_bytes_append written_def)
  moreover have "mc_mem m2 y = mc_mem m y" if "y \<notin> range_of (mc_pos m) (length (bs @ cs))" for y
    using that assms(1,2) pos by (simp add: range_of_add written_def)
  ultimately show ?thesis using assms(1,2) by (simp add: written_def add.assoc)
qed

lemma writable_next:
  assumes "writable L A fin m" "written m m' bs" "length bs \<le> room (mc_pos m) fin"
  shows "writable L A fin m'" "room (mc_pos m') fin = room (mc_pos m) fin - length bs"
proof -
  have pos: "mc_pos m' = mc_pos m + of_nat (length bs)" "mc_unit m' = mc_unit m" using assms(2) by (simp_all add: written_def)
  have le: "mc_pos m \<le> fin" using assms(1) by (simp add: writable_def)
  note p = position_in_buffer[OF le assms(3)]
  show r: "room (mc_pos m') fin = room (mc_pos m) fin - length bs" using p(3) by (simp add: pos)
  have "range_of (mc_pos m') (room (mc_pos m') fin) \<subseteq> range_of (mc_pos m) (room (mc_pos m) fin)"
    using range_of_inner[of "length bs" "room (mc_pos m') fin" "room (mc_pos m) fin" "mc_pos m"] assms(3) r by (simp add: pos)
  then show "writable L A fin m'" using assms(1) p(2) r pos by (auto simp: writable_def)
qed

lemma holds_all_next:
  assumes "holds_all L A m vs" "fits L ws" "list_all2 wire_value_of vs ws" "writable L A fin m" "written m m' bs" "length bs \<le> room (mc_pos m) fin"
  shows "holds_all L A m' vs"
  unfolding holds_all_def
proof (intro ballI, clarify)
  fix g v assume gv: "(g, v) \<in> set vs"
  let ?W = "range_of (mc_pos m) (length bs)"
  have W: "?W \<inter> (A \<union> range_of (mc_unit m) (ly_size L)) = {}" using assms(4,6) range_of_mono[OF assms(6), of "mc_pos m"] by (auto simp: writable_def)
  have "\<exists>w\<in>set ws. wire_value_of (g, v) w" using assms(3) gv by (induction rule: list_all2_induct) auto
  then obtain w where w: "w \<in> set ws" "wire_name w = g" "wire_size w = wval_size v" by (cases v) auto
  have "range_of (member_addr L (mc_unit m) g) (wval_size v) \<subseteq> range_of (mc_unit m) (ly_size L)"
    using fits_member[OF assms(2) w(1), of "mc_unit m"] w by simp
  then show "holds L (mc_mem m') (mc_unit m') A g v"
    using holds_frame[of L "mc_mem m" "mc_unit m" A g v ?W "mc_mem m'" A] assms(1,5) gv W by (auto simp: written_def holds_all_def)
qed

lemma exec_to_out:
  "exec L start fin (SLabel l # SAdvance l # SSrc u f # P) m =
     exec L start fin P (m\<lparr>mc_instr := Some l, mc_ptr := member_addr L (mc_unit m) f\<rparr>)"
  by (simp add: exec.simps(2) transfer_def step_def)

lemma fits_tail: "fits L (w # ws) \<Longrightarrow> fits L ws"
  by (simp add: fits_def list_all_iff)

definition write_result :: "layout \<Rightarrow> addr \<Rightarrow> addr \<Rightarrow> stmt list \<Rightarrow> stmt list \<Rightarrow> machine \<Rightarrow> byte list \<Rightarrow> bool" where
  "write_result L start fin B K m bs \<longleftrightarrow>
     (if length bs \<le> room (mc_pos m) fin
      then \<exists>m'. exec L start fin (B @ K) m = exec L start fin K m' \<and> written m m' bs
      else \<exists>m'. exec L start fin (B @ K) m = Some (Inr S_OUT_BUF_FULL, m'))"

text \<open>Writing one field and then the others.\<close>

lemma write_step:
  assumes "exec L start fin (F @ R @ K) m =
      (if room (mc_pos m) fin < length bs then Some (Inr S_OUT_BUF_FULL, m0) else exec L start fin (R @ K) m1)"
    and "length bs \<le> room (mc_pos m) fin \<Longrightarrow> written m m1 bs" "writable L A fin m"
    and "length bs \<le> room (mc_pos m) fin \<Longrightarrow> write_result L start fin R K m1 cs"
  shows "write_result L start fin (F @ R) K m (bs @ cs)"
proof (cases "length bs \<le> room (mc_pos m) fin")
  case True
  note w = assms(2)[OF True]
  have room: "room (mc_pos m1) fin = room (mc_pos m) fin - length bs" by (rule writable_next(2)[OF assms(3) w True])
  have small: "room (mc_pos m) fin < 2 ^ 63" using assms(3) by (simp add: writable_def)
  show ?thesis
  proof (cases "length cs \<le> room (mc_pos m1) fin")
    case fits: True
    then obtain m2 where "exec L start fin (R @ K) m1 = exec L start fin K m2" "written m1 m2 cs"
      using assms(4)[OF True] by (auto simp: write_result_def)
    moreover have "length bs + length cs \<le> room (mc_pos m) fin" using fits room True by simp
    ultimately show ?thesis
      using assms(1) True written_append[OF w] small by (fastforce simp: write_result_def)
  next
    case False
    then show ?thesis using assms(1,4) True room by (auto simp: write_result_def)
  qed
qed (use assms(1) in \<open>auto simp: write_result_def\<close>)

lemma exec_sent:
  assumes "sent ws B"
  shows "list_all2 wire_value_of vs ws \<Longrightarrow> fits L ws \<Longrightarrow> holds_all L A m vs \<Longrightarrow> writable L A fin m \<Longrightarrow>
     write_result L start fin B K m (wire_bytes vs)"
  using assms
proof (induction arbitrary: m vs)
  case sent_nil
  then show ?case using written_nil by (auto simp: write_result_def wire_bytes_def)
next
  case (sent_int n w s bo ws R f sg l u)
  obtain v vs' where vs: "vs = (f, VInt w sg bo v) # vs'" "length v = width_bytes w" "list_all2 wire_value_of vs' ws"
  proof -
    obtain x vs' where "vs = x # vs'" "wire_value_of x (WInt f w sg bo)" "list_all2 wire_value_of vs' ws"
      using sent_int.prems(1) by (auto simp: list_all2_Cons2)
    then show ?thesis using that by (cases x; cases "snd x") auto
  qed
  let ?p = "member_addr L (mc_unit m) f"
  let ?M = "m\<lparr>mc_instr := Some l, mc_ptr := ?p\<rparr>"
  let ?m1 = "?M\<lparr>mc_res := Inr S_DONE, mc_pos := mc_pos m + of_nat (width_bytes w), mc_mem := store_bytes (mc_mem m) (mc_pos m) v\<rparr>"
  have load: "reorder bo (load_bytes (mc_mem m) ?p (width_bytes w)) = v" using sent_int.prems(3) vs(1) by (simp add: holds_all_def)
  have wr: "written m ?m1 v" using vs(2) by (simp add: written_def store_bytes_outside)
  have run: "exec L start fin ((SLabel l # SAdvance l # SSrc u f # SSerializeInt n sg s # check_serialize) @ R @ K) m =
      (if room (mc_pos m) fin < length v then Some (Inr S_OUT_BUF_FULL, ?M\<lparr>mc_res := Inr S_OUT_BUF_FULL\<rparr>)
       else exec L start fin (R @ K) ?m1)"
    using sent_int.hyps(1,2) load vs(2) by (simp add: exec_to_out exec_out_int)
  have "write_result L start fin R K ?m1 (wire_bytes vs')" if "length v \<le> room (mc_pos m) fin"
  proof (rule sent_int.IH[OF vs(3) fits_tail[OF sent_int.prems(2)]])
    show "writable L A fin ?m1" by (rule writable_next(1)[OF sent_int.prems(4) wr that])
    show "holds_all L A ?m1 vs'"
      using holds_all_next[OF sent_int.prems(3,2,1,4) wr that] by (simp add: holds_all_def vs(1))
  qed
  from write_step[OF run _ sent_int.prems(4) this] wr show ?case by (simp add: vs(1) wire_bytes_def)
next
  case (sent_bytes ty ws R f e l u x)
  obtain v vs' where vs: "vs = (f, VBytes v) # vs'" "list_all2 wire_value_of vs' ws"
  proof -
    obtain y vs' where "vs = y # vs'" "wire_value_of y (WBytes f e)" "list_all2 wire_value_of vs' ws"
      using sent_bytes.prems(1) by (auto simp: list_all2_Cons2)
    then show ?thesis using that by (cases y; cases "snd y") auto
  qed
  let ?p = "member_addr L (mc_unit m) f"
  let ?M = "m\<lparr>mc_instr := Some l, mc_ptr := ?p\<rparr>" and ?q = "load_word (mc_mem m) (?p + 8)" and ?k = "of_nat (length v) :: size_t"
  let ?m1 = "?M\<lparr>mc_res := Inr S_DONE, mc_pos := mc_pos m + of_nat (length v), mc_mem := memcpy (mc_mem m) (mc_pos m) ?q ?k\<rparr>"
  have v: "load_word (mc_mem m) ?p = ?k" "length v < 2 ^ 63" "load_bytes (mc_mem m) ?q (length v) = v"
    using sent_bytes.prems(3) vs(1) by (simp_all add: holds_all_def)
  have un: "unat ?k = length v" using v(2) by (simp add: unat_of_nat)
  have wr: "written m ?m1 v"
    using load_bytes_memcpy[of "mc_mem m" "mc_pos m" ?q ?k] v(3) un by (simp add: written_def memcpy_outside)
  have small: "room (mc_pos ?M) fin < 2 ^ 63" using sent_bytes.prems(4) by (simp add: writable_def)
  have run: "exec L start fin ((SLabel l # SAdvance l # SSrc u f # SCopyOut ty x # check_serialize) @ R @ K) m =
      (if room (mc_pos m) fin < length v then Some (Inr S_OUT_BUF_FULL, ?M\<lparr>mc_res := Inr S_OUT_BUF_FULL\<rparr>)
       else exec L start fin (R @ K) ?m1)"
    using v exec_out_bytes[OF small _ v(2) sent_bytes.hyps(1)] by (simp add: exec_to_out)
  have "write_result L start fin R K ?m1 (wire_bytes vs')" if "length v \<le> room (mc_pos m) fin"
  proof (rule sent_bytes.IH[OF vs(2) fits_tail[OF sent_bytes.prems(2)]])
    show "writable L A fin ?m1" by (rule writable_next(1)[OF sent_bytes.prems(4) wr that])
    show "holds_all L A ?m1 vs'"
      using holds_all_next[OF sent_bytes.prems(3,2,1,4) wr that] by (simp add: holds_all_def vs(1))
  qed
  from write_step[OF run _ sent_bytes.prems(4) this] wr show ?case by (simp add: vs(1) wire_bytes_def)
qed

section \<open>Values of a message\<close>

lemma wire_parse_shape:
  "wire_parse en ws vs bs = WDone us rest \<Longrightarrow> list_all2 wire_value_of vs dn \<Longrightarrow> list_all2 wire_value_of us (dn @ ws)"
proof (induction en ws vs bs arbitrary: dn rule: wire_parse.induct)
  case (2 en f w sg bo ws vs bs)
  have "list_all2 wire_value_of (vs @ [(f, VInt w sg bo (take (width_bytes w) bs))]) (dn @ [WInt f w sg bo])"
    if "\<not> length bs < width_bytes w" using 2(3) that by (intro list_all2_appendI) simp_all
  then show ?case using 2(1)[of "dn @ [WInt f w sg bo]"] 2(2) by (auto split: if_splits)
next
  case (3 en f e ws vs bs)
  have "list_all2 wire_value_of (vs @ [(f, VBytes x)]) (dn @ [WBytes f e])" for x using 3(3) by (intro list_all2_appendI) simp_all
  then show ?case using 3(1)[of _ "dn @ [WBytes f e]"] 3(2) by (auto split: if_splits option.splits)
qed simp

lemma wire_value_sized: "list_all2 wire_value_of vs ws \<Longrightarrow> sized vs"
proof (induction rule: list_all2_induct)
  case (Cons x xs y ys)
  then show ?case by (cases x; cases "snd x") (auto simp: sized_def)
qed (simp add: sized_def)

lemma int_values_append: "int_values vs g = Some n \<Longrightarrow> int_values (vs @ us) g = Some n"
  by (auto simp: int_values_def bind_eq_Some_conv map_add_def)

lemma wire_parse_extends: "wire_parse en ws vs bs = WDone us rest \<Longrightarrow> \<exists>new. us = vs @ new"
  by (induction en ws vs bs rule: wire_parse.induct) (fastforce split: if_splits option.splits)+

lemma wire_parse_lengths: "wire_parse en ws vs bs = WDone us rest \<Longrightarrow> lengths_agree en ws us"
proof (induction en ws vs bs rule: wire_parse.induct)
  case (3 en f e ws vs bs)
  then obtain n where n: "eval_with en (int_values vs) e = Some n" "0 \<le> n" "nat n \<le> length bs"
    "wire_parse en ws (vs @ [(f, VBytes (take (nat n) bs))]) (drop (nat n) bs) = WDone us rest" "lengths_agree en ws us"
    by (auto split: if_splits option.splits)
  obtain new where us: "us = (vs @ [(f, VBytes (take (nat n) bs))]) @ new" using wire_parse_extends[OF n(4)] by blast
  have "eval_with en (int_values us) e = Some n"
    by (rule eval_with_mono(1)[OF _ n(1)]) (simp only: us append_assoc int_values_append)
  then show ?case using n(2,3,5) us by (fastforce simp: lengths_agree_def)
qed (auto simp: lengths_agree_def split: if_splits)

section \<open>Whole serializers\<close>

lemma exec_serializer:
  assumes "mc_instr m = None" "block_size < mc_space m"
  shows "exec L start fin (serializer_code ts root inner) m =
     exec L start fin (inner @ [SCountBytes ''bytes_written'' ''out_buf_start'', SReturnDone serialize_result])
       (m\<lparr>mc_blocks := mc_unit m # mc_blocks m, mc_space := mc_space m - block_size, mc_pos := start\<rparr>)"
  using assms
  by (cases m) (simp add: serializer_code_def exec.simps(2) transfer_def step_def exec_decls resume_header_def after_def)

lemma serializer_encodes:
  assumes "run_serializer env is cls s = Some (code, cls', s', ok)" "\<not> pg_input_pointer s"
    and "map (wire_of env) (filter not_property is) = map Some ws" "fits L ws"
    and vals: "list_all2 wire_value_of vs ws" "lengths_agree (ly_enumerator L) ws vs" "holds_all L A m vs"
    and "mc_instr m = None" "block_size < mc_space m" and pos: "start \<le> fin" "room start fin < 2 ^ 63"
    and apart: "range_of start (room start fin) \<inter> (A \<union> range_of (mc_unit m) (ly_size L)) = {}"
  shows "if length (wire_bytes vs) \<le> room start fin
     then \<exists>m'. exec L start fin (stmts code) m = Some (Inr S_DONE, m') \<and> mc_count m' = of_nat (length (wire_bytes vs)) \<and>
            load_bytes (mc_mem m') start (length (wire_bytes vs)) = wire_bytes vs \<and>
            (\<forall>y. y \<in> range_of start (length (wire_bytes vs)) \<or> mc_mem m' y = mc_mem m y)
     else \<exists>m'. exec L start fin (stmts code) m = Some (Inr S_OUT_BUF_FULL, m')"
proof -
  obtain ts root U B where code: "stmts code = serializer_code ts root (U @ B)" "updates ws U" "sent ws B"
    using run_serializer_sent[OF assms(1,3,2)] by blast
  let ?K = "[SCountBytes ''bytes_written'' ''out_buf_start'', SReturnDone serialize_result]"
  let ?m = "m\<lparr>mc_blocks := mc_unit m # mc_blocks m, mc_space := mc_space m - block_size, mc_pos := start\<rparr>"
  have "holds_all L A ?m vs" using vals(3) by (simp add: holds_all_def)
  from exec_updates[OF code(2) this wire_value_sized[OF vals(1)] vals(2)]
  obtain p where run: "exec L start fin (stmts code) m = exec L start fin (B @ ?K) (?m\<lparr>mc_ptr := p\<rparr>)"
    using exec_serializer[OF assms(8,9)] by (fastforce simp: code(1))
  have "write_result L start fin B ?K (?m\<lparr>mc_ptr := p\<rparr>) (wire_bytes vs)"
    by (rule exec_sent[OF code(3) vals(1) assms(4), where A = A]) (use vals(3) pos apart in \<open>simp_all add: holds_all_def writable_def\<close>)
  then show ?thesis
    by (fastforce simp: write_result_def run written_def exec.simps(2) transfer_def step_def serialize_result_def)
qed

section \<open>The sample unit\<close>

lemma serializer_class_total: "\<exists>cls'. serializer_class body cls = Some cls'"
proof -
  have "Class ''SerializerConstants'' [] \<noteq> None" "Class ''BlockState'' [] \<noteq> None" by (simp_all add: Class_def)
  moreover have "MemberVariable ''consts_'' ''SerializerConstants'' False acc_Public \<noteq> None" "MemberVariable ''unit'' ''char*'' False acc_Public \<noteq> None"
    by (simp_all add: MemberVariable_def makeIdentifier_def replace_char_def)
  moreover have "Function ''initSerializerConstants'' ''void'' acc_Private False \<noteq> None" "Function ''serialize'' serialize_result acc_Public False \<noteq> None"
    by (simp_all add: Function_def setReturnType_def serialize_result_def)
  ultimately show ?thesis by (auto simp: serializer_class_def)
qed

definition sample_updated :: pgen where
  "sample_updated = emit_newline (emit (SUpdateLen (self_member 3 ''len'') ''(SELF(Message).len)'') (emit (SSrc ''UNIT(Message)'' ''body'')
     ((snd (newInstructionLabel ''root'' SerializerGenerator))\<lparr>pg_code := empty_code\<rparr>)))"

lemma sample_update:
  "map_option emit_newline (update_lengths sample_env message_items ((snd (newInstructionLabel ''root'' SerializerGenerator))\<lparr>pg_code := empty_code\<rparr>)) =
     Some sample_updated"
  by code_simp

lemma sample_serialized:
  "serialize_items sample_env (filter (\<lambda>i. not_property i \<and> \<not> is_variable i) message_items) (emit_newline sample_updated) \<noteq> None"
  by code_simp

lemma sample_serializer:
  "\<exists>code cls' s' ok. run_serializer sample_env message_items cls SerializerGenerator = Some (code, cls', s', ok)"
proof -
  obtain s2 where s2: "update_lengths sample_env message_items ((snd (newInstructionLabel ''root'' SerializerGenerator))\<lparr>pg_code := empty_code\<rparr>) = Some s2"
    "emit_newline s2 = sample_updated" using sample_update by (auto simp: map_option_case split: option.splits)
  obtain s4 where s4: "serialize_items sample_env (filter (\<lambda>i. not_property i \<and> \<not> is_variable i) message_items) (emit_newline sample_updated) = Some s4"
    using sample_serialized by auto
  have none: "filter is_variable message_items = []" by (simp add: message_items_def is_variable_def)
  obtain cls' where "serializer_class (kc_text (to_kcode (pg_code (serialize_body (fst (newInstructionLabel ''root'' SerializerGenerator)) (pg_code s4) s4)))) cls = Some cls'"
    using serializer_class_total by blast
  then show ?thesis using s2 s4 none by (simp add: run_serializer_def Let_def case_prod_beta)
qed

end
