(* ===== verification/Unit_Typing.thy ===== *)
theory Unit_Typing
  imports Gen_Typed Gen_Encode
begin

text \<open>
  The functions that the generators build, and the class that the code generator declares for the same
  unit, fit together: the locals are declared once, and the members are read and written as what they
  were declared.
\<close>

section \<open>Local variables of a function\<close>

definition argument_local :: "string \<Rightarrow> string \<times> string" where
  "argument_local a = (tl (dropWhile (\<lambda>c. c \<noteq> CHR '' '') a), takeWhile (\<lambda>c. c \<noteq> CHR '' '') a)"

lemma temp_name_inj: "temp_name j = temp_name k \<longleftrightarrow> j = k"
  by (simp add: temp_name_def)

lemma temps_distinct: "temps_named s \<Longrightarrow> distinct (map fst (pg_temps s)) \<and> (\<forall>v\<in>set (map fst (pg_temps s)). \<exists>k. v = temp_name k)"
  by (auto simp: temps_named_def distinct_map inj_on_def temp_name_inj)

lemma type_decls:
  assumes "distinct (map fst ts)" and "\<forall>v\<in>set (map fst ts). map_of L v = None"
  shows "type_stmts cls (decls_of ts) (tstate L d g sw) = Some (tstate (rev ts @ L) d g sw)"
  using assms
proof (induction ts arbitrary: L)
  case (Cons t ts)
  obtain v ty where t: "t = (v, ty)" by (cases t)
  have "\<forall>w\<in>set (map fst ts). map_of ((v, ty) # L) w = None" using Cons.prems t by auto
  from Cons.IH[OF _ this] show ?case using Cons.prems t by (simp add: decls_of_def)
qed (simp add: decls_of_def)

lemma scope_temps:
  assumes "distinct (map fst ts)" and "\<forall>v\<in>set (map fst ts). map_of L v = None" and "scope L vs"
  shows "scope (rev ts @ L) (vs @ ts)"
proof -
  have "map_of (rev ts @ L) v = Some ty" if "(v, ty) \<in> set ts" for v ty
    using that assms(1) by (simp add: map_add_Some_iff rev_map[symmetric])
  moreover have "map_of (rev ts @ L) v = Some ty" if "(v, ty) \<in> set vs" for v ty
  proof -
    have L: "map_of L v = Some ty" using assms(3) that by (auto simp: scope_def)
    then have "v \<notin> fst ` set ts" using assms(2) by auto
    then show ?thesis using L by (simp add: map_add_def map_of_eq_None_iff[THEN iffD2])
  qed
  ultimately show ?thesis by (auto simp: scope_def)
qed

text \<open>A body checks when its declarations do and the code after them is typed in their scope.\<close>

lemma body_typed:
  assumes "type_stmts cls D (tstate args None None []) = Some (tstate L None None [])"
    and "temps_named s" and "\<forall>k. map_of L (temp_name k) = None" and "scope L vs"
    and "\<And>L'. scope L' (vs @ pg_temps s) \<Longrightarrow> typed cls [] L' B"
  shows "well_typed cls args (D @ decls_of (pg_temps s) @ B)"
proof -
  have temps: "distinct (map fst (pg_temps s))" "\<forall>v\<in>set (map fst (pg_temps s)). map_of L v = None"
    using temps_distinct[OF assms(2)] assms(3) by auto
  have "typed cls [] (rev (pg_temps s) @ L) B" by (rule assms(5)) (rule scope_temps[OF temps assms(4)])
  then obtain d g where "type_stmts cls B (tstate (rev (pg_temps s) @ L) None None []) =
      Some (tstate (rev (pg_temps s) @ L) d g [])"
    unfolding typed_def by blast
  then show ?thesis
    by (simp add: well_typed_def type_stmts_append assms(1) type_decls[OF temps])
qed

lemma grows_code:
  assumes "grows cls [] vs s s'" and "gen_inv s" and "stmts (pg_code s) = []"
  shows "gen_inv s'" and "scope L (vs @ pg_temps s') \<Longrightarrow> typed cls [] L (stmts (pg_code s'))"
  using assms by (auto simp: grows_def)

lemma header_typed: "scope L [(''unit'', ''char*'')] \<Longrightarrow> typed cls [] L (resume_header root)"
  by (simp add: resume_header_def typed_def typing_defs)

definition parser_ready :: "checker \<Rightarrow> gen_env \<Rightarrow> options \<Rightarrow> item list \<Rightarrow> bool" where
  "parser_ready cls env opt is \<longleftrightarrow>
     env_class cls env opt \<and> (\<forall>i\<in>set (leaves is). declares cls env opt i) \<and> typed_items cls is"

lemma typed_items_filter: "typed_items cls is \<Longrightarrow> typed_items cls (filter P is)"
  by (induction "is") auto

lemma typed_items_leaf: "typed_items cls is \<Longrightarrow> i \<in> set is \<Longrightarrow> has_member i \<Longrightarrow> typed_leaf cls i"
proof (induction "is")
  case (Cons j "is")
  then show ?case by (cases j) (auto simp: has_member_def)
qed simp

lemma leaves_filter: "set (leaves (filter P is)) \<subseteq> set (leaves is)"
  by (induction "is") auto

lemma top_leaf: "i \<in> set is \<Longrightarrow> has_member i \<Longrightarrow> i \<in> set (leaves is)"
proof (induction "is")
  case (Cons j "is")
  then show ?case by (cases j) (auto simp: has_member_def)
qed simp

lemma grows_newline: "grows cls [] vs (emit_newline s) s' = grows cls [] vs s s'"
  by (simp add: grows_def)

lemma temp_name_fresh: "temp_name k \<noteq> ''unit''" "temp_name k \<noteq> CHR ''p'' # v" "temp_name k \<noteq> CHR ''s'' # v"
  "temp_name k \<noteq> CHR ''d'' # v" "temp_name k \<noteq> CHR ''i'' # v" "temp_name k \<noteq> CHR ''a'' # v" "temp_name k \<noteq> CHR ''b'' # v"
  "temp_name k \<noteq> CHR ''o'' # v"
  by (simp_all add: temp_name_def)

lemma emit_decls_inv [simp]: "gen_inv (emit_decls ts s) = gen_inv s"
  by (induction ts s rule: emit_decls.induct) simp_all

lemma parser_run:
  assumes run: "run_parser env is pcls s = Some (code, pcls', s', ok)" and ready: "parser_ready cls env opt is" and inv: "gen_inv s"
  obtains root u s2 where "s' = parse_body root u (pg_code s2) s2" "code = pg_code s'" "gen_inv s2"
    "\<And>L. scope L (parse_locals @ pg_temps s2) \<Longrightarrow> typed cls [] L (stmts (pg_code s2))"
proof -
  define root where "root = fst (newInstructionLabel ''root'' s)"
  define s1 where "s1 = (snd (newInstructionLabel ''root'' s))\<lparr>pg_code := empty_code\<rparr>"
  obtain s2 u where st: "parse_items env (filter not_property is) s1 = Some s2" "s' = parse_body root u (pg_code s2) s2" "code = pg_code s'"
    using run by (auto simp: run_parser_def root_def s1_def Let_def bind_eq_Some_conv case_prod_beta)
  have s1: "gen_inv s1" "stmts (pg_code s1) = []" using inv by (simp_all add: s1_def newInstructionLabel_def)
  have "grows cls [] parse_locals s1 s2"
    by (rule parse_code_grows(2)[OF _ st(1)]) (use ready leaves_filter[of not_property "is"] typed_items_filter in \<open>auto simp: parser_ready_def\<close>)
  from grows_code[OF this s1] show thesis using that st(2,3) by blast
qed

lemma parser_typed:
  assumes "run_parser env is pcls s = Some (code, pcls', s', ok)" and "parser_ready cls env opt is" and "gen_inv s"
  shows "well_typed cls (map argument_local parse_arguments) (stmts code) \<and> gen_inv s'"
proof -
  obtain root u s2 where st: "s' = parse_body root u (pg_code s2) s2" "code = pg_code s'" and g: "gen_inv s2"
    "\<And>L. scope L (parse_locals @ pg_temps s2) \<Longrightarrow> typed cls [] L (stmts (pg_code s2))"
    using parser_run[OF assms] by blast
  let ?B = "resume_header root @ [SPush, SIfNotAllocate u, SReturnAreaFull, SUnitFromState, SInitPos ''in_buf_start''] @
    stmts (pg_code s2) @ [SCountBytes ''bytes_read'' ''in_buf_start'', SReturnDone parse_result]"
  have B: "typed cls [] L ?B" if "scope L (parse_locals @ pg_temps s2)" for L
  proof (intro typed_append)
    show "typed cls [] L (stmts (pg_code s2))" using g(2) that .
    show "typed cls [] L (resume_header root)" using that by (intro header_typed) (simp add: parse_locals_def)
  qed (use that in \<open>simp_all add: typed_def typing_defs parse_locals_def\<close>)
  have "well_typed cls (map argument_local parse_arguments)
      ([SDecl ''char*'' ''parse_dest'', SDecl parse_result ''parse_res'', SDecl ''char*'' ''unit''] @ decls_of (pg_temps s2) @ ?B)"
    by (rule body_typed[where L = "parse_locals @ map argument_local parse_arguments" and vs = parse_locals])
      (use g(1) B in \<open>simp_all add: parse_locals_def parse_arguments_def argument_local_def gen_inv_def temp_name_fresh\<close>)
  moreover have "gen_inv s'"
    using g(1) by (simp add: st(1) parse_body_def Let_def emitAllocateIntoPointerPointer_def emitPushBlockState_def)
  ultimately show ?thesis by (simp add: st parse_body_stmts)
qed

lemma serializer_run:
  assumes run: "run_serializer env is pcls s = Some (code, pcls', s', ok)" and ready: "parser_ready cls env opt is"
    and up: "\<forall>i\<in>set is. supported_update env i" and inv: "gen_inv s"
  obtains root s4 where "s' = serialize_body root (pg_code s4) s4" "code = pg_code s'" "gen_inv s4"
    "\<And>L. scope L (serialize_locals @ pg_temps s4) \<Longrightarrow> typed cls [] L (stmts (pg_code s4))"
proof -
  define root where "root = fst (newInstructionLabel ''root'' s)"
  define s1 where "s1 = (snd (newInstructionLabel ''root'' s))\<lparr>pg_code := empty_code\<rparr>"
  obtain s2 s3 s4 where st: "update_lengths env is s1 = Some s2" "serialize_items env (filter is_variable is) (emit_newline s2) = Some s3"
    "serialize_items env (filter (\<lambda>i. not_property i \<and> \<not> is_variable i) is) (emit_newline s3) = Some s4"
    "s' = serialize_body root (pg_code s4) s4" "code = pg_code s'"
    using run by (auto simp: run_serializer_def root_def s1_def Let_def bind_eq_Some_conv case_prod_beta)
  have s1: "gen_inv s1" "stmts (pg_code s1) = []" using inv by (simp_all add: s1_def newInstructionLabel_def gen_inv_def temps_named_def)
  have env: "env_class cls env opt" and decl: "\<And>P. \<forall>i\<in>set (leaves (filter P is)). declares cls env opt i"
    using ready leaves_filter by (auto simp: parser_ready_def)
  have ex: "\<And>P. typed_items cls (filter P is)" using ready typed_items_filter by (auto simp: parser_ready_def)
  have "grows cls [] serialize_locals s1 s2"
    by (rule update_lengths_grows[OF st(1) up _ env]) (use ready top_leaf typed_items_leaf in \<open>auto simp: parser_ready_def\<close>)
  moreover have "grows cls [] serialize_locals (emit_newline s2) s3" by (rule serialize_code_grows(2)[OF env st(2) decl ex])
  moreover have "grows cls [] serialize_locals (emit_newline s3) s4" by (rule serialize_code_grows(2)[OF env st(3) decl ex])
  ultimately have "grows cls [] serialize_locals s1 s4" using grows_trans by (metis grows_newline)
  from grows_code[OF this s1] show thesis using that st(4,5) by blast
qed

lemma serializer_typed:
  assumes "run_serializer env is pcls s = Some (code, pcls', s', ok)" and "parser_ready cls env opt is"
    and "\<forall>i\<in>set is. supported_update env i" and "gen_inv s"
  shows "well_typed cls (map argument_local serialize_arguments) (stmts code) \<and> gen_inv s'"
proof -
  obtain root s4 where st: "s' = serialize_body root (pg_code s4) s4" "code = pg_code s'" and g: "gen_inv s4"
    "\<And>L. scope L (serialize_locals @ pg_temps s4) \<Longrightarrow> typed cls [] L (stmts (pg_code s4))"
    using serializer_run[OF assms] by blast
  let ?B = "resume_header root @ [SPush, SStateUnit, SInitPos ''out_buf_start''] @
    stmts (pg_code s4) @ [SCountBytes ''bytes_written'' ''out_buf_start'', SReturnDone serialize_result]"
  have B: "typed cls [] L ?B" if "scope L (serialize_locals @ pg_temps s4)" for L
  proof (intro typed_append)
    show "typed cls [] L (stmts (pg_code s4))" using g(2) that .
    show "typed cls [] L (resume_header root)" using that by (intro header_typed) (simp add: serialize_locals_def)
  qed (use that in \<open>simp_all add: typed_def typing_defs serialize_locals_def\<close>)
  have "well_typed cls (map argument_local serialize_arguments)
      ([SDecl ''char*'' ''serialize_src'', SDecl serialize_result ''serialize_res'', SDecl ''char*'' ''dollar''] @ decls_of (pg_temps s4) @ ?B)"
    by (rule body_typed[where L = "butlast serialize_locals @ map argument_local serialize_arguments" and vs = serialize_locals])
      (use g(1) B in \<open>simp_all add: serialize_locals_def serialize_arguments_def argument_local_def gen_inv_def temp_name_fresh\<close>)
  moreover have "gen_inv s'"
    using g(1) by (simp add: st(1) serialize_body_def Let_def emitPushBlockState_def)
  ultimately show ?thesis by (simp add: st serialize_body_stmts)
qed

section \<open>The members of the unit class\<close>

definition stored_item :: "item \<Rightarrow> bool" where
  "stored_item i = (case i of Property b p \<Rightarrow> False | ConstantField b f c \<Rightarrow> False | UnknownField b f x \<Rightarrow> False
     | Switch b f e cs \<Rightarrow> False | _ \<Rightarrow> True)"

definition members_of :: "type_store \<Rightarrow> options \<Rightarrow> item list \<Rightarrow> (string \<times> string) list" where
  "members_of ts opt js = map (\<lambda>j. (field_name (base_of j), the (stored_type ts opt j))) (filter stored_item js)"

abbreviation class_at :: "codegen \<Rightarrow> nat \<Rightarrow> kclass" where
  "class_at s k \<equiv> fl_classes (cg_file s) ! k"

definition member_pairs :: "kclass \<Rightarrow> (string \<times> string) list" where
  "member_pairs c = map (\<lambda>v. (kv_name v, kv_type v)) (cd_members (cl_data c))"

text \<open>The enumerations that the code generator declares.\<close>

definition declared_enums :: "gen_module \<Rightarrow> string list" where
  "declared_enums gm =
     concat (map (\<lambda>d. case d of
        DType i l t \<Rightarrow>
          (if l = IMPORTED then []
           else (case gm_types gm t of
                   None \<Rightarrow> []
                 | Some ob \<Rightarrow> (case ty_kind ob of TEnum ls \<Rightarrow> [enumName (id_name i)] | _ \<Rightarrow> [])))
      | _ \<Rightarrow> []) (mo_decls gm))"

definition class_checker :: "gen_module \<Rightarrow> kclass \<Rightarrow> checker" where
  "class_checker gm c =
     \<lparr>ck_unit = class_name c, ck_members = member_pairs c, ck_types = gm_types gm, ck_enums = declared_enums gm\<rparr>"

text \<open>What the specification alone says about the class of a unit.\<close>

definition unit_checker :: "gen_module \<Rightarrow> options \<Rightarrow> ident \<Rightarrow> item list \<Rightarrow> checker" where
  "unit_checker gm opt i is =
     \<lparr>ck_unit = id_name i, ck_members = members_of (gm_types gm) opt (leaves is), ck_types = gm_types gm,
      ck_enums = declared_enums gm\<rparr>"

text \<open>Only the members of class \<open>k\<close> change, by \<open>ms\<close>.\<close>

definition adds :: "nat \<Rightarrow> (string \<times> string) list \<Rightarrow> codegen \<Rightarrow> codegen \<Rightarrow> bool" where
  "adds k ms s s' \<longleftrightarrow>
     cg_unit_cls s' = cg_unit_cls s \<and> cg_parser s' = cg_parser s \<and> cg_serializer s' = cg_serializer s \<and>
     length (fl_classes (cg_file s')) = length (fl_classes (cg_file s)) \<and>
     (\<forall>j. j \<noteq> k \<longrightarrow> class_at s' j = class_at s j) \<and> class_name (class_at s' k) = class_name (class_at s k) \<and>
     member_pairs (class_at s' k) = member_pairs (class_at s k) @ ms"

lemma adds_refl [simp]: "adds k [] s s"
  by (simp add: adds_def)

lemma adds_reset [simp]: "adds k ms (cg_reset s) s' = adds k ms s s'"
  by (simp add: adds_def cg_reset_def)

lemma cg_reset_simps [simp]:
  "cg_unit_cls (cg_reset s) = cg_unit_cls s" "cg_file (cg_reset s) = cg_file s" "cg_function (cg_reset s) = cg_function s"
  by (simp_all add: cg_reset_def)

lemma adds_trans: "adds k ms s1 s2 \<Longrightarrow> adds k ns s2 s3 \<Longrightarrow> adds k (ms @ ns) s1 s3"
  by (simp add: adds_def)

lemma members_of_simps [simp]:
  "members_of ts opt [] = []" "members_of ts opt (js @ ks) = members_of ts opt js @ members_of ts opt ks"
  by (simp_all add: members_of_def)

abbreviation unit_open :: "nat \<Rightarrow> codegen \<Rightarrow> bool" where
  "unit_open k s \<equiv> cg_unit_cls s = Some k \<and> k < length (fl_classes (cg_file s))"

lemma unit_open_adds: "adds k ms s s' \<Longrightarrow> unit_open k s \<Longrightarrow> unit_open k s'"
  by (simp add: adds_def)

lemma addSingle_adds:
  assumes "addSingleUnitField ts opt i s = Some s'" and "supported_item ts opt i" and "unit_open k s"
  shows "adds k [(field_name (base_of i), the (stored_type ts opt i))] s s' \<and> type_text ts (it_type (base_of i)) \<noteq> None"
proof -
  obtain ty where ty: "type_text ts (it_type (base_of i)) = Some ty"
    "addUnitField (field_name (base_of i)) (the (stored_type ts opt i)) s = Some s'"
  proof -
    have "\<not> (it_parsing_only (base_of i) \<and> \<not> opt_store_parsing_only opt)" using assms(2) by (simp add: supported_item_def)
    then obtain ty where "type_text ts (it_type (base_of i)) = Some ty"
      "addUnitField (field_name (base_of i)) (if range_field opt i then ''dr::unit::var_stream_range'' else ty) s = Some s'"
      using assms(1) by (auto simp: addSingleUnitField_def range_field_def Let_def bind_eq_Some_conv split del: if_split)
    moreover from this(1) have "the (stored_type ts opt i) = (if range_field opt i then ''dr::unit::var_stream_range'' else ty)"
      by (simp add: stored_type_def runtime_type_def)
    ultimately show thesis using that by simp
  qed
  have "makeIdentifier (field_name (base_of i)) = Some (field_name (base_of i))" using assms(2) by (simp add: supported_item_def)
  then have "s' = s\<lparr>cg_file := at_class k (addMemberVariable
      \<lparr>kv_type = the (stored_type ts opt i), kv_name = field_name (base_of i), kv_static = False, kv_initializer = [],
       km_access = acc_Public\<rparr>) (cg_file s)\<rparr>"
    using ty(2) assms(3) by (auto simp: addUnitField_def MemberVariable_def bind_eq_Some_conv split: if_splits)
  then show ?thesis
    using ty(1) assms(3) by (simp add: adds_def at_class_def addMemberVariable_def on_data_def class_name_def member_pairs_def)
qed

definition translated :: "type_store \<Rightarrow> item list \<Rightarrow> bool" where
  "translated ts js \<longleftrightarrow> (\<forall>j\<in>set js. stored_item j \<longrightarrow> type_text ts (it_type (base_of j)) \<noteq> None)"

lemma translated_simps [simp]:
  "translated ts []" "translated ts (js @ ks) \<longleftrightarrow> translated ts js \<and> translated ts ks"
  by (auto simp: translated_def)

lemma gen_leaf_members:
  assumes "gen_item ts opt i s = Some s'" and "supported_item ts opt i" and "unit_open k s" and "\<nexists>b f e cs. i = Switch b f e cs"
  shows "adds k (members_of ts opt [i]) s s' \<and> translated ts [i]"
  using assms addSingle_adds[of ts opt i s s' k] by (cases i) (auto simp: members_of_def stored_item_def translated_def)

lemma gen_members:
  "gen_item ts opt i s = Some s' \<Longrightarrow> \<forall>j\<in>set (leaves_item i). supported_item ts opt j \<Longrightarrow> unit_open k s \<Longrightarrow>
     adds k (members_of ts opt (leaves_item i)) s s' \<and> translated ts (leaves_item i)"
  "gen_items ts opt is s = Some s' \<Longrightarrow> \<forall>j\<in>set (leaves is). supported_item ts opt j \<Longrightarrow> unit_open k s \<Longrightarrow>
     adds k (members_of ts opt (leaves is)) s s' \<and> translated ts (leaves is)"
  "gen_cases ts opt cs s = Some s' \<Longrightarrow> \<forall>j\<in>set (leaves_cases cs). supported_item ts opt j \<Longrightarrow> unit_open k s \<Longrightarrow>
     adds k (members_of ts opt (leaves_cases cs)) s s' \<and> translated ts (leaves_cases cs)"
proof (induction ts opt i s and ts opt "is" s and ts opt cs s arbitrary: s' and s' and s' rule: gen_item_gen_items_gen_cases.induct)
  case (7 ts opt i "is" s)
  obtain s1 where s1: "gen_item ts opt i (cg_reset s) = Some s1" "gen_items ts opt is s1 = Some s'"
    using 7(3) by (auto simp: bind_eq_Some_conv)
  have a: "adds k (members_of ts opt (leaves_item i)) s s1" "translated ts (leaves_item i)"
    using 7(1)[OF s1(1)] 7(4,5) by auto
  then show ?case using 7(2)[OF s1] 7(4,5) unit_open_adds[OF a(1)] adds_trans by fastforce
next
  case (9 ts opt es "is" d cs s)
  obtain s1 where s1: "gen_items ts opt is (cg_reset s) = Some s1" "gen_cases ts opt cs s1 = Some s'"
    using 9(3) by (auto simp: bind_eq_Some_conv)
  have a: "adds k (members_of ts opt (leaves is)) s s1" "translated ts (leaves is)"
    using 9(1)[OF s1(1)] 9(4,5) by auto
  then show ?case using 9(2)[OF s1] 9(4,5) unit_open_adds[OF a(1)] adds_trans by fastforce
qed (simp_all del: gen_item.simps(2-), (use gen_leaf_members in blast)+)

section \<open>Generating a unit\<close>

lemma insert_class_pos:
  "insert_class c cs = (cs', k) \<Longrightarrow> k \<le> length cs \<and> length cs \<le> length cs' \<and> k < length cs' \<and> cs' ! k = c \<and>
     (k < length cs \<longrightarrow> qualifiedName (cs ! k) = qualifiedName c) \<and> (\<forall>j<length cs. j \<noteq> k \<longrightarrow> cs' ! j = cs ! j)"
proof (induction c cs arbitrary: cs' k rule: insert_class.induct)
  case (2 c d ds)
  show ?case
  proof (cases "qualifiedName d = qualifiedName c")
    case True
    then show ?thesis using 2(2) by (auto simp: nth_Cons split: nat.splits)
  next
    case False
    then obtain es j where e: "insert_class c ds = (es, j)" "cs' = d # es" "k = j + 1"
      using 2(2) by (auto split: prod.splits)
    show ?thesis using 2(1)[OF False e(1)] e(2,3) by (auto simp: nth_Cons split: nat.splits)
  qed
qed auto

lemma insertClass_pos:
  assumes "insertClass c f = Some (k, f')"
  shows "length (fl_classes f) \<le> length (fl_classes f')" "k < length (fl_classes f')" "fl_classes f' ! k = c"
    "j < length (fl_classes f) \<Longrightarrow> qualifiedName (fl_classes f ! j) \<noteq> qualifiedName c \<Longrightarrow> j \<noteq> k \<and> fl_classes f' ! j = fl_classes f ! j"
proof -
  obtain cs where cs: "insert_class c (fl_classes f) = (cs, k)" "f' = f\<lparr>fl_classes := cs\<rparr>"
    using assms by (auto simp: insertClass_def split: if_splits prod.splits)
  note pos = insert_class_pos[OF cs(1)]
  show "length (fl_classes f) \<le> length (fl_classes f')" "k < length (fl_classes f')" "fl_classes f' ! k = c"
    using pos cs(2) by auto
  show "j \<noteq> k \<and> fl_classes f' ! j = fl_classes f ! j"
    if "j < length (fl_classes f)" "qualifiedName (fl_classes f ! j) \<noteq> qualifiedName c"
    using pos cs(2) that by auto
qed

definition same_name :: "kclass \<Rightarrow> kclass \<Rightarrow> bool" where
  "same_name c d \<longleftrightarrow> qualifiedName c = qualifiedName d \<and> class_name c = class_name d"

lemma same_name_ops [simp]:
  "same_name c c" "same_name (addDeclarationMacro m c) d = same_name c d" "same_name (addFunction g c) d = same_name c d"
  "same_name (addMemberVariable v c) d = same_name c d" "same_name (addNestedClass n c) d = same_name c d"
  "same_name (addHeaderInclude x c) d = same_name c d"
  by (simp_all add: same_name_def qualifiedName_def class_name_def on_data_def addDeclarationMacro_def addFunction_def
      addMemberVariable_def addNestedClass_def addHeaderInclude_def)

lemma same_name_macros [simp]: "same_name (foldl (\<lambda>c m. addDeclarationMacro m c) c ms) d = same_name c d"
  by (induction ms arbitrary: c) simp_all

lemma parser_class_name: "parser_class body c = Some c' \<Longrightarrow> same_name c' c"
  by (auto simp: parser_class_def bind_eq_Some_conv Let_def simp del: foldl.simps)

lemma serializer_class_name: "serializer_class body c = Some c' \<Longrightarrow> same_name c' c"
  by (auto simp: serializer_class_def bind_eq_Some_conv Let_def simp del: foldl.simps)

lemma run_parser_name: "run_parser env is c s = Some (code, c', s', ok) \<Longrightarrow> same_name c' c"
  using parser_class_name by (auto simp: run_parser_def Let_def bind_eq_Some_conv case_prod_beta)

lemma run_serializer_name: "run_serializer env is c s = Some (code, c', s', ok) \<Longrightarrow> same_name c' c"
  using serializer_class_name by (auto simp: run_serializer_def Let_def bind_eq_Some_conv case_prod_beta)

lemma header_includes [simp]:
  "same_name (addHeaderIncludes incs c) d = same_name c d" "member_pairs (addHeaderIncludes incs c) = member_pairs c"
proof -
  have "member_pairs (addHeaderInclude x c) = member_pairs c" for x c
    by (simp add: addHeaderInclude_def on_data_def member_pairs_def)
  then show "member_pairs (addHeaderIncludes incs c) = member_pairs c"
    unfolding addHeaderIncludes_def by (induction incs arbitrary: c) simp_all
  show "same_name (addHeaderIncludes incs c) d = same_name c d"
    unfolding addHeaderIncludes_def by (induction incs arbitrary: c) simp_all
qed

lemma Class_fresh: "Class name [] = Some c \<Longrightarrow> class_name c = name \<and> qualifiedName c = name \<and> member_pairs c = []"
  by (auto simp: Class_def class_name_def qualifiedName_def member_pairs_def split: if_splits)

lemma at_class_simps [simp]:
  "length (fl_classes (at_class k g f)) = length (fl_classes f)"
  "j \<noteq> k \<Longrightarrow> fl_classes (at_class k g f) ! j = fl_classes f ! j"
  "k < length (fl_classes f) \<Longrightarrow> fl_classes (at_class k g f) ! k = g (fl_classes f ! k)"
  by (simp_all add: at_class_def)

lemma gen_unit_result:
  assumes "gen_unit gm opt name t is s = Some s1"
  obtains k kp ks pcls pcode pcls' pok scls scode scls' sok where
    "unit_open k s1" "class_name (class_at s1 k) = name" "member_pairs (class_at s1 k) = []"
    "run_parser (env_of gm opt t) is pcls (cg_parser s) = Some (pcode, pcls', cg_parser s1, pok)"
    "kp < length (fl_classes (cg_file s1))" "kp \<noteq> k" "class_at s1 kp = pcls'"
    "run_serializer (env_of gm opt t) is scls (cg_serializer s) = Some (scode, scls', cg_serializer s1, sok)"
    "ks < length (fl_classes (cg_file s1))" "ks \<noteq> k" "class_at s1 ks = scls'"
proof -
  obtain cls k f1 parser kp f3 pcode pcls' pg pok serializer ks f4 scode scls' sg sok where st:
    "Class (unitName name) [] = Some cls" "insertClass cls (cg_file s) = Some (k, f1)"
    "Class (unitParserName name) [] = Some parser"
    "insertClass parser (at_class k (addHeaderIncludes [''runtime/runtime.h'', ''stddef.h'', ''cstdint'']) f1) = Some (kp, f3)"
    "run_parser (env_of gm opt t) is (fl_classes f3 ! kp) (cg_parser s) = Some (pcode, pcls', pg, pok)"
    "Class (unitSerializerName name) [] = Some serializer"
    "insertClass serializer (at_class kp (\<lambda>c. pcls') f3) = Some (ks, f4)"
    "run_serializer (env_of gm opt t) is (fl_classes f4 ! ks) (cg_serializer s) = Some (scode, scls', sg, sok)"
    "cg_file s1 = at_class ks (\<lambda>c. scls') f4" "cg_unit_cls s1 = Some k" "cg_parser s1 = pg" "cg_serializer s1 = sg"
    using assms by (auto simp: gen_unit_def Let_def bind_eq_Some_conv cg_log_error_def split: prod.splits if_splits)
  define g where "g = at_class k (addHeaderIncludes [''runtime/runtime.h'', ''stddef.h'', ''cstdint'']) f1"
  note i1 = insertClass_pos[OF st(2)] and i3 = insertClass_pos[OF st(4)[folded g_def]] and i4 = insertClass_pos[OF st(7)]
  have n1: "class_name cls = name" "qualifiedName cls = name" "member_pairs cls = []"
    using Class_fresh[OF st(1)] by (simp_all add: unitName_def)
  have n3: "qualifiedName parser = name @ ''Parser''" and n4: "qualifiedName serializer = name @ ''Serializer''"
    using Class_fresh[OF st(3)] Class_fresh[OF st(6)] by (simp_all add: unitParserName_def unitSerializerName_def unitName_def)
  have gk: "k < length (fl_classes g)" "same_name (fl_classes g ! k) cls" "member_pairs (fl_classes g ! k) = []"
    using i1(2,3) n1 by (simp_all add: g_def)
  then have "qualifiedName (fl_classes g ! k) \<noteq> qualifiedName parser" using n1 n3 by (simp add: same_name_def)
  from i3(4)[OF gk(1) this] have k3: "k \<noteq> kp" "fl_classes f3 ! k = fl_classes g ! k" "k < length (fl_classes f3)"
    using i3(1) gk(1) by auto
  let ?h = "at_class kp (\<lambda>c. pcls') f3"
  have "qualifiedName (fl_classes ?h ! k) \<noteq> qualifiedName serializer" using k3 gk(2) n1 n4 by (simp add: same_name_def)
  from i4(4)[OF _ this] k3 have k4: "k \<noteq> ks" "fl_classes f4 ! k = fl_classes g ! k" "k < length (fl_classes f4)"
    using i4(1) by auto
  have "same_name pcls' parser" using run_parser_name[OF st(5)] i3(3) by simp
  then have "qualifiedName (fl_classes ?h ! kp) \<noteq> qualifiedName serializer" using n3 n4 i3(2) by (simp add: same_name_def)
  from i4(4)[OF _ this] i3(2) have p4: "kp \<noteq> ks" "fl_classes f4 ! kp = pcls'" "kp < length (fl_classes f4)"
    using i4(1) by auto
  show thesis
    by (rule that[of k "fl_classes f3 ! kp" pcode pcls' pok kp "fl_classes f4 ! ks" scode scls' sok ks])
      (use st k4 p4 k3(1) gk n1 i4(2) in \<open>auto simp: same_name_def\<close>)
qed

lemma gen_parameters_adds: "gen_parameters ts ps s = Some s' \<Longrightarrow> adds k [] s s'"
proof (induction ts ps s rule: gen_parameters.induct)
  case (2 ts p ps s)
  obtain s1 where s1: "gen_parameter ts p (cg_reset s) = Some s1" "gen_parameters ts ps s1 = Some s'"
    using 2(2) by (auto simp: bind_eq_Some_conv)
  have "adds k [] (cg_reset s) s1"
    using s1(1) by (auto simp: gen_parameter_def adds_def at_function_def bind_eq_Some_conv Let_def split: option.splits)
  then show ?case using adds_trans[of k "[]" s s1 "[]"] 2(1)[OF s1] by simp
qed simp

lemma env_class_unit:
  "type_text (gm_types gm) (Some t) = Some (ck_unit cls) \<Longrightarrow> ck_types cls = gm_types gm \<Longrightarrow>
     env_class cls (env_of gm opt t) opt"
  by (simp add: env_class_def env_of_def exprCurrentUnit_def)

lemma member_ready:
  assumes "ck_members cls = members_of ts opt js" "distinct (map (\<lambda>j. field_name (base_of j)) (filter stored_item js))"
    and "\<forall>j\<in>set js. supported_item ts opt j" "translated ts js" "ge_types env = ts" and j: "j \<in> set js"
  shows "declares cls env opt j"
proof -
  have "member_type cls (field_name (base_of j)) = stored_type ts opt j" "type_text ts (it_type (base_of j)) \<noteq> None" if m: "has_member j"
  proof -
    have st: "stored_item j" using m by (auto simp: has_member_def stored_item_def split: item.splits)
    then show tt: "type_text ts (it_type (base_of j)) \<noteq> None" using assms(4) j by (simp add: translated_def)
    have "distinct (map fst (members_of ts opt js))" using assms(2) by (simp add: members_of_def comp_def)
    moreover have "(field_name (base_of j), the (stored_type ts opt j)) \<in> set (members_of ts opt js)"
      using st j by (auto simp: members_of_def)
    ultimately have "map_of (members_of ts opt js) (field_name (base_of j)) = Some (the (stored_type ts opt j))"
      by (rule map_of_is_SomeI)
    then show "member_type cls (field_name (base_of j)) = stored_type ts opt j"
      using tt by (auto simp: member_type_def assms(1) stored_type_def)
  qed
  then show ?thesis using assms(3,5) j by (simp add: declares_def)
qed

section \<open>A sample\<close>

definition sample_module :: gen_module where
  "sample_module = \<lparr>mo_id = [''Sample''], mo_properties = [], mo_decls = [DType [''Message''] EXPORTED 3], mo_units = [], gm_types = sample_types\<rparr>"

definition sample_options :: options where
  "sample_options = \<lparr>opt_instantiation_only = False, opt_input_pointers = False, opt_store_parsing_only = False\<rparr>"

lemma sample_env_of: "env_of sample_module sample_options 3 = sample_env"
  by (simp add: env_of_def sample_module_def sample_options_def sample_env_def gm_properties_def fun_eq_iff)

lemma insertClass_total: "class_name c \<noteq> [] \<Longrightarrow> \<exists>k f'. insertClass c f = Some (k, f')"
  by (cases "insert_class c (fl_classes f)") (simp add: insertClass_def)

lemma gen_unit_total:
  assumes "name \<noteq> []" and p: "\<And>c. \<exists>r. run_parser (env_of gm opt t) is c (cg_parser s) = Some r"
    and z: "\<And>c. \<exists>r. run_serializer (env_of gm opt t) is c (cg_serializer s) = Some r"
  shows "\<exists>s1. gen_unit gm opt name t is s = Some s1"
proof -
  obtain c cp cz where cls: "Class (unitName name) [] = Some c" "Class (unitParserName name) [] = Some cp"
    "Class (unitSerializerName name) [] = Some cz"
    using assms(1) by (simp add: Class_def unitName_def unitParserName_def unitSerializerName_def)
  then have ne: "class_name c \<noteq> []" "class_name cp \<noteq> []" "class_name cz \<noteq> []"
    using assms(1) Class_fresh by (auto simp: unitName_def unitParserName_def unitSerializerName_def)
  obtain k f1 where 1: "insertClass c (cg_file s) = Some (k, f1)" using insertClass_total[OF ne(1)] by blast
  obtain kp f3 where 2: "insertClass cp (at_class k (addHeaderIncludes [''runtime/runtime.h'', ''stddef.h'', ''cstdint'']) f1) = Some (kp, f3)"
    using insertClass_total[OF ne(2)] by blast
  obtain pc cls' pg ok where 3: "run_parser (env_of gm opt t) is (fl_classes f3 ! kp) (cg_parser s) = Some (pc, cls', pg, ok)"
    using p by (metis prod_cases4)
  obtain ks f4 where 4: "insertClass cz (at_class kp (\<lambda>c. cls') f3) = Some (ks, f4)" using insertClass_total[OF ne(3)] by blast
  obtain sc scls' sg sok where 5: "run_serializer (env_of gm opt t) is (fl_classes f4 ! ks) (cg_serializer s) = Some (sc, scls', sg, sok)"
    using z by (metis prod_cases4)
  show ?thesis using cls 1 2 3 4 5 by (simp add: gen_unit_def Let_def cg_log_error_def)
qed

lemma sample_gen_type:
  "\<exists>s'. gen_type sample_module sample_options [''Message''] EXPORTED 3 (CodeGenerator ''message'' ''diffingo'') = Some s'"
proof -
  let ?s = "CodeGenerator ''message'' ''diffingo''"
  have "\<exists>s1. gen_unit sample_module sample_options ''Message'' 3 message_items ?s = Some s1"
  proof (rule gen_unit_total)
    show "\<exists>r. run_parser (env_of sample_module sample_options 3) message_items c (cg_parser ?s) = Some r" for c
      using sample_parser[of c] by (auto simp: sample_env_of CodeGenerator_def Let_def)
    show "\<exists>r. run_serializer (env_of sample_module sample_options 3) message_items c (cg_serializer ?s) = Some r" for c
      using sample_serializer[of c] by (auto simp: sample_env_of CodeGenerator_def Let_def)
  qed simp
  then obtain s1 where s1: "gen_unit sample_module sample_options ''Message'' 3 message_items ?s = Some s1" by blast
  from gen_unit_result[OF s1] obtain k where "unit_open k s1" by blast
  then have "\<exists>s'. gen_items sample_types sample_options message_items s1 = Some s'"
    by (simp add: message_items_def sample_types_def plain_type_def plain_base_def addSingleUnitField_def addUnitField_def
        type_text_def translate_type_def visit_type_def type_default_def MemberVariable_def makeIdentifier_def
        replace_char_def field_name_def unitFieldName_def id_name_def Let_def)
  then show ?thesis
    using s1 by (auto simp: gen_type_def sample_module_def sample_types_def plain_type_def id_name_def)
qed

section \<open>Property\<close>

text \<open>C4: generated code is well typed.  When a unit is generated whose items have usable names, are stored,
  and, where input ranges are used, are plain byte strings, and whose expressions are typed against the
  members that its items stand for, the class has exactly one member for each stored
  item, of the item's type, and the parser and the serializer made for it refer only to declared members,
  locals and enumerations, never use the untyped pointer before it is set in the same instruction, read and write
  every member as what it was declared, use numbers for lengths, assign to a variable values of its type,
  and switch on a number or an enumeration with constants of the same type as cases.  The condition on the
  two generators holds initially and again after the unit.\<close>

theorem generated_code_typed:
  assumes gen: "gen_type gm opt i l t s = Some s'" "l \<noteq> IMPORTED"
    and unit: "gm_types gm t = Some ob" "ty_kind ob = TUnit ps is" "type_text (gm_types gm) (Some t) = Some (id_name i)"
    and items: "list_all (supported_item (gm_types gm) opt) (leaves is)" "list_all (supported_update (env_of gm opt t)) is"
      "distinct (map (\<lambda>j. field_name (base_of j)) (filter stored_item (leaves is)))" "typed_items (unit_checker gm opt i is) is"
    and inv: "gen_inv (cg_parser s)" "gen_inv (cg_serializer s)"
  shows "\<exists>k pcls pcode pcls' pok scls scode scls' sok.
     cg_unit_cls s' = Some k \<and> class_name (class_at s' k) = id_name i \<and>
     member_pairs (class_at s' k) = members_of (gm_types gm) opt (leaves is) \<and>
     run_parser (env_of gm opt t) is pcls (cg_parser s) = Some (pcode, pcls', cg_parser s', pok) \<and>
     run_serializer (env_of gm opt t) is scls (cg_serializer s) = Some (scode, scls', cg_serializer s', sok) \<and>
     {pcls', scls'} \<subseteq> set (fl_classes (cg_file s')) \<and>
     well_typed (class_checker gm (class_at s' k)) (map argument_local parse_arguments) (stmts pcode) \<and>
     well_typed (class_checker gm (class_at s' k)) (map argument_local serialize_arguments) (stmts scode) \<and>
     gen_inv (cg_parser s') \<and> gen_inv (cg_serializer s')"
proof -
  obtain s1 s2 where st: "gen_unit gm opt (id_name i) t is s = Some s1" "gen_parameters (gm_types gm) ps s1 = Some s2"
    "gen_items (gm_types gm) opt is s2 = Some s'"
    using gen unit by (auto simp: gen_type_def bind_eq_Some_conv)
  obtain k kp ks pcls pcode pcls' pok scls scode scls' sok where
    k: "unit_open k s1" "class_name (class_at s1 k) = id_name i" "member_pairs (class_at s1 k) = []" and
    p: "run_parser (env_of gm opt t) is pcls (cg_parser s) = Some (pcode, pcls', cg_parser s1, pok)"
      "kp < length (fl_classes (cg_file s1))" "kp \<noteq> k" "class_at s1 kp = pcls'" and
    z: "run_serializer (env_of gm opt t) is scls (cg_serializer s) = Some (scode, scls', cg_serializer s1, sok)"
      "ks < length (fl_classes (cg_file s1))" "ks \<noteq> k" "class_at s1 ks = scls'"
    by (rule gen_unit_result[OF st(1)]) blast
  have a: "adds k [] s1 s2" by (rule gen_parameters_adds[OF st(2)])
  have sup: "\<forall>j\<in>set (leaves is). supported_item (gm_types gm) opt j" using items(1) by (simp add: list_all_iff)
  have m: "adds k (members_of (gm_types gm) opt (leaves is)) s2 s'" "translated (gm_types gm) (leaves is)"
    using gen_members(2)[OF st(3) sup unit_open_adds[OF a k(1)]] by auto
  have b: "adds k (members_of (gm_types gm) opt (leaves is)) s1 s'" using adds_trans[OF a m(1)] by simp
  let ?c = "class_at s' k"
  have c: "class_name ?c = id_name i" "member_pairs ?c = members_of (gm_types gm) opt (leaves is)"
    using b k by (simp_all add: adds_def)
  have ck: "class_checker gm ?c = unit_checker gm opt i is" by (simp add: class_checker_def unit_checker_def c)
  have "ck_members (unit_checker gm opt i is) = members_of (gm_types gm) opt (leaves is)" by (simp add: unit_checker_def)
  moreover have "ge_types (env_of gm opt t) = gm_types gm" by (simp add: env_of_def)
  ultimately have ready: "parser_ready (unit_checker gm opt i is) (env_of gm opt t) opt is"
    using env_class_unit[of gm t "unit_checker gm opt i is" opt] unit(3) items(4) member_ready[OF _ items(3) sup m(2)]
    by (simp add: parser_ready_def unit_checker_def)
  have "\<forall>j\<in>set is. supported_update (env_of gm opt t) j" using items(2) by (simp add: list_all_iff)
  note typed = parser_typed[OF p(1) ready inv(1)] serializer_typed[OF z(1) ready this inv(2)]
  have "pcls' \<in> set (fl_classes (cg_file s'))" "scls' \<in> set (fl_classes (cg_file s'))"
    using b p(2-4) z(2-4) by (auto simp: adds_def in_set_conv_nth)
  note sets = this
  have gens: "cg_parser s' = cg_parser s1" "cg_serializer s' = cg_serializer s1" "cg_unit_cls s' = Some k"
    using b k(1) by (simp_all add: adds_def)
  show ?thesis
    by (rule exI[of _ k], rule exI[of _ pcls], rule exI[of _ pcode], rule exI[of _ pcls'], rule exI[of _ pok],
        rule exI[of _ scls], rule exI[of _ scode], rule exI[of _ scls'], rule exI[of _ sok])
      (use c p(1) z(1) typed gens sets in \<open>simp add: ck\<close>)
qed

theorem generated_code_typed_witness:
  "\<exists>s' k pcls pcode pcls' pok. gen_type sample_module sample_options [''Message''] EXPORTED 3 (CodeGenerator ''message'' ''diffingo'') = Some s' \<and>
     cg_unit_cls s' = Some k \<and>
     member_pairs (class_at s' k) = [(''len'', ''uint16_t''), (''tag'', ''uint8_t''), (''body'', ''dr::unit::var_bytes'')] \<and>
     run_parser sample_env message_items pcls ParserGenerator = Some (pcode, pcls', cg_parser s', pok) \<and>
     well_typed (class_checker sample_module (class_at s' k)) (map argument_local parse_arguments) (stmts pcode)"
proof -
  let ?s = "CodeGenerator ''message'' ''diffingo''"
  obtain s' where s': "gen_type sample_module sample_options [''Message''] EXPORTED 3 ?s = Some s'" using sample_gen_type by blast
  have ty: "gm_types sample_module 3 = Some (plain_type (TUnit [] message_items) (Some [''Message'']))"
    "type_text (gm_types sample_module) (Some 3) = Some (id_name [''Message''])" by code_simp+
  have items: "list_all (supported_item (gm_types sample_module) sample_options) (leaves message_items)"
    "list_all (supported_update (env_of sample_module sample_options 3)) message_items"
    "distinct (map (\<lambda>j. field_name (base_of j)) (filter stored_item (leaves message_items)))"
    "typed_items (unit_checker sample_module sample_options [''Message''] message_items) message_items"
    by code_simp+
  have mem: "members_of (gm_types sample_module) sample_options (leaves message_items) =
      [(''len'', ''uint16_t''), (''tag'', ''uint8_t''), (''body'', ''dr::unit::var_bytes'')]" by code_simp
  have gens: "cg_parser ?s = ParserGenerator" "cg_serializer ?s = SerializerGenerator"
    by (simp_all add: CodeGenerator_def Let_def)
  have "gen_inv (cg_parser ?s)" "gen_inv (cg_serializer ?s)"
    by (simp_all add: gens SerializerGenerator_def ParserGenerator_def gen_inv_def temps_named_def)
  from generated_code_typed[OF s' _ ty(1) _ ty(2) items this] show ?thesis
    using s' by (simp add: plain_type_def sample_env_of mem gens) blast
qed

end
