(* ===== verification/Gen_Loss.thy ===== *)
theory Gen_Loss
  imports Inst_Pass Unit_Typing
begin

text \<open>
  What gets lost between the passes: errors of the parser and serializer generators, which the code
  generator counts and then forgets, and the properties of the module, which the units made by the
  instantiation type generator do not inherit.
\<close>

section \<open>Errors\<close>

text \<open>Every \<^verbatim>\<open>processOne\<close> sets the error count to zero, so an error that was logged for a unit is forgotten as
  soon as the first parameter or item of the unit is visited.\<close>

lemma addSingle_errors: "addSingleUnitField ts opt i s = Some s' \<Longrightarrow> cg_errors s' = cg_errors s"
  by (auto simp: addSingleUnitField_def addUnitField_def Let_def bind_eq_Some_conv split: if_splits)

lemma cg_errors_reset [simp]: "cg_errors (cg_reset s) = 0"
  by (simp add: cg_reset_def)

lemma gen_item_errors:
  "gen_item ts opt i s = Some s' \<Longrightarrow> cg_errors s = 0 \<Longrightarrow> cg_errors s' = 0"
  "gen_items ts opt is s = Some s' \<Longrightarrow> is \<noteq> [] \<or> cg_errors s = 0 \<Longrightarrow> cg_errors s' = 0"
  "gen_cases ts opt cs s = Some s' \<Longrightarrow> cg_errors s = 0 \<Longrightarrow> cg_errors s' = 0"
proof (induction ts opt i s and ts opt "is" s and ts opt cs s arbitrary: s' and s' and s' rule: gen_item_gen_items_gen_cases.induct)
  case (7 ts opt i "is" s)
  obtain s1 where s1: "gen_item ts opt i (cg_reset s) = Some s1" "gen_items ts opt is s1 = Some s'"
    using 7(3) by (auto simp: bind_eq_Some_conv)
  show ?case using 7(2)[OF s1] 7(1)[OF s1(1)] by simp
next
  case (9 ts opt es "is" d cs s)
  obtain s1 where s1: "gen_items ts opt is (cg_reset s) = Some s1" "gen_cases ts opt cs s1 = Some s'"
    using 9(3) by (auto simp: bind_eq_Some_conv)
  show ?case using 9(2)[OF s1] 9(1)[OF s1(1)] by simp
qed (simp_all add: addSingle_errors)

lemma gen_parameters_errors:
  "gen_parameters ts ps s = Some s' \<Longrightarrow> ps \<noteq> [] \<or> cg_errors s = 0 \<Longrightarrow> cg_errors s' = 0"
proof (induction ts ps s rule: gen_parameters.induct)
  case (2 ts p ps s)
  obtain s1 where s1: "gen_parameter ts p (cg_reset s) = Some s1" "gen_parameters ts ps s1 = Some s'"
    using 2(2) by (auto simp: bind_eq_Some_conv)
  have "cg_errors s1 = 0"
    using s1(1) by (auto simp: gen_parameter_def cg_reset_def bind_eq_Some_conv Let_def split: option.splits)
  then show ?case using 2(1)[OF s1] by simp
qed simp

definition empty_unit :: "type_store \<Rightarrow> taddr \<Rightarrow> bool" where
  "empty_unit ts t = (case ts t of Some ob \<Rightarrow> (case ty_kind ob of TUnit ps is \<Rightarrow> ps = [] \<and> is = [] | _ \<Rightarrow> False) | None \<Rightarrow> False)"

fun no_empty_unit :: "type_store \<Rightarrow> decl \<Rightarrow> bool" where
  "no_empty_unit ts (DType i l t) = (\<not> empty_unit ts t)"
| "no_empty_unit ts (DInstantiation d) = list_all (\<lambda>(j, t). \<not> empty_unit ts t) (ui_compacted d)"
| "no_empty_unit ts d = True"

lemma gen_type_errors:
  assumes "gen_type gm opt i l t s = Some s'" and "\<not> empty_unit (gm_types gm) t" and "cg_errors s = 0"
  shows "cg_errors s' = 0"
proof (cases "l = IMPORTED")
  case False
  then obtain ob where ob: "gm_types gm t = Some ob" using assms(1) by (auto simp: gen_type_def bind_eq_Some_conv)
  have unit: ?thesis if k: "ty_kind ob = TUnit ps is" for ps "is"
  proof -
    obtain s1 s2 where st: "gen_parameters (gm_types gm) ps s1 = Some s2" "gen_items (gm_types gm) opt is s2 = Some s'"
      using assms(1) False ob k by (auto simp: gen_type_def bind_eq_Some_conv)
    have "ps \<noteq> [] \<or> is \<noteq> []" using assms(2) ob k by (auto simp: empty_unit_def)
    then show ?thesis using gen_parameters_errors[OF st(1)] gen_item_errors(2)[OF st(2)] by blast
  qed
  have func: ?thesis if k: "ty_kind ob = TFunction r ps" for r ps
  proof -
    obtain s1 where s1: "gen_parameters (gm_types gm) ps s1 = Some s'"
      "(case r of None \<Rightarrow> Some s | Some (rt, c) \<Rightarrow> gen_result (gm_types gm) rt (cg_reset s)) = Some s1"
      using assms(1) False ob k by (auto simp: gen_type_def bind_eq_Some_conv)
    have "cg_errors s1 = 0"
      using s1(2) assms(3) by (auto simp: gen_result_def cg_reset_def bind_eq_Some_conv split: option.splits)
    then show ?thesis using gen_parameters_errors[OF s1(1)] by simp
  qed
  show ?thesis
    using assms(1,3) False ob unit func by (cases "ty_kind ob") (auto simp: gen_type_def gen_enum_def)
qed (use assms in \<open>simp add: gen_type_def\<close>)

lemma gen_compacted_errors:
  "gen_compacted gm opt cs s = Some s' \<Longrightarrow> list_all (\<lambda>(j, t). \<not> empty_unit (gm_types gm) t) cs \<Longrightarrow> cg_errors s = 0 \<Longrightarrow> cg_errors s' = 0"
proof (induction gm opt cs s rule: gen_compacted.induct)
  case (2 gm opt i t us s)
  obtain s1 where s1: "gen_type gm opt i EXPORTED t (cg_reset s) = Some s1" "gen_compacted gm opt us s1 = Some s'"
    using 2(2) by (auto simp: bind_eq_Some_conv)
  have "cg_errors s1 = 0" using gen_type_errors[OF s1(1)] 2(3) by simp
  then show ?case using 2(1)[OF s1] 2(3) by simp
qed simp

lemma gen_declarations_ok:
  "gen_declarations gm opt ds ok s = Some (ok', s') \<Longrightarrow> list_all (no_empty_unit (gm_types gm)) ds \<Longrightarrow> ok \<Longrightarrow> ok'"
proof (induction gm opt ds ok s rule: gen_declarations.induct)
  case (2 gm opt d ds ok s)
  show ?case
  proof (cases "opt_instantiation_only opt \<and> is_unit_declaration gm d")
    case False
    then obtain s1 where s1: "gen_declaration gm opt d (cg_reset s) = Some s1"
      "gen_declarations gm opt ds (ok \<and> cg_errors s1 = 0) s1 = Some (ok', s')"
      using 2(3) by (auto simp: bind_eq_Some_conv simp del: de_Morgan_conj)
    have "cg_errors s1 = 0"
      using s1(1) 2(4) gen_type_errors gen_compacted_errors
      by (cases d) (auto simp: gen_declaration_def gen_function_def Let_def case_prod_beta split: if_splits)
    then show ?thesis using 2(2)[OF False s1] 2(4,5) by simp
  qed (use 2 in simp)
qed simp

definition broken_items :: "item list" where
  "broken_items = [UnknownField ((plain_base ''x'' 1 0 [])\<lparr>it_type := None\<rparr>) plain_field [''y'']]"

definition broken_module :: gen_module where
  "broken_module =
     \<lparr>mo_id = [''Sample''], mo_properties = [], mo_decls = [DType [''Broken''] EXPORTED 0], mo_units = [],
      gm_types = (\<lambda>t. if t = 0 then Some (plain_type (TUnit [] broken_items) (Some [''Broken''])) else None)\<rparr>"

lemma body_errors:
  "pg_errors (parse_body root u c s) = pg_errors s" "pg_errors (serialize_body root c s) = pg_errors s"
proof -
  have decls: "pg_errors (emit_decls ts s) = pg_errors s" for ts s
    by (induction ts s rule: emit_decls.induct) (simp_all add: emit_def)
  show "pg_errors (parse_body root u c s) = pg_errors s"
    by (simp add: parse_body_def Let_def emit_def emit_newline_def emitAllocateIntoPointerPointer_def emitPushBlockState_def decls)
  show "pg_errors (serialize_body root c s) = pg_errors s"
    by (simp add: serialize_body_def Let_def emit_def emit_newline_def emitPushBlockState_def decls)
qed

lemma broken_runs:
  "\<exists>code c' s'. run_parser (env_of broken_module sample_options 0) broken_items c ParserGenerator = Some (code, c', s', False)"
  "\<exists>code c' s'. run_serializer (env_of broken_module sample_options 0) broken_items c SerializerGenerator = Some (code, c', s', False)"
proof -
  let ?e = "env_of broken_module sample_options 0"
  let ?s = "(snd (newInstructionLabel ''root'' ParserGenerator))\<lparr>pg_code := empty_code\<rparr>"
  have "map_option pg_errors (parse_items ?e (filter not_property broken_items) ?s) = Some 1" by code_simp
  then obtain s2 where s2: "parse_items ?e (filter not_property broken_items) ?s = Some s2" "pg_errors s2 = 1"
    by (auto simp: map_option_case split: option.splits)
  have "\<not> Option.is_none (exprCurrentUnitPP ?e)" by code_simp
  then obtain u where u: "exprCurrentUnitPP ?e = Some u" by (auto simp: Option.is_none_def)
  let ?b = "parse_body (fst (newInstructionLabel ''root'' ParserGenerator)) u (pg_code s2) s2"
  obtain c' where "parser_class (kc_text (to_kcode (pg_code ?b))) c = Some c'" using parser_class_total by blast
  then show "\<exists>code c' s'. run_parser ?e broken_items c ParserGenerator = Some (code, c', s', False)"
    using s2 u by (simp add: run_parser_def Let_def case_prod_beta body_errors)
  have "map_option pg_errors (update_lengths ?e broken_items ?s \<bind>
      (\<lambda>a. serialize_items ?e (filter is_variable broken_items) (emit_newline a)) \<bind>
      (\<lambda>a. serialize_items ?e (filter (\<lambda>i. not_property i \<and> \<not> is_variable i) broken_items) (emit_newline a))) = Some 1"
    by code_simp
  then obtain a b d where abd: "update_lengths ?e broken_items ?s = Some a"
    "serialize_items ?e (filter is_variable broken_items) (emit_newline a) = Some b"
    "serialize_items ?e (filter (\<lambda>i. not_property i \<and> \<not> is_variable i) broken_items) (emit_newline b) = Some d" "pg_errors d = 1"
    by (auto simp: map_option_case bind_eq_Some_conv split: option.splits)
  let ?b = "serialize_body (fst (newInstructionLabel ''root'' ParserGenerator)) (pg_code d) d"
  obtain c' where "serializer_class (kc_text (to_kcode (pg_code ?b))) c = Some c'" using serializer_class_total by blast
  then show "\<exists>code c' s'. run_serializer ?e broken_items c SerializerGenerator = Some (code, c', s', False)"
    using abd by (simp add: run_serializer_def SerializerGenerator_def Let_def case_prod_beta body_errors)
qed

text \<open>C6: the code generator does not report that generating a parser or a serializer has failed.  Unless a
  unit has neither parameters nor items, the count of errors is zero again when its declaration has been
  visited, so that every run whose declarations are all visited prints the files and returns success, whatever the generators
  reported.\<close>

theorem generation_errors_lost:
  assumes "gen_declarations gm opt (mo_decls gm) True s = Some (ok, s')" and "list_all (no_empty_unit (gm_types gm)) (mo_decls gm)"
  shows "run_codegen B gm opt s =
     do { h \<leftarrow> printHeader B Printer (cg_file s'); i \<leftarrow> printImplementation B Printer (cg_file s') True; Some (True, [h, i]) }"
  using gen_declarations_ok[OF assms] assms(1) by (simp add: run_codegen_def)

theorem generation_errors_lost_witness:
  "\<exists>c code c' pg (s' :: codegen). run_parser (env_of broken_module sample_options 0) broken_items c ParserGenerator = Some (code, c', pg, False) \<and>
     (\<forall>B. run_codegen B broken_module sample_options (CodeGenerator ''broken'' ''diffingo'') =
       do { h \<leftarrow> printHeader B Printer (cg_file s'); i \<leftarrow> printImplementation B Printer (cg_file s') True; Some (True, [h, i]) })"
proof -
  let ?s = "CodeGenerator ''broken'' ''diffingo''"
  have s: "cg_parser ?s = ParserGenerator" "cg_serializer ?s = SerializerGenerator" by (simp_all add: CodeGenerator_def Let_def)
  have "\<exists>s1. gen_unit broken_module sample_options ''Broken'' 0 broken_items (cg_reset ?s) = Some s1"
    by (rule gen_unit_total) (use broken_runs in \<open>auto simp: s cg_reset_def, blast+\<close>)
  then obtain s1 where s1: "gen_unit broken_module sample_options ''Broken'' 0 broken_items (cg_reset ?s) = Some s1" by blast
  then have run: "gen_declarations broken_module sample_options (mo_decls broken_module) True ?s = Some (True, cg_reset s1)"
    by (simp add: broken_module_def gen_declaration_def gen_type_def plain_type_def broken_items_def id_name_def sample_options_def)
  have "list_all (no_empty_unit (gm_types broken_module)) (mo_decls broken_module)"
    by (simp add: broken_module_def empty_unit_def plain_type_def broken_items_def)
  note lost = generation_errors_lost[OF run this]
  obtain c code c' pg where r: "run_parser (env_of broken_module sample_options 0) broken_items c ParserGenerator = Some (code, c', pg, False)"
    using broken_runs(1) by blast
  show ?thesis
    by (rule exI[of _ c], rule exI[of _ code], rule exI[of _ c'], rule exI[of _ pg], rule exI[of _ "cg_reset s1"])
      (simp add: r lost)
qed

section \<open>Module properties\<close>

text \<open>C7: units built for an instantiation do not inherit the byte order of the module.  The type generator adds the compacted
  unit to the instantiation and declares it in no module, so whatever module it runs on, for each field of a compacted unit that has
  no byte order of its own, in a unit that has none, the generators use big endian; for the unit it was made from they use the
  module's byte order.  A compacted parser then reads the integers of a little-endian protocol with the wrong byte order.
  The units of the module exist when the pass starts; that the compacted unit is none of them is a fact about the pass.\<close>

theorem compaction_loses_byteorder:
  assumes pass: "run_type_generator n m al = Some (m', al')" "\<forall>u\<in>set (mo_units m). u < al_next al"
    and gm: "gm = module_node.extend m' (gen_module.fields (al_types al'))"
    and module: "attrs_lookup (mo_properties m) ''byteorder'' = Some (Attr k (Some (EConstant (CEnum label e))) b)"
    and inst: "DInstantiation d \<in> set (mo_decls m')" "ui_unit d = Some u" "u \<in> set (mo_units m)" "(nm, u') \<in> set (ui_compacted d)"
    and orig: "unit_items (al_types al') u = Some is" "i \<in> set is" "it_unit (base_of i) = Some u"
      "unit_property is ''byteorder'' = None" "attrs_lookup (it_attributes (base_of i)) ''byteorder'' = None"
    and comp: "unit_items (al_types al') u' = Some js" "j \<in> set js"
      "unit_property js ''byteorder'' = None" "attrs_lookup (it_attributes (base_of j)) ''byteorder'' = None"
  shows "byteOrderLabel (env_of gm opt u) i = Some (id_name label) \<and> byteOrderLabel (env_of gm opt u') j = Some ''big''"
proof -
  obtain ds' where ds: "visit_declarations n (mo_decls m) al = Some (ds', al')" "m' = m\<lparr>mo_decls := ds'\<rparr>"
    using pass(1) by (auto simp: run_type_generator_def)
  have "new_unit al al' u'" using visit_declarations_new[OF ds(1)] inst(1,4) ds(2) by auto
  then have "it_unit (base_of j) = Some u'" "u' \<notin> set (mo_units m)" using comp(1,2) pass(2) by (auto simp: new_unit_def)
  then show ?thesis
    using orig comp module inst ds(2) gm
    by (simp add: byteOrderLabel_def inheritedProperty_def env_of_def gm_properties_def unit_inheritedProperty_def module_node.defs gen_module.defs)
qed

definition little_module :: module_node where
  "little_module =
     \<lparr>mo_id = [''Sample''], mo_properties = [Attr ''byteorder'' (Some (EConstant (CEnum [''little''] 7))) False],
      mo_decls = [DType [''Message''] EXPORTED 3,
        DInstantiation ((Instantiation [''Compact''] [''Message''] [[''body'']])\<lparr>ui_unit := Some 3, ui_dependencies := sample_deps\<rparr>)],
      mo_units = [3]\<rparr>"

definition has_no_order :: "item list \<Rightarrow> bool" where
  "has_no_order is \<longleftrightarrow> is \<noteq> [] \<and> unit_property is ''byteorder'' = None \<and>
     attrs_lookup (it_attributes (base_of (hd is))) ''byteorder'' = None"

theorem compaction_loses_byteorder_witness:
  "\<exists>m' al' gm u' is i js j. run_type_generator 2 little_module sample_alloc = Some (m', al') \<and>
     gm = module_node.extend m' (gen_module.fields (al_types al')) \<and>
     unit_items (al_types al') 3 = Some (i # is) \<and> unit_items (al_types al') u' = Some (j # js) \<and> item_id j = item_id i \<and>
     byteOrderLabel (env_of gm sample_options 3) i = Some ''little'' \<and>
     byteOrderLabel (env_of gm sample_options u') j = Some ''big''"
proof -
  have run: "case generate_instantiation 2 [''Compact''] 3 sample_deps sample_alloc of
      Some (decls, al') \<Rightarrow> decls \<noteq> [] \<and>
        (case (unit_items (al_types al') 3, unit_items (al_types al') (snd (last decls))) of
           (Some is, Some js) \<Rightarrow> has_no_order is \<and> has_no_order js \<and> it_unit (base_of (hd is)) = Some 3 \<and>
             item_id (hd js) = item_id (hd is)
         | _ \<Rightarrow> False)
    | None \<Rightarrow> False"
    by code_simp
  then obtain decls al' "is" js where g: "generate_instantiation 2 [''Compact''] 3 sample_deps sample_alloc = Some (decls, al')" "decls \<noteq> []"
    and o: "unit_items (al_types al') 3 = Some is" "has_no_order is" "it_unit (base_of (hd is)) = Some 3"
    and c: "unit_items (al_types al') (snd (last decls)) = Some js" "has_no_order js" "item_id (hd js) = item_id (hd is)"
    by (auto split: option.splits)
  let ?d = "(Instantiation [''Compact''] [''Message''] [[''body'']])\<lparr>ui_unit := Some 3, ui_dependencies := sample_deps, ui_compacted := decls\<rparr>"
  let ?m = "little_module\<lparr>mo_decls := [DType [''Message''] EXPORTED 3, DInstantiation ?d]\<rparr>"
  let ?gm = "module_node.extend ?m (gen_module.fields (al_types al'))"
  have pass: "run_type_generator 2 little_module sample_alloc = Some (?m, al')"
    using g(1) by (simp add: run_type_generator_def little_module_def visit_instantiation_def Instantiation_def)
  have units: "\<forall>u\<in>set (mo_units little_module). u < al_next sample_alloc" by (simp add: little_module_def sample_alloc_def)
  have little: "attrs_lookup (mo_properties little_module) ''byteorder'' = Some (Attr ''byteorder'' (Some (EConstant (CEnum [''little''] 7))) False)"
    by (simp add: little_module_def)
  have "byteOrderLabel (env_of ?gm sample_options 3) (hd is) = Some (id_name [''little'']) \<and>
      byteOrderLabel (env_of ?gm sample_options (snd (last decls))) (hd js) = Some ''big''"
    by (rule compaction_loses_byteorder[OF pass units refl little, of ?d _ "fst (last decls)" _ "is" _ js])
      (use o c g(2) in \<open>simp_all add: has_no_order_def little_module_def\<close>)
  then show ?thesis using pass o c by (cases "is"; cases js) (auto simp: has_no_order_def id_name_def)
qed

end
