(* ===== verification/Scope.thy ===== *)
theory Scope
  imports Ast
begin

text \<open>
  Scopes of identifiers (\<^verbatim>\<open>spec/ast/scope.h\<close> and \<^verbatim>\<open>scope.cpp\<close>).

  A scope belongs to the module, to a type or to an item of a unit, and scopes point to each other as
  parents and children.  They therefore live in a store and are referred to by what they belong to: \<open>ItemScope u k\<close> is
  the scope of the \<open>k\<close>-th of the flattened items of the unit \<open>u\<close>.  A type or item whose scope was never
  touched has the empty scope its constructor makes.  A \<^verbatim>\<open>std::map\<close> is a map; inserting a key that is already there has no effect on it.

  \<open>scope_lookup\<close> follows the parents and does not return when they form a cycle: \<^const>\<open>None\<close>.  Aliases and merged scopes are never
  made in the program and are not modelled.
\<close>

datatype scope_ref = ModuleScope | TypeScope taddr | ItemScope taddr nat

record scope =
  sc_id :: "ident option"
  sc_children :: "string \<rightharpoonup> scope_ref"
  sc_values :: "string \<rightharpoonup> expr list"
  sc_parent :: "scope_ref option"

type_synonym scopes = "scope_ref \<rightharpoonup> scope"

definition Scope0 :: scope where
  "Scope0 = \<lparr>sc_id = None, sc_children = (\<lambda>x. None), sc_values = (\<lambda>x. None), sc_parent = None\<rparr>"

definition scope_at :: "scopes \<Rightarrow> scope_ref \<Rightarrow> scope" where
  "scope_at S r = (case S r of None \<Rightarrow> Scope0 | Some s \<Rightarrow> s)"

definition on_scope :: "scope_ref \<Rightarrow> (scope \<Rightarrow> scope) \<Rightarrow> scopes \<Rightarrow> scopes" where
  "on_scope r g S = S(r \<mapsto> g (scope_at S r))"

section \<open>Operations on one scope\<close>

definition set_parent :: "scope_ref option \<Rightarrow> scope \<Rightarrow> scope" where
  "set_parent p s = s\<lparr>sc_parent := p\<rparr>"

definition addChild :: "ident \<Rightarrow> scope_ref \<Rightarrow> scope \<Rightarrow> scope" where
  "addChild i c s =
     (if sc_children s (pathAsString i) = None then s\<lparr>sc_children := (sc_children s)(pathAsString i \<mapsto> c)\<rparr> else s)"

definition scope_insert :: "ident \<Rightarrow> expr \<Rightarrow> bool \<Rightarrow> scope \<Rightarrow> scope" where
  "scope_insert i v use_scope s =
     (let name = (if use_scope then pathAsString i else id_name i)
      in case sc_values s name of
           Some vs \<Rightarrow> s\<lparr>sc_values := (sc_values s)(name \<mapsto> vs @ [v])\<rparr>
         | None \<Rightarrow> s\<lparr>sc_values := (sc_values s)(name \<mapsto> [v])\<rparr>)"

definition scope_remove :: "ident \<Rightarrow> scope \<Rightarrow> bool \<times> scope" where
  "scope_remove i s =
     (case sc_values s (pathAsString i) of
        None \<Rightarrow> (False, s)
      | Some vs \<Rightarrow> (True, s\<lparr>sc_values := (sc_values s)(pathAsString i := None)\<rparr>))"

definition scope_clear :: "scope \<Rightarrow> scope" where
  "scope_clear s = s\<lparr>sc_children := (\<lambda>x. None), sc_values := (\<lambda>x. None)\<rparr>"

section \<open>Lookup\<close>

definition skip_own :: "scope \<Rightarrow> string list \<Rightarrow> string list" where
  "skip_own s path =
     (case (sc_id s, path) of
        (Some i, c # cs) \<Rightarrow> if strtolower c = strtolower (id_name i) then cs else path
      | _ \<Rightarrow> path)"

definition own_value :: "scope \<Rightarrow> string list \<Rightarrow> expr list option" where
  "own_value s path = (case path of [c] \<Rightarrow> sc_values s c | _ \<Rightarrow> None)"

text \<open>The child scope whose name is the longest prefix of a path, and the rest of the path.\<close>

fun child_prefix :: "scope \<Rightarrow> string list \<Rightarrow> nat \<Rightarrow> (scope_ref \<times> string list) option" where
  "child_prefix s path 0 = None"
| "child_prefix s path (Suc j) =
     (case sc_children s (strjoin (take (Suc j) path) ''::'') of
        Some c \<Rightarrow> Some (c, drop (Suc j) path)
      | None \<Rightarrow> child_prefix s path j)"

lemma child_prefix_shorter: "child_prefix s path j = Some (c, rest) \<Longrightarrow> path \<noteq> [] \<Longrightarrow> length rest < length path"
  by (induction j) (auto split: option.splits)

function scope_find_path :: "scopes \<Rightarrow> scope_ref \<Rightarrow> string list \<Rightarrow> bool \<Rightarrow> expr list" where
  "scope_find_path S r path traverse =
     (let s = scope_at S r; p = skip_own s path
      in if p = [] then []
         else case own_value s p of
           Some vs \<Rightarrow> vs
         | None \<Rightarrow>
             if \<not> traverse then []
             else case child_prefix s p (length p) of
                    None \<Rightarrow> []
                  | Some (c, rest) \<Rightarrow> scope_find_path S c rest traverse)"
  by pat_completeness auto
termination
proof (relation "measure (\<lambda>(S, r, path, tr). length path)")
  fix S r path tr s p x c rest
  assume a: "s = scope_at S r" "p = skip_own s path" "p \<noteq> []" "child_prefix s p (length p) = Some x" "(c, rest) = x"
  have "length p \<le> length path" using a(2) by (auto simp: skip_own_def split: option.splits list.splits)
  then show "((S, c, rest, tr), S, r, path, tr) \<in> measure (\<lambda>(S, r, path, tr). length path)"
    using child_prefix_shorter[of s p] a(3-5) by fastforce
qed simp

declare scope_find_path.simps [simp del]

definition scope_find :: "scopes \<Rightarrow> scope_ref \<Rightarrow> ident \<Rightarrow> bool \<Rightarrow> expr list" where
  "scope_find S r i traverse =
     (case sc_values (scope_at S r) (pathAsString i) of Some vs \<Rightarrow> vs | None \<Rightarrow> scope_find_path S r i traverse)"

partial_function (option) scope_lookup :: "scopes \<Rightarrow> scope_ref \<Rightarrow> ident \<Rightarrow> bool \<Rightarrow> expr list option" where
  "scope_lookup S r i traverse =
     (let v = scope_find S r i traverse
      in if v \<noteq> [] then Some v
         else case sc_parent (scope_at S r) of
                None \<Rightarrow> Some v
              | Some p \<Rightarrow> if traverse then scope_lookup S p i traverse else Some v)"

partial_function (option) scope_has :: "scopes \<Rightarrow> scope_ref \<Rightarrow> ident \<Rightarrow> bool \<Rightarrow> bool option" where
  "scope_has S r i traverse =
     (if scope_find S r i traverse \<noteq> [] then Some True
      else case sc_parent (scope_at S r) of
             None \<Rightarrow> Some False
           | Some p \<Rightarrow> if traverse then scope_has S p i traverse else Some False)"

text \<open>\<^const>\<open>None\<close> is here also the failed assertion.\<close>

definition lookupUnique :: "scopes \<Rightarrow> scope_ref \<Rightarrow> ident \<Rightarrow> bool \<Rightarrow> expr option option" where
  "lookupUnique S r i traverse =
     do { vs \<leftarrow> scope_lookup S r i traverse;
          (case vs of [] \<Rightarrow> Some None | [v] \<Rightarrow> Some (Some v) | _ \<Rightarrow> None) }"

end
