(* ===== verification/Scope_Builder.thy ===== *)
theory Scope_Builder
  imports Scope Clone Module
begin

text \<open>
  The passes that fill the scopes: \<^verbatim>\<open>generation/preprocessing/scope_builder.cpp\<close> and \<^verbatim>\<open>unit_scope_builder.cpp\<close>, with
  the label lists and scopes of enumerations and bitsets (\<^verbatim>\<open>type/enum.cpp\<close>, \<^verbatim>\<open>type/bitset.cpp\<close>).

  Declarations occur only as children of the module, so visiting all nodes in pre-order visits them in
  their order.  \<open>ss_type_scope\<close> is the \<^verbatim>\<open>scope_\<close> string of the types.  \<^const>\<open>None\<close> is an exception or a dereferenced null
  pointer.  The result and parameter nodes that \<^verbatim>\<open>addBuiltins\<close> makes for \<^verbatim>\<open>uppercase\<close> are attached to nothing and left out.  Label values
  are assumed small enough for \<^verbatim>\<open>i + 1\<close> not to overflow.
\<close>

record scope_state =
  ss_alloc :: alloc
  ss_scopes :: scopes
  ss_type_scope :: "taddr \<rightharpoonup> string"

section \<open>Enumerations and bitsets\<close>

fun enum_values :: "(ident \<times> int) list \<Rightarrow> int \<Rightarrow> (ident \<times> int) list option" where
  "enum_values [] next = Some []"
| "enum_values ((l, v) # ls) next =
     (if id_eq_string l ''UNDEF'' then None
      else let i = (if v < 0 then next else v)
           in map_option (\<lambda>ls'. (l, i) # ls') (enum_values ls (max next (i + 1))))"

definition Enum :: "(ident \<times> int) list \<Rightarrow> type_obj option" where
  "Enum ls =
     map_option (\<lambda>vs. \<lparr>ty_kind = TEnum (sort_key (\<lambda>l. id_name (fst l)) (vs @ [([''UNDEF''], -1)])),
                       ty_id = None, ty_wildcard = False\<rparr>) (enum_values ls 1)"

fun bitset_bits :: "(ident \<times> int) list \<Rightarrow> int \<Rightarrow> (ident \<times> int) list" where
  "bitset_bits [] next = []"
| "bitset_bits ((l, v) # ls) next = (let b = (if v < 0 then next else v) in (l, b) # bitset_bits ls (max next (b + 1)))"

definition Bitset :: "(ident \<times> int) list \<Rightarrow> type_obj" where
  "Bitset ls = \<lparr>ty_kind = TBitset (sort_key (\<lambda>l. id_name (fst l)) (bitset_bits ls 0)), ty_id = None, ty_wildcard = False\<rparr>"

fun label_value :: "(ident \<times> int) list \<Rightarrow> ident \<Rightarrow> int option" where
  "label_value [] label = None"
| "label_value ((l, v) # ls) label = (if id_eq l label then Some v else label_value ls label)"

definition enum_scope :: "taddr \<Rightarrow> (ident \<times> int) list \<Rightarrow> scope" where
  "enum_scope t ls = foldl (\<lambda>s (l, v). scope_insert l (EConstant (CEnum l t)) False s) Scope0 ls"

definition bitset_scope :: "taddr \<Rightarrow> (ident \<times> int) list \<Rightarrow> scope" where
  "bitset_scope t ls = foldl (\<lambda>s (l, v). scope_insert l (EConstant (CBitset [l] t)) False s) Scope0 ls"

text \<open>The scope of an enumeration or bitset is made when it is first asked for.\<close>

definition make_typeScope :: "taddr \<Rightarrow> scope \<Rightarrow> scopes \<Rightarrow> scopes" where
  "make_typeScope t s S = (if S (TypeScope t) = None then S(TypeScope t \<mapsto> s) else S)"

section \<open>The module scope\<close>

definition module_insert :: "ident \<Rightarrow> expr \<Rightarrow> scopes \<Rightarrow> scopes" where
  "module_insert i v S = on_scope ModuleScope (scope_insert i v True) S"

definition link_type_scope :: "ident \<Rightarrow> taddr \<Rightarrow> scopes \<Rightarrow> scopes" where
  "link_type_scope i t S =
     on_scope ModuleScope (addChild i (TypeScope t)) (on_scope (TypeScope t) (set_parent (Some ModuleScope)) S)"

definition set_type_id :: "taddr \<Rightarrow> ident \<Rightarrow> alloc \<Rightarrow> alloc" where
  "set_type_id t i al = al\<lparr>al_types := (al_types al)(t := map_option (\<lambda>ob. ob\<lparr>ty_id := Some i\<rparr>) (al_types al t))\<rparr>"

definition scope_type_decl :: "string \<Rightarrow> ident \<Rightarrow> taddr \<Rightarrow> scope_state \<Rightarrow> scope_state option" where
  "scope_type_decl mname i t s =
     do { ob \<leftarrow> al_types (ss_alloc s) t;
          let S1 = module_insert i (EType t) (ss_scopes s);
          let S2 = (case ty_kind ob of
                      TBitset ls \<Rightarrow> link_type_scope i t (make_typeScope t (bitset_scope t ls) S1)
                    | TEnum ls \<Rightarrow> link_type_scope i t (make_typeScope t (enum_scope t ls) S1)
                    | _ \<Rightarrow> S1);
          Some (s\<lparr>ss_alloc := set_type_id t i (ss_alloc s), ss_scopes := S2, ss_type_scope := (ss_type_scope s)(t \<mapsto> mname)\<rparr>) }"

definition scope_decl :: "string \<Rightarrow> decl \<Rightarrow> scope_state \<Rightarrow> scope_state option" where
  "scope_decl mname d s =
     (case d of
        DType i l t \<Rightarrow> scope_type_decl mname i t s
      | DConstant i l e \<Rightarrow> Some (s\<lparr>ss_scopes := module_insert i e (ss_scopes s)\<rparr>)
      | DFunction l fn \<Rightarrow> Some (s\<lparr>ss_scopes := module_insert (fn_id fn) (EFunction fn) (ss_scopes s)\<rparr>)
      | DTransform l tr \<Rightarrow> Some (s\<lparr>ss_scopes := module_insert (tr_id tr) (ETransform tr) (ss_scopes s)\<rparr>)
      | DInstantiation d \<Rightarrow> Some s)"

fun scope_decls :: "string \<Rightarrow> decl list \<Rightarrow> scope_state \<Rightarrow> scope_state option" where
  "scope_decls mname [] s = Some s"
| "scope_decls mname (d # ds) s = do { s1 \<leftarrow> scope_decl mname d s; scope_decls mname ds s1 }"

section \<open>Built-in declarations\<close>

definition plain_obj :: "type_kind \<Rightarrow> type_obj" where
  "plain_obj k = \<lparr>ty_kind = k, ty_id = None, ty_wildcard = False\<rparr>"

definition builtin_transform :: "string \<Rightarrow> int \<Rightarrow> module_node \<times> alloc \<Rightarrow> module_node \<times> alloc" where
  "builtin_transform name w = (\<lambda>(m, al).
     let (wire, al1) = new_type (plain_obj TString) al;
         (internal, al2) = new_type (plain_obj (TInteger w False)) al1;
         tr = \<lparr>tr_id = [name], tr_wire_type = wire, tr_internal_type = internal, tr_decode = None, tr_encode = None\<rparr>
     in (addDeclaration (al_types al2) (DTransform IMPORTED tr) m, al2))"

definition addBuiltins :: "module_node \<times> alloc \<Rightarrow> (module_node \<times> alloc) option" where
  "addBuiltins = (\<lambda>(m, al).
     do { bo_enum \<leftarrow> Enum [([''big''], 0), ([''little''], 1)];
          let (bo, al1) = new_type bo_enum al;
          let m1 = addDeclaration (al_types al1) (DType [''ByteOrder''] IMPORTED bo) m;
          let (uc, al2) = new_type \<lparr>ty_kind = TFunction None [], ty_id = None, ty_wildcard = True\<rparr> al1;
          let m2 = addDeclaration (al_types al2) (DFunction IMPORTED \<lparr>fn_id = [''uppercase''], fn_type = uc, fn_body = []\<rparr>) m1;
          Some (builtin_transform ''stringEncodedUint32'' 32
                 (builtin_transform ''hexStringEncodedUint64'' 64
                   (builtin_transform ''stringEncodedUint64'' 64 (m2, al2)))) })"

definition run_scope_builder :: "module_node \<Rightarrow> scope_state \<Rightarrow> (module_node \<times> scope_state) option" where
  "run_scope_builder m s =
     do { (m1, al) \<leftarrow> addBuiltins (m, ss_alloc s);
          s1 \<leftarrow> scope_decls (id_name (mo_id m1)) (mo_decls m1) (s\<lparr>ss_alloc := al\<rparr>);
          Some (m1, s1) }"

section \<open>Unit scopes\<close>

fun scope_parameters :: "taddr \<Rightarrow> parameter list \<Rightarrow> scopes \<Rightarrow> scopes option" where
  "scope_parameters u [] S = Some S"
| "scope_parameters u (p # ps) S =
     do { i \<leftarrow> par_id p;
          scope_parameters u ps
            (on_scope (TypeScope u) (scope_insert i (EParserState PARAMETER (Some i) (Some u) (Some (par_type p))) False) S) }"

definition is_regexp :: "type_store \<Rightarrow> taddr option \<Rightarrow> bool" where
  "is_regexp ts t =
     (case t of None \<Rightarrow> False
      | Some a \<Rightarrow> (case ts a of None \<Rightarrow> False | Some ob \<Rightarrow> (case ty_kind ob of TRegExp as \<Rightarrow> True | _ \<Rightarrow> False)))"

definition dollar_type :: "taddr option \<Rightarrow> alloc \<Rightarrow> taddr option \<times> alloc" where
  "dollar_type t al =
     (if is_regexp (al_types al) t then (let (b, al') = new_type bytes_type al in (Some b, al')) else (t, al))"

definition scope_item :: "taddr \<Rightarrow> nat \<Rightarrow> item \<Rightarrow> scope_state \<Rightarrow> scope_state option" where
  "scope_item u k i s =
     do { child \<leftarrow> ID (''__item_'' @ id_name (item_id i));
          let S1 = on_scope (ItemScope u k) (set_parent (Some (TypeScope u))) (ss_scopes s);
          let S2 = on_scope (TypeScope u) (addChild child (ItemScope u k)) S1;
          let (dd, al) = dollar_type (it_type (base_of i)) (ss_alloc s);
          Some (s\<lparr>ss_alloc := al,
                  ss_scopes := on_scope (ItemScope u k)
                    (scope_insert [''$$''] (EParserState DOLLARDOLLAR None (Some u) dd) False) S2\<rparr>) }"

fun scope_items :: "taddr \<Rightarrow> nat \<Rightarrow> item list \<Rightarrow> scope_state \<Rightarrow> scope_state option" where
  "scope_items u k [] s = Some s"
| "scope_items u k (i # is) s = do { s1 \<leftarrow> scope_item u k i s; scope_items u (Suc k) is s1 }"

definition scope_unit :: "taddr \<Rightarrow> parameter list \<Rightarrow> item list \<Rightarrow> scope_state \<Rightarrow> scope_state option" where
  "scope_unit u ps is s =
     do { let S1 = on_scope (TypeScope u) (scope_insert [''self''] (EParserState SELF None (Some u) (Some u)) False) (ss_scopes s);
          S2 \<leftarrow> scope_parameters u ps (on_scope (TypeScope u) (set_parent (Some ModuleScope)) S1);
          scope_items u 0 (flatten_items is) (s\<lparr>ss_scopes := S2\<rparr>) }"

definition unit_scope_decl :: "decl \<Rightarrow> scope_state \<Rightarrow> scope_state option" where
  "unit_scope_decl d s =
     (case d of
        DType i l t \<Rightarrow>
          do { ob \<leftarrow> al_types (ss_alloc s) t;
               (case ty_kind ob of TUnit ps is \<Rightarrow> scope_unit t ps is s | _ \<Rightarrow> Some s) }
      | _ \<Rightarrow> Some s)"

fun run_unit_scope_builder :: "decl list \<Rightarrow> scope_state \<Rightarrow> scope_state option" where
  "run_unit_scope_builder [] s = Some s"
| "run_unit_scope_builder (d # ds) s = do { s1 \<leftarrow> unit_scope_decl d s; run_unit_scope_builder ds s1 }"

end
