(* ===== verification/Id_Resolver.thy ===== *)
theory Id_Resolver
  imports Scope_Builder
begin

text \<open>
  Resolving identifiers: the handlers of \<^verbatim>\<open>generation/preprocessing/id_resolver.cpp\<close> for an identifier expression, an
  unknown type and the unit of an instantiation, and \<^verbatim>\<open>transform_resolver.cpp\<close>.

  A handler gets the nodes around the current one, innermost first, of which only units and items matter.  A \<open>resolution\<close> says
  what it replaces the node by, or which error it logs.  The \<^verbatim>\<open>scope_\<close> string that a resolved expression gets is never read and left out.
\<close>

datatype ctx = CUnit taddr | CItem scope_ref | COther

fun nearest_scope :: "ctx list \<Rightarrow> scope_ref" where
  "nearest_scope [] = ModuleScope"
| "nearest_scope (CItem r # cs) = r"
| "nearest_scope (CUnit t # cs) = TypeScope t"
| "nearest_scope (COther # cs) = nearest_scope cs"

datatype 'a resolution = Unresolved | Ambiguous | Misfit | Resolved 'a

definition resolution_errors :: "bool \<Rightarrow> 'a resolution \<Rightarrow> nat" where
  "resolution_errors report_unresolved r =
     (case r of Unresolved \<Rightarrow> (if report_unresolved then 1 else 0) | Ambiguous \<Rightarrow> 1 | Misfit \<Rightarrow> 1 | Resolved x \<Rightarrow> 0)"

definition pick :: "expr list \<Rightarrow> expr resolution" where
  "pick vals = (case vals of [] \<Rightarrow> Unresolved | [v] \<Rightarrow> Resolved v | _ \<Rightarrow> Ambiguous)"

definition visit_ID :: "scopes \<Rightarrow> ident \<Rightarrow> ctx list \<Rightarrow> ident \<Rightarrow> expr resolution option" where
  "visit_ID S module_id cs i =
     do { vals \<leftarrow> scope_lookup S (nearest_scope cs) i True;
          vals' \<leftarrow> (if vals = [] \<and> isScoped i \<and> hd i = id_name module_id
                    then scope_lookup S (nearest_scope cs) (tl i) True else Some vals);
          Some (pick vals') }"

definition find_type :: "scopes \<Rightarrow> ident \<Rightarrow> taddr resolution option" where
  "find_type S i =
     map_option (\<lambda>vals. case pick vals of
                   Unresolved \<Rightarrow> Unresolved | Ambiguous \<Rightarrow> Ambiguous | Misfit \<Rightarrow> Misfit
                 | Resolved v \<Rightarrow> (case v of EType t \<Rightarrow> Resolved t | _ \<Rightarrow> Misfit))
       (scope_lookup S ModuleScope i True)"

definition visit_Instantiation :: "scopes \<Rightarrow> type_store \<Rightarrow> ident \<Rightarrow> taddr resolution option" where
  "visit_Instantiation S ts unit_id =
     map_option (\<lambda>r. case r of Resolved t \<Rightarrow> (if is_unit ts t then Resolved t else Misfit) | _ \<Rightarrow> r) (find_type S unit_id)"

text \<open>An unknown type without identifier is left alone.  A type that is found takes the identifier it was found
  by, unless both are scoped.\<close>

definition visit_Unknown :: "ident \<Rightarrow> ident option \<Rightarrow> scope_state \<Rightarrow> (taddr resolution \<times> scope_state) option" where
  "visit_Unknown module_id i s =
     (case i of
        None \<Rightarrow> Some (Unresolved, s)
      | Some x \<Rightarrow>
          do { r \<leftarrow> find_type (ss_scopes s) x;
               (case r of
                  Resolved t \<Rightarrow>
                    do { ob \<leftarrow> al_types (ss_alloc s) t;
                         Some (r,
                           if (case ty_id ob of None \<Rightarrow> True | Some old \<Rightarrow> \<not> (isScoped old \<and> isScoped x))
                           then s\<lparr>ss_alloc := set_type_id t x (ss_alloc s),
                                  ss_type_scope := (if isScoped x then ss_type_scope s
                                                    else (ss_type_scope s)(t \<mapsto> id_name module_id))\<rparr>
                           else s) }
                | _ \<Rightarrow> Some (r, s)) })"

section \<open>Transforms\<close>

text \<open>For any other value of the attribute an error is logged, and then the null pointer \<^verbatim>\<open>type_expr\<close> is
  dereferenced.\<close>

definition transform_base :: "item_base \<Rightarrow> alloc \<Rightarrow> (item_base \<times> alloc) option" where
  "transform_base b al =
     (case attrs_lookup (it_attributes b) ''transform_to'' of
        None \<Rightarrow> Some (b, al)
      | Some a \<Rightarrow>
          (case attr_value a of
             Some (EID i) \<Rightarrow>
               (let (t, al') = new_type (plain_obj (TUnknown (Some i))) al
                in Some (b\<lparr>it_serialized_type := it_type b, it_type := Some t\<rparr>, al'))
           | Some (EType t) \<Rightarrow> Some (b\<lparr>it_serialized_type := it_type b, it_type := Some t\<rparr>, al)
           | _ \<Rightarrow> None))"

fun transform_item :: "item \<Rightarrow> alloc \<Rightarrow> (item \<times> alloc) option"
and transform_items :: "item list \<Rightarrow> alloc \<Rightarrow> (item list \<times> alloc) option"
and transform_cases :: "switch_case list \<Rightarrow> alloc \<Rightarrow> (switch_case list \<times> alloc) option" where
  "transform_item (Variable b d) al = do { (b', al1) \<leftarrow> transform_base b al; Some (Variable b' d, al1) }"
| "transform_item (Property b p) al = do { (b', al1) \<leftarrow> transform_base b al; Some (Property b' p, al1) }"
| "transform_item (AtomicType b f) al = do { (b', al1) \<leftarrow> transform_base b al; Some (AtomicType b' f, al1) }"
| "transform_item (ConstantField b f c) al = do { (b', al1) \<leftarrow> transform_base b al; Some (ConstantField b' f c, al1) }"
| "transform_item (CtorField b f c) al = do { (b', al1) \<leftarrow> transform_base b al; Some (CtorField b' f c, al1) }"
| "transform_item (UnknownField b f i) al = do { (b', al1) \<leftarrow> transform_base b al; Some (UnknownField b' f i, al1) }"
| "transform_item (UnitField b f) al = do { (b', al1) \<leftarrow> transform_base b al; Some (UnitField b' f, al1) }"
| "transform_item (Switch b f e cs) al =
     do { (b', al1) \<leftarrow> transform_base b al; (cs', al2) \<leftarrow> transform_cases cs al1; Some (Switch b' f e cs', al2) }"
| "transform_item (Vector b f inner len) al =
     do { (b', al1) \<leftarrow> transform_base b al; (inner', al2) \<leftarrow> transform_item inner al1; Some (Vector b' f inner' len, al2) }"
| "transform_item (ListField b f inner) al =
     do { (b', al1) \<leftarrow> transform_base b al; (inner', al2) \<leftarrow> transform_item inner al1; Some (ListField b' f inner', al2) }"
| "transform_items [] al = Some ([], al)"
| "transform_items (i # is) al =
     do { (i', al1) \<leftarrow> transform_item i al; (is', al2) \<leftarrow> transform_items is al1; Some (i' # is', al2) }"
| "transform_cases [] al = Some ([], al)"
| "transform_cases (Case es is d # cs) al =
     do { (is', al1) \<leftarrow> transform_items is al; (cs', al2) \<leftarrow> transform_cases cs al1; Some (Case es is' d # cs', al2) }"

definition transform_unit :: "taddr \<Rightarrow> alloc \<Rightarrow> alloc option" where
  "transform_unit u al =
     do { ob \<leftarrow> al_types al u;
          (case ty_kind ob of
             TUnit ps is \<Rightarrow>
               do { (is', al') \<leftarrow> transform_items is al;
                    Some (al'\<lparr>al_types := (al_types al')(u \<mapsto> ob\<lparr>ty_kind := TUnit ps is'\<rparr>)\<rparr>) }
           | _ \<Rightarrow> Some al) }"

fun run_transform_resolver :: "decl list \<Rightarrow> alloc \<Rightarrow> alloc option" where
  "run_transform_resolver [] al = Some al"
| "run_transform_resolver (d # ds) al =
     (case d of
        DType i l t \<Rightarrow> do { al1 \<leftarrow> transform_unit t al; run_transform_resolver ds al1 }
      | _ \<Rightarrow> run_transform_resolver ds al)"

end
