(* ===== verification/Name_Resolution.thy ===== *)
theory Name_Resolution
  imports Id_Resolver Clone_Length Samples
begin

text \<open>
  What the scope passes and the resolver do together: which names an item of a unit sees, what is found for
  them, and what happens to names that are declared twice.
\<close>

section \<open>Values of a name\<close>

definition values_of :: "scope \<Rightarrow> string \<Rightarrow> expr list" where
  "values_of s x = (case sc_values s x of None \<Rightarrow> [] | Some vs \<Rightarrow> vs)"

text \<open>What the resolver relies on: a scope of which one can insert into and ask for the values of a name.\<close>

locale multi_map =
  fixes insert_value :: "'k \<Rightarrow> 'v \<Rightarrow> 'm \<Rightarrow> 'm" and vals :: "'m \<Rightarrow> 'n \<Rightarrow> 'v list" and name :: "'k \<Rightarrow> 'n"
  assumes vals_insert: "vals (insert_value k v m) x = vals m x @ (if x = name k then [v] else [])"
begin

lemma vals_inserts: "vals (foldl (\<lambda>m (k, v). insert_value k v m) m kvs) x = vals m x @ map snd (filter (\<lambda>(k, v). name k = x) kvs)"
  by (induction kvs arbitrary: m) (auto simp: vals_insert)

lemma vals_once:
  assumes "vals m x = []" and "filter (\<lambda>(k, v). name k = x) kvs = [(k, v)]"
  shows "vals (foldl (\<lambda>m (k, v). insert_value k v m) m kvs) x = [v]"
  using assms by (simp add: vals_inserts)

end

lemma values_of_insert:
  "values_of (scope_insert i v b s) x = values_of s x @ (if x = (if b then pathAsString i else id_name i) then [v] else [])"
  by (auto simp: values_of_def scope_insert_def Let_def split: option.splits)

interpretation local_names: multi_map "\<lambda>i v. scope_insert i v False" values_of id_name
  by unfold_locales (simp add: values_of_insert)

interpretation full_names: multi_map "\<lambda>i v. scope_insert i v True" values_of pathAsString
  by unfold_locales (simp add: values_of_insert)

lemma scope_ops_simps [simp]:
  "values_of (addChild i c s) x = values_of s x" "values_of (set_parent p s) x = values_of s x"
  "sc_parent (addChild i c s) = sc_parent s" "sc_parent (set_parent p s) = p" "sc_parent (scope_insert i v b s) = sc_parent s"
  "sc_id (addChild i c s) = sc_id s" "sc_id (set_parent p s) = sc_id s" "sc_id (scope_insert i v b s) = sc_id s"
  by (simp_all add: values_of_def addChild_def set_parent_def scope_insert_def Let_def split: option.splits)

lemma Scope0_simps [simp]: "values_of Scope0 x = []" "sc_id Scope0 = None" "sc_parent Scope0 = None"
  by (simp_all add: values_of_def Scope0_def)

lemma scope_at_on [simp]: "scope_at (on_scope r g S) q = (if q = r then g (scope_at S r) else scope_at S q)"
  by (simp add: scope_at_def on_scope_def)

lemma pathAsString_single [simp]: "pathAsString [x] = x"
  by (simp add: pathAsString_strjoin)

lemma scope_find_single:
  assumes "sc_id (scope_at S r) = None"
  shows "scope_find S r [x] True = values_of (scope_at S r) x"
proof -
  have nil: "scope_find_path S c [] True = []" for c
    by (subst scope_find_path.simps) (simp add: skip_own_def split: option.splits)
  have "scope_find_path S r [x] True = values_of (scope_at S r) x"
    using assms nil by (subst scope_find_path.simps)
      (auto simp: skip_own_def own_value_def values_of_def Let_def split: option.splits)
  then show ?thesis by (auto simp: scope_find_def values_of_def split: option.splits)
qed

lemma scope_lookup_single:
  assumes "sc_id (scope_at S r) = None"
  shows "scope_lookup S r [x] True =
     (if values_of (scope_at S r) x \<noteq> [] then Some (values_of (scope_at S r) x)
      else case sc_parent (scope_at S r) of None \<Rightarrow> Some [] | Some p \<Rightarrow> scope_lookup S p [x] True)"
  by (subst scope_lookup.simps) (simp add: scope_find_single[OF assms] Let_def cong: option.case_cong)

section \<open>The module scope\<close>

fun decl_value :: "decl \<Rightarrow> (ident \<times> expr) option" where
  "decl_value (DConstant i l e) = Some (i, e)"
| "decl_value (DFunction l fn) = Some (fn_id fn, EFunction fn)"
| "decl_value (DTransform l tr) = Some (tr_id tr, ETransform tr)"
| "decl_value (DType i l t) = Some (i, EType t)"
| "decl_value (DInstantiation d) = None"

definition declared :: "decl list \<Rightarrow> string \<Rightarrow> expr list" where
  "declared ds x = map snd (filter (\<lambda>(i, v). pathAsString i = x) (List.map_filter decl_value ds))"

lemma declared_simps [simp]:
  "declared [] x = []"
  "declared (d # ds) x = (case decl_value d of None \<Rightarrow> [] | Some (i, v) \<Rightarrow> if pathAsString i = x then [v] else []) @ declared ds x"
  by (auto simp: declared_def List.map_filter_def split: option.splits)

text \<open>The scope passes touch the module scope only through its values and its children.\<close>

definition same_link :: "scope \<Rightarrow> scope \<Rightarrow> bool" where
  "same_link s s' \<longleftrightarrow> sc_parent s' = sc_parent s \<and> sc_id s' = sc_id s"

lemma make_typeScope_module [simp]: "scope_at (make_typeScope t c S) ModuleScope = scope_at S ModuleScope"
  by (simp add: make_typeScope_def scope_at_def)

lemma link_type_scope_module:
  "values_of (scope_at (link_type_scope i t S) ModuleScope) x = values_of (scope_at S ModuleScope) x"
  "same_link (scope_at S ModuleScope) (scope_at (link_type_scope i t S) ModuleScope)"
  by (simp_all add: link_type_scope_def same_link_def)

lemma module_insert_module:
  "values_of (scope_at (module_insert i v S) ModuleScope) x = values_of (scope_at S ModuleScope) x @ (if x = pathAsString i then [v] else [])"
  "same_link (scope_at S ModuleScope) (scope_at (module_insert i v S) ModuleScope)"
  by (simp_all add: module_insert_def values_of_insert same_link_def)

lemma scope_decl_module:
  assumes "scope_decl mname d s = Some s'"
  shows "values_of (scope_at (ss_scopes s') ModuleScope) x = values_of (scope_at (ss_scopes s) ModuleScope) x @ declared [d] x \<and>
     same_link (scope_at (ss_scopes s) ModuleScope) (scope_at (ss_scopes s') ModuleScope)"
proof (cases d)
  case (DType i l t)
  obtain ob where "al_types (ss_alloc s) t = Some ob" using assms DType by (auto simp: scope_decl_def scope_type_decl_def bind_eq_Some_conv)
  then show ?thesis
    using assms DType link_type_scope_module module_insert_module
    by (cases "ty_kind ob") (auto simp: scope_decl_def scope_type_decl_def Let_def same_link_def)
qed (use assms module_insert_module in \<open>auto simp: scope_decl_def same_link_def\<close>)

lemma scope_decls_module:
  "scope_decls mname ds s = Some s' \<Longrightarrow>
     values_of (scope_at (ss_scopes s') ModuleScope) x = values_of (scope_at (ss_scopes s) ModuleScope) x @ declared ds x \<and>
     same_link (scope_at (ss_scopes s) ModuleScope) (scope_at (ss_scopes s') ModuleScope)"
proof (induction mname ds s rule: scope_decls.induct)
  case (2 mname d ds s)
  obtain s1 where s1: "scope_decl mname d s = Some s1" "scope_decls mname ds s1 = Some s'"
    using 2(2) by (auto simp: bind_eq_Some_conv)
  show ?case using scope_decl_module[OF s1(1), of x] 2(1)[OF s1] by (simp add: same_link_def)
qed (simp add: same_link_def)

section \<open>Unit scopes\<close>

definition param_values :: "taddr \<Rightarrow> parameter list \<Rightarrow> string \<Rightarrow> expr list" where
  "param_values u ps x =
     concat (map (\<lambda>p. case par_id p of None \<Rightarrow> []
       | Some i \<Rightarrow> if id_name i = x then [EParserState PARAMETER (Some i) (Some u) (Some (par_type p))] else []) ps)"

definition unit_names :: "taddr \<Rightarrow> parameter list \<Rightarrow> string \<Rightarrow> expr list" where
  "unit_names u ps x = (if x = ''self'' then [EParserState SELF None (Some u) (Some u)] else []) @ param_values u ps x"

definition item_names :: "taddr \<Rightarrow> taddr option \<Rightarrow> string \<Rightarrow> expr list" where
  "item_names u dd x = (if x = ''$$'' then [EParserState DOLLARDOLLAR None (Some u) dd] else [])"

lemma scope_parameters_values:
  "scope_parameters u ps S = Some S' \<Longrightarrow>
     values_of (scope_at S' (TypeScope u)) x = values_of (scope_at S (TypeScope u)) x @ param_values u ps x \<and>
     same_link (scope_at S (TypeScope u)) (scope_at S' (TypeScope u)) \<and> (\<forall>r. r \<noteq> TypeScope u \<longrightarrow> scope_at S' r = scope_at S r)"
proof (induction u ps S rule: scope_parameters.induct)
  case (2 u p ps S)
  obtain i where i: "par_id p = Some i" "scope_parameters u ps
      (on_scope (TypeScope u) (scope_insert i (EParserState PARAMETER (Some i) (Some u) (Some (par_type p))) False) S) = Some S'"
    using 2(2) by (auto simp: bind_eq_Some_conv)
  show ?case using 2(1)[OF i] i(1) by (auto simp: values_of_insert param_values_def same_link_def)
qed (simp add: param_values_def same_link_def)

text \<open>The scope of an item as the unit scope builder leaves it.\<close>

definition item_done :: "alloc \<Rightarrow> taddr \<Rightarrow> item \<Rightarrow> scope \<Rightarrow> bool" where
  "item_done al u i s \<longleftrightarrow> sc_parent s = Some (TypeScope u) \<and> sc_id s = None \<and>
     (\<exists>dd. values_of s = item_names u dd \<and>
        (\<forall>a. it_type (base_of i) = Some a \<longrightarrow> a < al_next al \<longrightarrow> \<not> is_regexp (al_types al) (Some a) \<longrightarrow> dd = Some a))"

lemma dollar_type_extends:
  "dollar_type t al = (dd, al') \<Longrightarrow> extends al al' \<and> (\<not> is_regexp (al_types al) t \<longrightarrow> dd = t)"
  by (auto simp: dollar_type_def split: if_splits prod.splits intro: new_type_extends)

lemma scope_item_done:
  assumes "scope_item u k i s = Some s'" and "scope_at (ss_scopes s) (ItemScope u k) = Scope0"
  shows "item_done (ss_alloc s) u i (scope_at (ss_scopes s') (ItemScope u k)) \<and> extends (ss_alloc s) (ss_alloc s') \<and>
     (\<forall>r. r \<noteq> ItemScope u k \<longrightarrow> r \<noteq> TypeScope u \<longrightarrow> scope_at (ss_scopes s') r = scope_at (ss_scopes s) r) \<and>
     values_of (scope_at (ss_scopes s') (TypeScope u)) = values_of (scope_at (ss_scopes s) (TypeScope u)) \<and>
     same_link (scope_at (ss_scopes s) (TypeScope u)) (scope_at (ss_scopes s') (TypeScope u))"
proof -
  obtain dd al where dd: "dollar_type (it_type (base_of i)) (ss_alloc s) = (dd, al)" by fastforce
  have "values_of (scope_insert [''$$''] (EParserState DOLLARDOLLAR None (Some u) dd) False (set_parent (Some (TypeScope u)) Scope0)) = item_names u dd"
    by (simp add: fun_eq_iff values_of_insert item_names_def id_name_def)
  then show ?thesis
    using assms dd dollar_type_extends[OF dd]
    by (auto simp: scope_item_def bind_eq_Some_conv Let_def item_done_def same_link_def fun_eq_iff)
qed

lemma item_done_mono: "item_done al' u i s \<Longrightarrow> extends al al' \<Longrightarrow> item_done al u i s"
proof -
  assume d: "item_done al' u i s" and e: "extends al al'"
  have "is_regexp (al_types al') (Some a) = is_regexp (al_types al) (Some a)" "a < al_next al'" if "a < al_next al" for a
    using e that by (auto simp: extends_def is_regexp_def)
  then show ?thesis using d unfolding item_done_def by blast
qed

lemma scope_items_done:
  "scope_items u k is s = Some s' \<Longrightarrow> \<forall>j\<ge>k. scope_at (ss_scopes s) (ItemScope u j) = Scope0 \<Longrightarrow>
     (\<forall>j<length is. item_done (ss_alloc s) u (is ! j) (scope_at (ss_scopes s') (ItemScope u (k + j)))) \<and> extends (ss_alloc s) (ss_alloc s') \<and>
     (\<forall>r. r \<noteq> TypeScope u \<longrightarrow> (\<forall>j\<ge>k. r \<noteq> ItemScope u j) \<longrightarrow> scope_at (ss_scopes s') r = scope_at (ss_scopes s) r) \<and>
     values_of (scope_at (ss_scopes s') (TypeScope u)) = values_of (scope_at (ss_scopes s) (TypeScope u)) \<and>
     same_link (scope_at (ss_scopes s) (TypeScope u)) (scope_at (ss_scopes s') (TypeScope u))"
proof (induction u k "is" s rule: scope_items.induct)
  case (2 u k i "is" s)
  obtain s1 where s1: "scope_item u k i s = Some s1" "scope_items u (Suc k) is s1 = Some s'"
    using 2(2) by (auto simp: bind_eq_Some_conv)
  have step: "item_done (ss_alloc s) u i (scope_at (ss_scopes s1) (ItemScope u k))" "extends (ss_alloc s) (ss_alloc s1)"
    "\<forall>r. r \<noteq> ItemScope u k \<longrightarrow> r \<noteq> TypeScope u \<longrightarrow> scope_at (ss_scopes s1) r = scope_at (ss_scopes s) r"
    "values_of (scope_at (ss_scopes s1) (TypeScope u)) = values_of (scope_at (ss_scopes s) (TypeScope u))"
    "same_link (scope_at (ss_scopes s) (TypeScope u)) (scope_at (ss_scopes s1) (TypeScope u))"
    using scope_item_done[OF s1(1)] 2(3) by auto
  have "\<forall>j\<ge>Suc k. scope_at (ss_scopes s1) (ItemScope u j) = Scope0" using step(3) 2(3) by simp
  note IH = 2(1)[OF s1 this]
  have "item_done (ss_alloc s) u ((i # is) ! j) (scope_at (ss_scopes s') (ItemScope u (k + j)))" if j: "j < length (i # is)" for j
  proof (cases j)
    case 0
    have "scope_at (ss_scopes s') (ItemScope u k) = scope_at (ss_scopes s1) (ItemScope u k)" using IH by simp
    then show ?thesis using step(1) 0 by simp
  next
    case (Suc j')
    then have "item_done (ss_alloc s1) u (is ! j') (scope_at (ss_scopes s') (ItemScope u (Suc k + j')))" using IH j by simp
    then show ?thesis using item_done_mono[OF _ step(2)] Suc by simp
  qed
  then show ?case using IH step extends_trans[OF step(2)] by (auto simp: same_link_def)
qed (simp add: same_link_def)

definition unit_done :: "alloc \<Rightarrow> taddr \<Rightarrow> parameter list \<Rightarrow> item list \<Rightarrow> scopes \<Rightarrow> bool" where
  "unit_done al u ps is S \<longleftrightarrow>
     sc_parent (scope_at S (TypeScope u)) = Some ModuleScope \<and> sc_id (scope_at S (TypeScope u)) = None \<and>
     values_of (scope_at S (TypeScope u)) = unit_names u ps \<and>
     (\<forall>j<length (flatten_items is). item_done al u (flatten_items is ! j) (scope_at S (ItemScope u j)))"

definition fresh_unit :: "scopes \<Rightarrow> taddr \<Rightarrow> bool" where
  "fresh_unit S u \<longleftrightarrow> scope_at S (TypeScope u) = Scope0 \<and> (\<forall>j. scope_at S (ItemScope u j) = Scope0)"

definition outside :: "taddr \<Rightarrow> scope_ref \<Rightarrow> bool" where
  "outside u r = (case r of ModuleScope \<Rightarrow> True | TypeScope t \<Rightarrow> t \<noteq> u | ItemScope t k \<Rightarrow> t \<noteq> u)"

lemma scope_unit_done:
  assumes run: "scope_unit u ps is s = Some s'" and fresh: "fresh_unit (ss_scopes s) u"
  shows "unit_done (ss_alloc s) u ps is (ss_scopes s') \<and> extends (ss_alloc s) (ss_alloc s') \<and>
     (\<forall>r. outside u r \<longrightarrow> scope_at (ss_scopes s') r = scope_at (ss_scopes s) r)"
proof -
  let ?S = "on_scope (TypeScope u) (set_parent (Some ModuleScope))
      (on_scope (TypeScope u) (scope_insert [''self''] (EParserState SELF None (Some u) (Some u)) False) (ss_scopes s))"
  obtain S2 where S2: "scope_parameters u ps ?S = Some S2" "scope_items u 0 (flatten_items is) (s\<lparr>ss_scopes := S2\<rparr>) = Some s'"
    using run by (auto simp: scope_unit_def bind_eq_Some_conv Let_def)
  note p = scope_parameters_values[OF S2(1)]
  have T: "values_of (scope_at S2 (TypeScope u)) = unit_names u ps" "sc_parent (scope_at S2 (TypeScope u)) = Some ModuleScope"
    "sc_id (scope_at S2 (TypeScope u)) = None"
    using p fresh[unfolded fresh_unit_def] by (auto simp: fun_eq_iff unit_names_def values_of_insert id_name_def same_link_def)
  have keep: "scope_at S2 r = scope_at (ss_scopes s) r" if "r \<noteq> TypeScope u" for r using p that by simp
  then have "\<forall>j\<ge>0. scope_at (ss_scopes (s\<lparr>ss_scopes := S2\<rparr>)) (ItemScope u j) = Scope0" using fresh[unfolded fresh_unit_def] by simp
  note i = scope_items_done[OF S2(2) this]
  show ?thesis
    using i T keep by (auto simp: unit_done_def same_link_def outside_def split: scope_ref.splits)
qed

definition decl_types :: "decl list \<Rightarrow> taddr list" where
  "decl_types ds = List.map_filter (\<lambda>d. case d of DType i l t \<Rightarrow> Some t | _ \<Rightarrow> None) ds"

lemma decl_types_simps [simp]:
  "decl_types [] = []" "decl_types (d # ds) = (case d of DType i l t \<Rightarrow> [t] | _ \<Rightarrow> []) @ decl_types ds"
  by (simp_all add: decl_types_def List.map_filter_def split: decl.splits)

lemma unit_done_mono: "unit_done al' u ps is S \<Longrightarrow> extends al al' \<Longrightarrow> unit_done al u ps is S"
  unfolding unit_done_def using item_done_mono by blast

definition unit_types :: "alloc \<Rightarrow> decl list \<Rightarrow> taddr list" where
  "unit_types al ds = filter (is_unit (al_types al)) (decl_types ds)"

lemma extends_is_unit: "extends al al' \<Longrightarrow> t < al_next al \<Longrightarrow> is_unit (al_types al') t = is_unit (al_types al) t"
  by (simp add: extends_def is_unit_def)

text \<open>Every declared unit is set up once, and nothing else changes.\<close>

lemma unit_scope_decl_step:
  assumes "unit_scope_decl d s = Some s1" and "\<forall>t\<in>set (unit_types (ss_alloc s) [d]). fresh_unit (ss_scopes s) t"
  shows "extends (ss_alloc s) (ss_alloc s1)"
    and "\<forall>r. (\<forall>t\<in>set (unit_types (ss_alloc s) [d]). outside t r) \<longrightarrow> scope_at (ss_scopes s1) r = scope_at (ss_scopes s) r"
    and "\<forall>u\<in>set (decl_types [d]). \<forall>ob ps is. al_types (ss_alloc s) u = Some ob \<longrightarrow> ty_kind ob = TUnit ps is \<longrightarrow>
       unit_done (ss_alloc s) u ps is (ss_scopes s1)"
proof -
  have "extends (ss_alloc s) (ss_alloc s1) \<and>
    (\<forall>r. (\<forall>t\<in>set (unit_types (ss_alloc s) [d]). outside t r) \<longrightarrow> scope_at (ss_scopes s1) r = scope_at (ss_scopes s) r) \<and>
    (\<forall>u\<in>set (decl_types [d]). \<forall>ob ps is. al_types (ss_alloc s) u = Some ob \<longrightarrow> ty_kind ob = TUnit ps is \<longrightarrow>
       unit_done (ss_alloc s) u ps is (ss_scopes s1))"
  proof (cases d)
    case (DType i l t)
    then obtain ob where ob: "al_types (ss_alloc s) t = Some ob" using assms(1) by (auto simp: unit_scope_decl_def bind_eq_Some_conv)
    show ?thesis
    proof (cases "is_unit (al_types (ss_alloc s)) t")
      case True
      then obtain ps "is" where k: "ty_kind ob = TUnit ps is" using ob by (auto simp: is_unit_def split: type_kind.splits)
      then have "scope_unit t ps is s = Some s1" using assms(1) DType ob by (simp add: unit_scope_decl_def)
      from scope_unit_done[OF this] show ?thesis using assms(2) True DType ob k by (simp add: unit_types_def)
    next
      case False
      then have "s1 = s" using assms(1) DType ob by (auto simp: unit_scope_decl_def is_unit_def split: type_kind.splits)
      then show ?thesis using False DType ob by (auto simp: is_unit_def)
    qed
  qed (use assms(1) in \<open>auto simp: unit_scope_decl_def\<close>)
  then show "extends (ss_alloc s) (ss_alloc s1)"
    "\<forall>r. (\<forall>t\<in>set (unit_types (ss_alloc s) [d]). outside t r) \<longrightarrow> scope_at (ss_scopes s1) r = scope_at (ss_scopes s) r"
    "\<forall>u\<in>set (decl_types [d]). \<forall>ob ps is. al_types (ss_alloc s) u = Some ob \<longrightarrow> ty_kind ob = TUnit ps is \<longrightarrow>
       unit_done (ss_alloc s) u ps is (ss_scopes s1)"
    by blast+
qed

lemma outside_simps [simp]: "outside t ModuleScope" "outside t (TypeScope u) \<longleftrightarrow> u \<noteq> t" "outside t (ItemScope u k) \<longleftrightarrow> u \<noteq> t"
  by (simp_all add: outside_def)

lemma outside_keep:
  assumes "\<forall>r. (\<forall>t\<in>V. outside t r) \<longrightarrow> scope_at S' r = scope_at S r" and "u \<notin> V"
  shows "scope_at S' (TypeScope u) = scope_at S (TypeScope u)" "scope_at S' (ItemScope u j) = scope_at S (ItemScope u j)"
proof -
  have "\<forall>t\<in>V. outside t (TypeScope u)" "\<forall>t\<in>V. outside t (ItemScope u j)" using assms(2) by auto
  then show "scope_at S' (TypeScope u) = scope_at S (TypeScope u)" "scope_at S' (ItemScope u j) = scope_at S (ItemScope u j)"
    using assms(1) by blast+
qed

definition units_done :: "alloc \<Rightarrow> taddr set \<Rightarrow> scopes \<Rightarrow> bool" where
  "units_done al U S \<longleftrightarrow>
     (\<forall>u\<in>U. \<forall>ob ps is. al_types al u = Some ob \<longrightarrow> ty_kind ob = TUnit ps is \<longrightarrow> unit_done al u ps is S)"

lemma units_doneD: "units_done al U S \<Longrightarrow> u \<in> U \<Longrightarrow> al_types al u = Some ob \<Longrightarrow> ty_kind ob = TUnit ps is \<Longrightarrow> unit_done al u ps is S"
  by (simp add: units_done_def)

lemma units_done_step:
  assumes "units_done al' U S" and "extends al al'" and "\<forall>t\<in>U. t < al_next al"
  shows "units_done al U S"
  using assms unit_done_mono[OF _ assms(2)] unfolding units_done_def extends_def by fastforce

lemma units_done_keep:
  assumes "units_done al U S" and "\<forall>r. (\<forall>t\<in>V. outside t r) \<longrightarrow> scope_at S' r = scope_at S r" and "U \<inter> V = {}"
  shows "units_done al U S'"
proof -
  have "u \<notin> V" if "u \<in> U" for u using assms(3) that by blast
  note outside_keep[OF assms(2) this]
  then show ?thesis using assms(1) by (simp add: units_done_def unit_done_def)
qed

lemma run_units_done:
  "run_unit_scope_builder ds s = Some s' \<Longrightarrow> distinct (decl_types ds) \<Longrightarrow> \<forall>t\<in>set (decl_types ds). t < al_next (ss_alloc s) \<Longrightarrow>
   \<forall>t\<in>set (unit_types (ss_alloc s) ds). fresh_unit (ss_scopes s) t \<Longrightarrow>
     units_done (ss_alloc s) (set (decl_types ds)) (ss_scopes s') \<and>
     (\<forall>r. (\<forall>t\<in>set (decl_types ds). outside t r) \<longrightarrow> scope_at (ss_scopes s') r = scope_at (ss_scopes s) r)"
proof (induction ds s rule: run_unit_scope_builder.induct)
  case (2 d ds s)
  obtain s1 where s1: "unit_scope_decl d s = Some s1" "run_unit_scope_builder ds s1 = Some s'"
    using 2(2) by (auto simp: bind_eq_Some_conv)
  have split: "set (decl_types (d # ds)) = set (decl_types [d]) \<union> set (decl_types ds)" "set (decl_types [d]) \<inter> set (decl_types ds) = {}"
    using 2(3) by (auto split: decl.splits)
  have "\<forall>t\<in>set (unit_types (ss_alloc s) [d]). fresh_unit (ss_scopes s) t" using 2(5) split(1) by (auto simp: unit_types_def)
  note step = unit_scope_decl_step[OF s1(1) this]
  have keep: "\<forall>r. (\<forall>t\<in>set (decl_types [d]). outside t r) \<longrightarrow> scope_at (ss_scopes s1) r = scope_at (ss_scopes s) r"
    using step(2) by (simp add: unit_types_def)
  have bound: "\<forall>t\<in>set (decl_types ds). t < al_next (ss_alloc s)" "al_next (ss_alloc s) \<le> al_next (ss_alloc s1)"
    using 2(4) split(1) step(1) by (auto simp: extends_def)
  then have lt: "\<forall>t\<in>set (decl_types ds). t < al_next (ss_alloc s1)" by auto
  have fresh: "fresh_unit (ss_scopes s1) t" if t: "t \<in> set (unit_types (ss_alloc s1) ds)" for t
  proof -
    have "t \<in> set (decl_types ds)" "is_unit (al_types (ss_alloc s)) t"
      using t bound(1) extends_is_unit[OF step(1)] by (auto simp: unit_types_def)
    then have "fresh_unit (ss_scopes s) t" "t \<notin> set (decl_types [d])" using 2(5) split by (auto simp: unit_types_def)
    then show ?thesis using outside_keep[OF keep] by (simp add: fresh_unit_def)
  qed
  have dist: "distinct (decl_types ds)" using 2(3) by simp
  have IH: "units_done (ss_alloc s1) (set (decl_types ds)) (ss_scopes s')"
    "\<forall>r. (\<forall>t\<in>set (decl_types ds). outside t r) \<longrightarrow> scope_at (ss_scopes s') r = scope_at (ss_scopes s1) r"
    using 2(1)[OF s1 dist lt] fresh by blast+
  have "units_done (ss_alloc s) (set (decl_types [d])) (ss_scopes s1)" using step(3) by (simp add: units_done_def)
  from units_done_keep[OF this IH(2) split(2)] units_done_step[OF IH(1) step(1) bound(1)]
  have "units_done (ss_alloc s) (set (decl_types (d # ds))) (ss_scopes s')" unfolding units_done_def split(1) by blast
  moreover have "scope_at (ss_scopes s') r = scope_at (ss_scopes s) r" if "\<forall>t\<in>set (decl_types (d # ds)). outside t r" for r
    using that IH(2) keep unfolding split(1) by simp
  ultimately show ?case by blast
qed (simp add: units_done_def)

section \<open>The passes before the unit scopes\<close>

definition same_kinds :: "alloc \<Rightarrow> alloc \<Rightarrow> bool" where
  "same_kinds al al' \<longleftrightarrow> al_next al' = al_next al \<and>
     (\<forall>t. map_option ty_kind (al_types al' t) = map_option ty_kind (al_types al t))"

lemma same_kinds_trans: "same_kinds a b \<Longrightarrow> same_kinds b c \<Longrightarrow> same_kinds a c"
  by (simp add: same_kinds_def)

lemma same_kinds_unit:
  assumes "same_kinds al al'"
  shows "is_unit (al_types al') t = is_unit (al_types al) t"
proof -
  have "map_option ty_kind (al_types al' t) = map_option ty_kind (al_types al t)" using assms by (simp add: same_kinds_def)
  then show ?thesis by (cases "al_types al t"; cases "al_types al' t") (simp_all add: is_unit_def)
qed

lemma same_kinds_regexp:
  assumes "same_kinds al al'"
  shows "is_regexp (al_types al') (Some a) = is_regexp (al_types al) (Some a)"
proof -
  have "map_option ty_kind (al_types al' a) = map_option ty_kind (al_types al a)" using assms by (simp add: same_kinds_def)
  then show ?thesis by (cases "al_types al a"; cases "al_types al' a") (simp_all add: is_regexp_def)
qed

definition unit_scopes_kept :: "alloc \<Rightarrow> scopes \<Rightarrow> scopes \<Rightarrow> bool" where
  "unit_scopes_kept al S S' \<longleftrightarrow>
     (\<forall>u. is_unit (al_types al) u \<longrightarrow> scope_at S' (TypeScope u) = scope_at S (TypeScope u)) \<and>
     (\<forall>u j. scope_at S' (ItemScope u j) = scope_at S (ItemScope u j))"

lemma scope_decl_keep:
  assumes "scope_decl mname d s = Some s'"
  shows "same_kinds (ss_alloc s) (ss_alloc s') \<and> unit_scopes_kept (ss_alloc s) (ss_scopes s) (ss_scopes s')"
proof (cases d)
  case (DType i l t)
  obtain ob where ob: "al_types (ss_alloc s) t = Some ob" using assms DType by (auto simp: scope_decl_def scope_type_decl_def bind_eq_Some_conv)
  then have "same_kinds (ss_alloc s) (ss_alloc s')"
    using assms DType by (auto simp: scope_decl_def scope_type_decl_def Let_def same_kinds_def set_type_id_def)
  moreover have "unit_scopes_kept (ss_alloc s) (ss_scopes s) (ss_scopes s')"
    using assms DType ob
    by (cases "ty_kind ob")
      (auto simp: scope_decl_def scope_type_decl_def Let_def unit_scopes_kept_def module_insert_def link_type_scope_def make_typeScope_def
        is_unit_def scope_at_def on_scope_def)
  ultimately show ?thesis by simp
qed (use assms in \<open>auto simp: scope_decl_def same_kinds_def unit_scopes_kept_def module_insert_def\<close>)

lemma scope_decls_keep:
  "scope_decls mname ds s = Some s' \<Longrightarrow> same_kinds (ss_alloc s) (ss_alloc s') \<and> unit_scopes_kept (ss_alloc s) (ss_scopes s) (ss_scopes s')"
proof (induction mname ds s rule: scope_decls.induct)
  case (2 mname d ds s)
  obtain s1 where s1: "scope_decl mname d s = Some s1" "scope_decls mname ds s1 = Some s'"
    using 2(2) by (auto simp: bind_eq_Some_conv)
  note step = scope_decl_keep[OF s1(1)] and IH = 2(1)[OF s1]
  show ?case using step IH same_kinds_trans same_kinds_unit[of "ss_alloc s" "ss_alloc s1"] by (auto simp: unit_scopes_kept_def)
qed (simp add: same_kinds_def unit_scopes_kept_def)

definition named_parameters :: "alloc \<Rightarrow> taddr \<Rightarrow> bool" where
  "named_parameters al t =
     (case al_types al t of None \<Rightarrow> False
      | Some ob \<Rightarrow> (case ty_kind ob of TUnit ps is \<Rightarrow> (\<forall>p\<in>set ps. par_id p \<noteq> None) | _ \<Rightarrow> True))"

definition builtin_names :: "string list" where
  "builtin_names = [''ByteOrder'', ''uppercase'', ''stringEncodedUint64'', ''hexStringEncodedUint64'', ''stringEncodedUint32'']"

lemma addBuiltins_decls:
  assumes "addBuiltins (m, al) = Some (m1, al1)"
  shows "extends al al1" "\<exists>bs. mo_decls m1 = mo_decls m @ bs \<and> decl_types bs = [al_next al] \<and>
     (\<forall>x. length (declared bs x) = (if x \<in> set builtin_names then 1 else 0))" "al_next al < al_next al1"
    "named_parameters al1 (al_next al)"
proof -
  obtain bo where bo: "Enum [([''big''], 0), ([''little''], 1)] = Some bo" and
    m1: "(m1, al1) = builtin_transform ''stringEncodedUint32'' 32 (builtin_transform ''hexStringEncodedUint64'' 64
      (builtin_transform ''stringEncodedUint64'' 64
        (addDeclaration (al_types (snd (new_type \<lparr>ty_kind = TFunction None [], ty_id = None, ty_wildcard = True\<rparr> (snd (new_type bo al)))))
           (DFunction IMPORTED \<lparr>fn_id = [''uppercase''], fn_type = al_next al + 1, fn_body = []\<rparr>)
           (addDeclaration (al_types (snd (new_type bo al))) (DType [''ByteOrder''] IMPORTED (al_next al)) m),
         snd (new_type \<lparr>ty_kind = TFunction None [], ty_id = None, ty_wildcard = True\<rparr> (snd (new_type bo al))))))"
    using assms by (auto simp: addBuiltins_def bind_eq_Some_conv new_type_def Let_def)
  have dec: "mo_decls (addDeclaration ts d m) = mo_decls m @ [d]" for ts d m
    by (simp add: addDeclaration_def Let_def split: decl.splits)
  show "extends al al1" "al_next al < al_next al1" "named_parameters al1 (al_next al)"
    using m1 bo by (auto simp: builtin_transform_def new_type_def Let_def extends_def Enum_def named_parameters_def)
  show "\<exists>bs. mo_decls m1 = mo_decls m @ bs \<and> decl_types bs = [al_next al] \<and>
     (\<forall>x. length (declared bs x) = (if x \<in> set builtin_names then 1 else 0))"
    using m1 by (auto simp: builtin_transform_def new_type_def Let_def dec builtin_names_def)
qed

section \<open>The scope passes succeed\<close>

lemma scope_decls_total:
  "\<forall>t\<in>set (decl_types ds). al_types (ss_alloc s) t \<noteq> None \<Longrightarrow> \<exists>s'. scope_decls mname ds s = Some s'"
proof (induction mname ds s rule: scope_decls.induct)
  case (2 mname d ds s)
  have "\<exists>s1. scope_decl mname d s = Some s1"
    using 2(2) by (cases d) (auto simp: scope_decl_def scope_type_decl_def Let_def)
  then obtain s1 where s1: "scope_decl mname d s = Some s1" by blast
  have "al_types (ss_alloc s1) t = None \<longleftrightarrow> al_types (ss_alloc s) t = None" for t
    using scope_decl_keep[OF s1] unfolding same_kinds_def by (metis option.map_disc_iff)
  then show ?case using 2(1)[OF s1] 2(2) s1 by simp
qed simp

lemma ID_total: "\<exists>i. ID path = Some i"
  using strsplit_loop_total[of "''::''" path "[]"] by (auto simp: ID_def strsplit_def)

lemma scope_items_total: "\<exists>s'. scope_items u k is s = Some s'"
proof (induction "is" arbitrary: k s)
  case (Cons i "is")
  have "\<exists>s1. scope_item u k i s = Some s1"
    using ID_total[of "''__item_'' @ id_name (item_id i)"] by (auto simp: scope_item_def Let_def split: prod.splits)
  then show ?case using Cons by (auto simp: bind_eq_Some_conv)
qed simp

lemma scope_parameters_total: "\<forall>p\<in>set ps. par_id p \<noteq> None \<Longrightarrow> \<exists>S'. scope_parameters u ps S = Some S'"
  by (induction ps arbitrary: S) auto

lemma unit_scope_decl_total:
  "\<forall>t\<in>set (decl_types [d]). named_parameters (ss_alloc s) t \<Longrightarrow> \<exists>s1. unit_scope_decl d s = Some s1"
proof (cases d)
  case (DType i l t)
  assume "\<forall>t\<in>set (decl_types [d]). named_parameters (ss_alloc s) t"
  then obtain ob where ob: "al_types (ss_alloc s) t = Some ob" "\<And>ps is. ty_kind ob = TUnit ps is \<Longrightarrow> \<forall>p\<in>set ps. par_id p \<noteq> None"
    using DType by (cases "al_types (ss_alloc s) t") (force simp: named_parameters_def)+
  have "\<exists>s1. scope_unit t ps is s = Some s1" if "ty_kind ob = TUnit ps is" for ps "is"
    using scope_parameters_total[OF ob(2)[OF that]] scope_items_total by (simp add: scope_unit_def bind_eq_Some_conv) blast
  then show ?thesis using DType ob(1) by (cases "ty_kind ob") (simp_all add: unit_scope_decl_def)
qed (simp_all add: unit_scope_decl_def)

lemma run_units_total:
  "\<forall>t\<in>set (decl_types ds). t < al_next (ss_alloc s) \<and> named_parameters (ss_alloc s) t \<Longrightarrow> distinct (decl_types ds) \<Longrightarrow>
   \<forall>t\<in>set (unit_types (ss_alloc s) ds). fresh_unit (ss_scopes s) t \<Longrightarrow> \<exists>s'. run_unit_scope_builder ds s = Some s'"
proof (induction ds s rule: run_unit_scope_builder.induct)
  case (2 d ds s)
  obtain s1 where s1: "unit_scope_decl d s = Some s1" using unit_scope_decl_total[of d s] 2(2) by auto
  have fresh: "\<forall>t\<in>set (unit_types (ss_alloc s) [d]). fresh_unit (ss_scopes s) t" using 2(4) by (auto simp: unit_types_def)
  note step = unit_scope_decl_step[OF s1 fresh]
  have keep: "\<forall>r. (\<forall>t\<in>set (decl_types [d]). outside t r) \<longrightarrow> scope_at (ss_scopes s1) r = scope_at (ss_scopes s) r"
    using step(2) by (simp add: unit_types_def)
  have al: "t < al_next (ss_alloc s1) \<and> al_types (ss_alloc s1) t = al_types (ss_alloc s) t" if "t \<in> set (decl_types ds)" for t
  proof -
    have "t < al_next (ss_alloc s)" using 2(2) that by simp
    then show ?thesis using step(1) by (auto simp: extends_def)
  qed
  have "\<forall>t\<in>set (decl_types ds). t < al_next (ss_alloc s1) \<and> named_parameters (ss_alloc s1) t"
    using al 2(2) by (simp add: named_parameters_def)
  moreover have "fresh_unit (ss_scopes s1) t" if t: "t \<in> set (unit_types (ss_alloc s1) ds)" for t
  proof -
    have "t \<in> set (unit_types (ss_alloc s) ds)" using t al by (auto simp: unit_types_def is_unit_def)
    then have "fresh_unit (ss_scopes s) t" "t \<notin> set (decl_types [d])" using 2(3,4) by (auto simp: unit_types_def)
    then show ?thesis using outside_keep[OF keep] by (simp add: fresh_unit_def)
  qed
  ultimately show ?case using 2(1)[OF s1] 2(3) s1 by simp
qed simp

section \<open>The names an item sees\<close>

text \<open>The values of the innermost of the scopes that knows the name.\<close>

fun innermost :: "expr list list \<Rightarrow> expr list" where
  "innermost [] = []"
| "innermost (vs # vss) = (if vs \<noteq> [] then vs else innermost vss)"

lemma scope_passes:
  assumes run: "run_scope_builder m s = Some (m1, s1)" and empty: "ss_scopes s = Map.empty"
    and dist: "distinct (decl_types (mo_decls m))" and below: "\<forall>t\<in>set (decl_types (mo_decls m)). t < al_next (ss_alloc s)"
  obtains al where "extends (ss_alloc s) al" "same_kinds al (ss_alloc s1)" "unit_scopes_kept al Map.empty (ss_scopes s1)"
    "distinct (decl_types (mo_decls m1))" "\<forall>t\<in>set (decl_types (mo_decls m1)). t < al_next al"
    "set (decl_types (mo_decls m)) \<subseteq> set (decl_types (mo_decls m1))"
    "values_of (scope_at (ss_scopes s1) ModuleScope) = declared (mo_decls m1)"
    "sc_parent (scope_at (ss_scopes s1) ModuleScope) = None" "sc_id (scope_at (ss_scopes s1) ModuleScope) = None"
proof -
  obtain al where al: "addBuiltins (m, ss_alloc s) = Some (m1, al)"
    "scope_decls (id_name (mo_id m1)) (mo_decls m1) (s\<lparr>ss_alloc := al\<rparr>) = Some s1"
    using run by (auto simp: run_scope_builder_def bind_eq_Some_conv)
  note b = addBuiltins_decls[OF al(1)]
  obtain bs where bs: "mo_decls m1 = mo_decls m @ bs" "decl_types bs = [al_next (ss_alloc s)]" using b(2) by blast
  have app: "decl_types (mo_decls m1) = decl_types (mo_decls m) @ [al_next (ss_alloc s)]"
    using bs by (simp add: decl_types_def List.map_filter_def)
  have S0: "scope_at Map.empty ModuleScope = Scope0" by (simp add: scope_at_def)
  have vals: "values_of (scope_at (ss_scopes s1) ModuleScope) = declared (mo_decls m1)"
    using scope_decls_module[OF al(2)] empty S0 by (simp add: fun_eq_iff)
  have link: "sc_parent (scope_at (ss_scopes s1) ModuleScope) = None" "sc_id (scope_at (ss_scopes s1) ModuleScope) = None"
    using scope_decls_module[OF al(2)] empty S0 by (simp_all add: same_link_def)
  have keep: "same_kinds al (ss_alloc s1)" "unit_scopes_kept al Map.empty (ss_scopes s1)"
    using scope_decls_keep[OF al(2)] empty by simp_all
  have lt: "\<forall>t\<in>set (decl_types (mo_decls m1)). t < al_next al" using app below b(3) by auto
  have "distinct (decl_types (mo_decls m1))" using app dist below by auto
  then show thesis using that[OF b(1) keep _ lt _ vals link] app by auto
qed

lemma visit_ID_single:
  "nearest_scope cs = r \<Longrightarrow> visit_ID S mid cs [x] = map_option pick (scope_lookup S r [x] True)"
  by (cases "scope_lookup S r [x] True") (auto simp: visit_ID_def isScoped_def)

lemma unit_done_lookup:
  assumes "unit_done al u ps is S" and "k < length (flatten_items is)"
    and "sc_id (scope_at S ModuleScope) = None" "sc_parent (scope_at S ModuleScope) = None"
  shows "\<exists>dd. (\<forall>a. it_type (base_of (flatten_items is ! k)) = Some a \<longrightarrow> a < al_next al \<longrightarrow> \<not> is_regexp (al_types al) (Some a) \<longrightarrow> dd = Some a) \<and>
    (\<forall>x. scope_lookup S (ItemScope u k) [x] True =
       Some (innermost [item_names u dd x, unit_names u ps x, values_of (scope_at S ModuleScope) x]))"
proof -
  have "item_done al u (flatten_items is ! k) (scope_at S (ItemScope u k))" using assms(1,2) by (simp add: unit_done_def)
  then obtain dd where dd: "values_of (scope_at S (ItemScope u k)) = item_names u dd"
    "\<forall>a. it_type (base_of (flatten_items is ! k)) = Some a \<longrightarrow> a < al_next al \<longrightarrow> \<not> is_regexp (al_types al) (Some a) \<longrightarrow> dd = Some a"
    and link: "sc_parent (scope_at S (ItemScope u k)) = Some (TypeScope u)" "sc_id (scope_at S (ItemScope u k)) = None"
    unfolding item_done_def by blast
  have unit: "sc_parent (scope_at S (TypeScope u)) = Some ModuleScope" "sc_id (scope_at S (TypeScope u)) = None"
    "values_of (scope_at S (TypeScope u)) = unit_names u ps" using assms(1) by (auto simp: unit_done_def)
  have "scope_lookup S (ItemScope u k) [x] True = Some (innermost [item_names u dd x, unit_names u ps x, values_of (scope_at S ModuleScope) x])" for x
    using link unit assms(3,4) dd(1) by (simp add: scope_lookup_single)
  then show ?thesis using dd(2) by blast
qed

lemma same_kinds_named:
  assumes "same_kinds al al'"
  shows "named_parameters al' t = named_parameters al t"
proof -
  have "map_option ty_kind (al_types al' t) = map_option ty_kind (al_types al t)" using assms by (simp add: same_kinds_def)
  then show ?thesis by (cases "al_types al t"; cases "al_types al' t") (simp_all add: named_parameters_def)
qed

lemma names_seen:
  assumes start: "ss_scopes s = Map.empty" "distinct (decl_types (mo_decls m))" "\<forall>t\<in>set (decl_types (mo_decls m)). t < al_next (ss_alloc s)"
    and run: "run_scope_builder m s = Some (m1, s1)" "run_unit_scope_builder (mo_decls m1) s1 = Some s2"
    and u: "u \<in> set (decl_types (mo_decls m))" "al_types (ss_alloc s) u = Some ob" "ty_kind ob = TUnit ps is" "k < length (flatten_items is)"
  shows "\<exists>dd. (\<forall>a. it_type (base_of (flatten_items is ! k)) = Some a \<longrightarrow> a < al_next (ss_alloc s) \<longrightarrow>
                \<not> is_regexp (al_types (ss_alloc s)) (Some a) \<longrightarrow> dd = Some a) \<and>
    (\<forall>x mid cs. nearest_scope cs = ItemScope u k \<longrightarrow>
       visit_ID (ss_scopes s2) mid cs [x] =
         Some (pick (innermost [item_names u dd x, unit_names u ps x, declared (mo_decls m1) x])))"
proof -
  obtain al where al: "extends (ss_alloc s) al" "same_kinds al (ss_alloc s1)" "unit_scopes_kept al Map.empty (ss_scopes s1)"
    and decls: "distinct (decl_types (mo_decls m1))" "\<forall>t\<in>set (decl_types (mo_decls m1)). t < al_next al"
      "set (decl_types (mo_decls m)) \<subseteq> set (decl_types (mo_decls m1))"
    and module: "values_of (scope_at (ss_scopes s1) ModuleScope) = declared (mo_decls m1)"
      "sc_parent (scope_at (ss_scopes s1) ModuleScope) = None" "sc_id (scope_at (ss_scopes s1) ModuleScope) = None"
    by (rule scope_passes[OF run(1) start])
  have fresh: "\<forall>t\<in>set (unit_types (ss_alloc s1) (mo_decls m1)). fresh_unit (ss_scopes s1) t"
    using al(3) same_kinds_unit[OF al(2)] by (simp add: unit_types_def fresh_unit_def unit_scopes_kept_def scope_at_def)
  have nx: "al_next (ss_alloc s1) = al_next al" "al_next (ss_alloc s) \<le> al_next al" using al(1,2) by (auto simp: same_kinds_def extends_def)
  have "\<forall>t\<in>set (decl_types (mo_decls m1)). t < al_next (ss_alloc s1)" using decls(2) nx by simp
  note built = run_units_done[OF run(2) decls(1) this fresh]
  have "u < al_next (ss_alloc s)" using u(1) start(3) by blast
  then have "al_types al u = Some ob" using al(1) u(2) by (simp add: extends_def)
  then have "map_option ty_kind (al_types (ss_alloc s1) u) = Some (TUnit ps is)" using al(2) u(3) by (simp add: same_kinds_def)
  then obtain ob1 where ob1: "al_types (ss_alloc s1) u = Some ob1" "ty_kind ob1 = TUnit ps is" by auto
  have ud: "unit_done (ss_alloc s1) u ps is (ss_scopes s2)" using units_doneD[OF conjunct1[OF built] _ ob1] u(1) decls(3) by blast
  have same: "scope_at (ss_scopes s2) ModuleScope = scope_at (ss_scopes s1) ModuleScope" using built by simp
  obtain dd where dd: "\<forall>a. it_type (base_of (flatten_items is ! k)) = Some a \<longrightarrow> a < al_next (ss_alloc s1) \<longrightarrow>
      \<not> is_regexp (al_types (ss_alloc s1)) (Some a) \<longrightarrow> dd = Some a"
    "\<forall>x. scope_lookup (ss_scopes s2) (ItemScope u k) [x] True =
       Some (innermost [item_names u dd x, unit_names u ps x, declared (mo_decls m1) x])"
    using unit_done_lookup[OF ud u(4)] module same by auto
  have "is_regexp (al_types (ss_alloc s1)) (Some a) = is_regexp (al_types (ss_alloc s)) (Some a)" "a < al_next (ss_alloc s1)"
    if "a < al_next (ss_alloc s)" for a
    using that same_kinds_regexp[OF al(2)] al(1) nx by (auto simp: extends_def is_regexp_def)
  then show ?thesis using dd visit_ID_single by (intro exI[of _ dd]) simp
qed

lemma named_parameters_typed: "named_parameters al t \<Longrightarrow> al_types al t \<noteq> None"
  by (cases "al_types al t") (simp_all add: named_parameters_def)

lemma scope_passes_total:
  assumes start: "ss_scopes s = Map.empty" "distinct (decl_types (mo_decls m))"
    "\<forall>t\<in>set (decl_types (mo_decls m)). t < al_next (ss_alloc s) \<and> named_parameters (ss_alloc s) t"
  shows "\<exists>m1 s1 s2 bs. run_scope_builder m s = Some (m1, s1) \<and> run_unit_scope_builder (mo_decls m1) s1 = Some s2 \<and>
     mo_decls m1 = mo_decls m @ bs \<and> (\<forall>x. length (declared bs x) = (if x \<in> set builtin_names then 1 else 0))"
proof -
  obtain m1 al where al: "addBuiltins (m, ss_alloc s) = Some (m1, al)"
    by (auto simp: addBuiltins_def Enum_def id_eq_string_def Let_def new_type_def builtin_transform_def)
  note b = addBuiltins_decls[OF al]
  obtain bs where bs: "mo_decls m1 = mo_decls m @ bs" "decl_types bs = [al_next (ss_alloc s)]"
    "\<forall>x. length (declared bs x) = (if x \<in> set builtin_names then 1 else 0)" using b(2) by blast
  have app: "decl_types (mo_decls m1) = decl_types (mo_decls m) @ [al_next (ss_alloc s)]"
    using bs by (simp add: decl_types_def List.map_filter_def)
  have named: "\<forall>t\<in>set (decl_types (mo_decls m1)). t < al_next al \<and> named_parameters al t"
    using app b(1,3,4) start(3) by (auto simp: extends_def named_parameters_def)
  then have "\<forall>t\<in>set (decl_types (mo_decls m1)). al_types (ss_alloc (s\<lparr>ss_alloc := al\<rparr>)) t \<noteq> None"
    using named_parameters_typed by simp
  then obtain s1 where s1: "scope_decls (id_name (mo_id m1)) (mo_decls m1) (s\<lparr>ss_alloc := al\<rparr>) = Some s1"
    using scope_decls_total by blast
  have keep: "same_kinds al (ss_alloc s1)" "unit_scopes_kept al Map.empty (ss_scopes s1)"
    using scope_decls_keep[OF s1] start(1) by simp_all
  have "\<exists>s2. run_unit_scope_builder (mo_decls m1) s1 = Some s2"
  proof (rule run_units_total)
    show "\<forall>t\<in>set (decl_types (mo_decls m1)). t < al_next (ss_alloc s1) \<and> named_parameters (ss_alloc s1) t"
      using named same_kinds_named[OF keep(1)] keep(1) by (simp add: same_kinds_def)
    show "distinct (decl_types (mo_decls m1))" using app start(2,3) by auto
    show "\<forall>t\<in>set (unit_types (ss_alloc s1) (mo_decls m1)). fresh_unit (ss_scopes s1) t"
      using keep(2) same_kinds_unit[OF keep(1)] by (simp add: unit_types_def fresh_unit_def unit_scopes_kept_def scope_at_def)
  qed
  then show ?thesis using al s1 bs by (auto simp: run_scope_builder_def)
qed

definition sample_scope_module :: module_node where
  "sample_scope_module = \<lparr>mo_id = [''Sample''], mo_properties = [], mo_decls = [DType [''Message''] EXPORTED 3], mo_units = [3]\<rparr>"

definition sample_scope_state :: scope_state where
  "sample_scope_state = \<lparr>ss_alloc = \<lparr>al_types = sample_types, al_next = 6, al_anon = 0\<rparr>, ss_scopes = Map.empty, ss_type_scope = Map.empty\<rparr>"

lemma module_scope_lookup:
  assumes run: "run_scope_builder m s = Some (m1, s1)" and empty: "ss_scopes s = Map.empty"
  shows "scope_lookup (ss_scopes s1) ModuleScope [x] True = Some (declared (mo_decls m1) x)"
proof -
  obtain al where al: "addBuiltins (m, ss_alloc s) = Some (m1, al)"
    "scope_decls (id_name (mo_id m1)) (mo_decls m1) (s\<lparr>ss_alloc := al\<rparr>) = Some s1"
    using run by (auto simp: run_scope_builder_def bind_eq_Some_conv)
  have S0: "scope_at Map.empty ModuleScope = Scope0" by (simp add: scope_at_def)
  show ?thesis using scope_decls_module[OF al(2), of x] empty S0 by (simp add: scope_lookup_single same_link_def)
qed

section \<open>Properties\<close>

text \<open>C5: the names that an expression of an item sees.  On a module that declares distinct types, whose unit parameters have names, the two scope
  passes succeed.  Afterwards an unscoped name in an item of a declared unit is looked up as \<^verbatim>\<open>$$\<close>, which has the item's type unless
  that is a regular expression, then as \<^verbatim>\<open>self\<close> or a parameter of the unit, then among the declarations of the module, to which
  one declaration of each built-in name is added.  It is replaced by the value found in the innermost of
  these scopes that knows it, if that is the only value there.\<close>

theorem item_names_resolve:
  assumes start: "ss_scopes s = Map.empty" "distinct (decl_types (mo_decls m))"
    "\<forall>t\<in>set (decl_types (mo_decls m)). t < al_next (ss_alloc s) \<and> named_parameters (ss_alloc s) t"
    and u: "u \<in> set (decl_types (mo_decls m))" "al_types (ss_alloc s) u = Some ob" "ty_kind ob = TUnit ps is" "k < length (flatten_items is)"
  shows "\<exists>m1 s1 s2 bs dd. run_scope_builder m s = Some (m1, s1) \<and> run_unit_scope_builder (mo_decls m1) s1 = Some s2 \<and>
    mo_decls m1 = mo_decls m @ bs \<and> (\<forall>x. length (declared bs x) = (if x \<in> set builtin_names then 1 else 0)) \<and>
    (\<forall>a. it_type (base_of (flatten_items is ! k)) = Some a \<longrightarrow> a < al_next (ss_alloc s) \<longrightarrow>
       \<not> is_regexp (al_types (ss_alloc s)) (Some a) \<longrightarrow> dd = Some a) \<and>
    (\<forall>x mid cs. nearest_scope cs = ItemScope u k \<longrightarrow> visit_ID (ss_scopes s2) mid cs [x] =
       Some (pick (innermost [item_names u dd x, unit_names u ps x, declared (mo_decls m @ bs) x])))"
proof -
  obtain m1 s1 s2 bs where run: "run_scope_builder m s = Some (m1, s1)" "run_unit_scope_builder (mo_decls m1) s1 = Some s2"
    and bs: "mo_decls m1 = mo_decls m @ bs" "\<forall>x. length (declared bs x) = (if x \<in> set builtin_names then 1 else 0)"
    using scope_passes_total[OF start] by blast
  have "\<forall>t\<in>set (decl_types (mo_decls m)). t < al_next (ss_alloc s)" using start(3) by blast
  from names_seen[OF start(1,2) this run u] obtain dd where
    "\<forall>a. it_type (base_of (flatten_items is ! k)) = Some a \<longrightarrow> a < al_next (ss_alloc s) \<longrightarrow>
       \<not> is_regexp (al_types (ss_alloc s)) (Some a) \<longrightarrow> dd = Some a"
    "\<forall>x mid cs. nearest_scope cs = ItemScope u k \<longrightarrow> visit_ID (ss_scopes s2) mid cs [x] =
       Some (pick (innermost [item_names u dd x, unit_names u ps x, declared (mo_decls m @ bs) x]))"
    unfolding bs(1) by blast
  then show ?thesis
    using run bs by (intro exI[of _ m1] exI[of _ s1] exI[of _ s2] exI[of _ bs] exI[of _ dd]) simp
qed

theorem item_names_resolve_witness:
  "\<exists>m1 s1 s2. run_scope_builder sample_scope_module sample_scope_state = Some (m1, s1) \<and>
     run_unit_scope_builder (mo_decls m1) s1 = Some s2 \<and>
     (\<forall>mid. visit_ID (ss_scopes s2) mid [COther, CItem (ItemScope 3 2)] [''self''] = Some (Resolved (EParserState SELF None (Some 3) (Some 3))) \<and>
        visit_ID (ss_scopes s2) mid [CItem (ItemScope 3 2)] [''$$''] = Some (Resolved (EParserState DOLLARDOLLAR None (Some 3) (Some 2))) \<and>
        visit_ID (ss_scopes s2) mid [CItem (ItemScope 3 2)] [''Message''] = Some (Resolved (EType 3)))"
proof -
  let ?m = sample_scope_module and ?s = sample_scope_state
  have flat: "flatten_items message_items = message_items" by code_simp
  have "\<exists>m1 s1 s2 bs dd. run_scope_builder ?m ?s = Some (m1, s1) \<and> run_unit_scope_builder (mo_decls m1) s1 = Some s2 \<and>
    mo_decls m1 = mo_decls ?m @ bs \<and> (\<forall>x. length (declared bs x) = (if x \<in> set builtin_names then 1 else 0)) \<and>
    (\<forall>a. it_type (base_of (flatten_items message_items ! 2)) = Some a \<longrightarrow> a < al_next (ss_alloc ?s) \<longrightarrow>
       \<not> is_regexp (al_types (ss_alloc ?s)) (Some a) \<longrightarrow> dd = Some a) \<and>
    (\<forall>x mid cs. nearest_scope cs = ItemScope 3 2 \<longrightarrow> visit_ID (ss_scopes s2) mid cs [x] =
       Some (pick (innermost [item_names 3 dd x, unit_names 3 [] x, declared (mo_decls ?m @ bs) x])))"
    by (rule item_names_resolve[where ob = "plain_type (TUnit [] message_items) (Some [''Message''])"])
      (simp_all add: flat sample_scope_state_def sample_scope_module_def sample_defs named_parameters_def)
  then obtain m1 s1 s2 bs dd where run: "run_scope_builder ?m ?s = Some (m1, s1)" "run_unit_scope_builder (mo_decls m1) s1 = Some s2"
    and bs: "length (declared bs ''Message'') = (if ''Message'' \<in> set builtin_names then 1 else 0)"
    and type: "\<forall>a. it_type (base_of (flatten_items message_items ! 2)) = Some a \<longrightarrow> a < al_next (ss_alloc ?s) \<longrightarrow>
       \<not> is_regexp (al_types (ss_alloc ?s)) (Some a) \<longrightarrow> dd = Some a"
    and v: "\<forall>x mid cs. nearest_scope cs = ItemScope 3 2 \<longrightarrow> visit_ID (ss_scopes s2) mid cs [x] =
       Some (pick (innermost [item_names 3 dd x, unit_names 3 [] x, declared (mo_decls ?m @ bs) x]))"
    by blast
  have dd: "dd = Some 2" using type by (simp add: flat sample_scope_state_def sample_defs is_regexp_def)
  have "declared bs ''Message'' = []" using bs by (simp add: builtin_names_def)
  then show ?thesis
    using run v dd by (auto simp: item_names_def unit_names_def param_values_def pick_def sample_scope_module_def)
qed

text \<open>C12: a name that the module declares twice, or that it declares although it is the name of a built-in declaration, cannot be used: an
  identifier and a type of that name are ambiguous in the module's scope, which counts as an error of the resolver even
  while unresolved names are not yet reported.\<close>

theorem clashing_names_rejected:
  assumes run: "run_scope_builder m s = Some (m1, s1)" and empty: "ss_scopes s = Map.empty"
    and clash: "2 \<le> length (declared (mo_decls m) x) \<or> (declared (mo_decls m) x \<noteq> [] \<and> x \<in> set builtin_names)"
  shows "visit_ID (ss_scopes s1) mid [] [x] = Some Ambiguous \<and> find_type (ss_scopes s1) [x] = Some Ambiguous \<and>
    resolution_errors report (Ambiguous :: expr resolution) = 1 \<and> resolution_errors report (Ambiguous :: taddr resolution) = 1"
proof -
  obtain al where al: "addBuiltins (m, ss_alloc s) = Some (m1, al)"
    using run by (auto simp: run_scope_builder_def bind_eq_Some_conv)
  obtain bs where bs: "mo_decls m1 = mo_decls m @ bs" "\<forall>x. length (declared bs x) = (if x \<in> set builtin_names then 1 else 0)"
    using addBuiltins_decls[OF al] by blast
  have "length (declared (mo_decls m1) x) = length (declared (mo_decls m) x) + length (declared bs x)"
    by (simp add: bs(1) declared_def List.map_filter_def)
  then have "2 \<le> length (declared (mo_decls m1) x)" using clash bs(2) by (cases "declared (mo_decls m) x") auto
  then obtain v w vs where "declared (mo_decls m1) x = v # w # vs"
    by (cases "declared (mo_decls m1) x"; cases "tl (declared (mo_decls m1) x)") auto
  then show ?thesis
    using module_scope_lookup[OF run empty, of x] by (simp add: visit_ID_single find_type_def pick_def resolution_errors_def)
qed

theorem clashing_names_rejected_witness:
  "\<exists>m1 s1. run_scope_builder (sample_scope_module\<lparr>mo_decls := [DType [''ByteOrder''] EXPORTED 3]\<rparr>) sample_scope_state = Some (m1, s1) \<and>
     visit_ID (ss_scopes s1) [''Sample''] [] [''ByteOrder''] = Some Ambiguous \<and> find_type (ss_scopes s1) [''ByteOrder''] = Some Ambiguous"
proof -
  let ?m = "sample_scope_module\<lparr>mo_decls := [DType [''ByteOrder''] EXPORTED 3]\<rparr>" and ?s = sample_scope_state
  have "\<exists>m1 s1 s2 bs. run_scope_builder ?m ?s = Some (m1, s1) \<and> run_unit_scope_builder (mo_decls m1) s1 = Some s2 \<and>
     mo_decls m1 = mo_decls ?m @ bs \<and> (\<forall>x. length (declared bs x) = (if x \<in> set builtin_names then 1 else 0))"
    by (rule scope_passes_total) (simp_all add: sample_scope_state_def sample_defs named_parameters_def)
  then obtain m1 s1 where run: "run_scope_builder ?m ?s = Some (m1, s1)" by blast
  have "ss_scopes ?s = Map.empty" by (simp add: sample_scope_state_def)
  from clashing_names_rejected[OF run this, of "''ByteOrder''"] run show ?thesis by (simp add: builtin_names_def)
qed

end
