(* ===== verification/Transform_Wire.thy ===== *)
theory Transform_Wire
  imports Id_Resolver Clone_Length Samples
begin

text \<open>
  The transform resolver and the format on the wire: an item with a \<^verbatim>\<open>transform_to\<close> attribute gets a new type for the program, and
  its old type stays the type that is parsed and serialized.
\<close>















section \<open>Property\<close>



end
