(* ===== verification/Compiler_Run.thy ===== *)
theory Compiler_Run
  imports Code_Gen
begin

text \<open>
  The compiler (\<^verbatim>\<open>generation/compiler.cpp\<close>) and the driver of the generated parser (\<^verbatim>\<open>spec/parser/driver.cpp\<close>).

  Parameters: the contents of the files, the path operations of Boost, and the generated parser, which is a function from the text to the
  sequence of calls its actions make on the driver.  \<open>ts\<close> holds the types of all parsed modules.
  \<^const>\<open>None\<close> is a failed assertion or a dereferenced null pointer.  The stream is what \<^verbatim>\<open>std::fstream\<close> documents: opening an
  open stream fails and leaves it open, and a failed stream reads as empty.
\<close>

section \<open>File streams\<close>

record fstream =
  st_open :: "string option"
  st_fail :: bool

definition fs_closed :: fstream where
  "fs_closed = \<lparr>st_open = None, st_fail = False\<rparr>"

definition fs_open :: "(string \<rightharpoonup> string) \<Rightarrow> string \<Rightarrow> fstream \<Rightarrow> fstream" where
  "fs_open files name s =
     (if st_open s \<noteq> None then s\<lparr>st_fail := True\<rparr>
      else case files name of
             None \<Rightarrow> s\<lparr>st_fail := True\<rparr>
           | Some src \<Rightarrow> \<lparr>st_open = Some src, st_fail = False\<rparr>)"

text \<open>Reading the whole stream ends at the end of the file, which sets the failure flag.\<close>

definition fs_read :: "fstream \<Rightarrow> string \<times> fstream" where
  "fs_read s = (if st_fail s then [] else case st_open s of None \<Rightarrow> [] | Some src \<Rightarrow> src, s\<lparr>st_fail := True\<rparr>)"

definition fs_close :: "fstream \<Rightarrow> fstream" where
  "fs_close s = s\<lparr>st_open := None\<rparr>"

section \<open>The driver\<close>

record driver =
  dr_module :: "module_node option"
  dr_errors :: nat
  dr_includes :: "string list"

definition Driver :: driver where
  "Driver = \<lparr>dr_module = None, dr_errors = 0, dr_includes = []\<rparr>"

datatype driver_call = Set_module module_node | Add_property attribute | Add_declarations "decl list" | Include string | Error

fun on_call :: "type_store \<Rightarrow> driver_call \<Rightarrow> driver \<Rightarrow> driver option" where
  "on_call ts (Set_module m) d = Some (d\<lparr>dr_module := Some m\<rparr>)"
| "on_call ts (Add_property p) d = do { m \<leftarrow> dr_module d; Some (d\<lparr>dr_module := Some (addProperty p m)\<rparr>) }"
| "on_call ts (Add_declarations ds) d = do { m \<leftarrow> dr_module d; Some (d\<lparr>dr_module := Some (addDeclarations ts ds m)\<rparr>) }"
| "on_call ts (Include f) d = Some (d\<lparr>dr_includes := dr_includes d @ [f]\<rparr>)"
| "on_call ts Error d = Some (d\<lparr>dr_errors := dr_errors d + 1\<rparr>)"

fun driver_calls :: "type_store \<Rightarrow> driver_call list \<Rightarrow> driver \<Rightarrow> driver option" where
  "driver_calls ts [] d = Some d"
| "driver_calls ts (c # cs) d = do { d1 \<leftarrow> on_call ts c d; driver_calls ts cs d1 }"

definition driver_parse :: "type_store \<Rightarrow> (string \<Rightarrow> driver_call list) \<Rightarrow> string \<Rightarrow> driver \<Rightarrow> (module_node option \<times> driver) option" where
  "driver_parse ts parser src d =
     do { d1 \<leftarrow> driver_calls ts (parser src) d;
          (if dr_errors d1 > 0 then Some (None, d1\<lparr>dr_errors := 0\<rparr>)
           else do { m \<leftarrow> dr_module d1; Some (Some m, d1) }) }"

section \<open>Included files\<close>

text \<open>The result is the merged module, or \<^const>\<open>None\<close> if a file cannot be opened.  The stream is not closed between the files.\<close>

fun include_files ::
    "type_store \<Rightarrow> (string \<rightharpoonup> string) \<Rightarrow> (string \<Rightarrow> driver_call list) \<Rightarrow> (string \<Rightarrow> string) \<Rightarrow> string list \<Rightarrow> module_node \<Rightarrow> fstream \<Rightarrow> driver
       \<Rightarrow> module_node option option" where
  "include_files ts files parser path [] m fs d = Some (Some m)"
| "include_files ts files parser path (i # is) m fs d =
     (let fs1 = fs_open files (path i) fs
      in if st_open fs1 = None then Some None
         else let (src, fs2) = fs_read fs1
              in do { (m2, d1) \<leftarrow> driver_parse ts parser src d;
                      m2' \<leftarrow> m2;
                      include_files ts files parser path is (snd (merge_include ts m m2')) fs2 d1 })"

section \<open>Passes\<close>

type_synonym pass = "options \<Rightarrow> gen_module \<Rightarrow> (bool \<times> gen_module) option"

text \<open>The interface \<^verbatim>\<open>Pass\<close>, with the identifier resolver before and after \<^verbatim>\<open>set_report_unresolved\<close>.\<close>

record passes =
  ps_scope_builder :: pass
  ps_id_resolver :: "bool \<Rightarrow> pass"
  ps_unit_scope_builder :: pass
  ps_transform_resolver :: pass
  ps_inst_dep_resolver :: pass
  ps_inst_type_generator :: pass

fun run_passes :: "pass list \<Rightarrow> pass" where
  "run_passes [] opt m = Some (True, m)"
| "run_passes (p # ps) opt m = do { (ok, m1) \<leftarrow> p opt m; if ok then run_passes ps opt m1 else Some (False, m1) }"

definition executePasses :: "passes \<Rightarrow> pass" where
  "executePasses P =
     run_passes [ps_scope_builder P, ps_id_resolver P False, ps_unit_scope_builder P, ps_id_resolver P False,
       ps_transform_resolver P, ps_inst_dep_resolver P, ps_inst_type_generator P, ps_id_resolver P True]"

section \<open>The compiler\<close>

record compiler_options = options +
  opt_file :: string
  opt_name_space :: string
  opt_output_dir :: string

record paths =
  pa_parent :: "string \<Rightarrow> string"
  pa_stem :: "string \<Rightarrow> string"
  pa_append :: "string \<Rightarrow> string \<Rightarrow> string"

definition output_path :: "paths \<Rightarrow> compiler_options \<Rightarrow> string" where
  "output_path A opt =
     pa_append A (if opt_output_dir opt = [] then pa_parent A (opt_file opt) else opt_output_dir opt) (pa_stem A (opt_file opt))"

text \<open>The result of \<^verbatim>\<open>Compiler::run\<close>, which \<^verbatim>\<open>main\<close> returns as exit status, and the files that are written.\<close>

definition compile_module :: "boost \<Rightarrow> paths \<Rightarrow> passes \<Rightarrow> compiler_options \<Rightarrow> gen_module \<Rightarrow> (bool \<times> (string \<times> string) list) option" where
  "compile_module B A P opt m =
     do { (ok, gm) \<leftarrow> executePasses P (options.truncate opt) m;
          (if \<not> ok then Some (True, [])
           else do { (res, out) \<leftarrow> run_codegen B gm (options.truncate opt) (CodeGenerator (output_path A opt) (opt_name_space opt));
                     Some (False, out) }) }"

definition Compiler_run ::
    "boost \<Rightarrow> paths \<Rightarrow> passes \<Rightarrow> (string \<rightharpoonup> string) \<Rightarrow> (string \<Rightarrow> driver_call list) \<Rightarrow> type_store \<Rightarrow> compiler_options
       \<Rightarrow> (bool \<times> (string \<times> string) list) option" where
  "Compiler_run B A P files parser ts opt =
     (let fs = fs_open files (opt_file opt) fs_closed
      in if st_open fs = None then Some (True, [])
         else let (src, fs1) = fs_read fs
              in do { (m, d) \<leftarrow> driver_parse ts parser src Driver;
                      (case m of
                         None \<Rightarrow> Some (True, [])
                       | Some m0 \<Rightarrow>
                           do { r \<leftarrow> include_files ts files parser (pa_append A (pa_parent A (opt_file opt)))
                                       (rev (dr_includes d)) m0 (fs_close fs1) d;
                                (case r of
                                   None \<Rightarrow> Some (True, [])
                                 | Some m1 \<Rightarrow> compile_module B A P opt (module_node.extend m1 (gen_module.fields ts))) }) })"

section \<open>Modules\<close>

lemma mo_addDeclarations [simp]:
  "mo_decls (addDeclarations ts ds m) = mo_decls m @ ds" "mo_properties (addDeclarations ts ds m) = mo_properties m"
  "mo_id (addDeclarations ts ds m) = mo_id m"
proof -
  have step: "mo_decls (addDeclaration ts d m) = mo_decls m @ [d]" "mo_properties (addDeclaration ts d m) = mo_properties m"
    "mo_id (addDeclaration ts d m) = mo_id m" for d m
    by (simp_all add: addDeclaration_def Let_def split: decl.splits)
  show "mo_decls (addDeclarations ts ds m) = mo_decls m @ ds" "mo_properties (addDeclarations ts ds m) = mo_properties m"
    "mo_id (addDeclarations ts ds m) = mo_id m"
    by (induction ds arbitrary: m) (simp_all add: addDeclarations_def step)
qed

lemma mo_merge_include:
  "mo_decls (snd (merge_include ts m m2)) = mo_decls m2 @ mo_decls m" "mo_properties (snd (merge_include ts m m2)) = mo_properties m2"
  by (simp_all add: merge_include_def Let_def)

section \<open>Error counts\<close>

lemma driver_calls_errors: "driver_calls ts cs d = Some d1 \<Longrightarrow> dr_errors d1 = dr_errors d + count_list cs Error"
proof (induction ts cs d rule: driver_calls.induct)
  case (2 ts c cs d)
  then obtain d' where d': "on_call ts c d = Some d'" "driver_calls ts cs d' = Some d1" by (auto simp: bind_eq_Some_conv)
  have "dr_errors d' = dr_errors d + (if c = Error then 1 else 0)" using d'(1) by (cases c) (auto simp: bind_eq_Some_conv)
  then show ?case using 2(1)[OF d'] by auto
qed simp

lemma driver_parse_error:
  "Error \<in> set (parser src) \<Longrightarrow> driver_parse ts parser src d = Some (m, d1) \<Longrightarrow> m = None"
  by (auto simp: driver_parse_def bind_eq_Some_conv dest!: driver_calls_errors split: if_splits)
    (metis count_list_0_iff)

lemma include_stuck:
  assumes "Error \<in> set (parser [])" and "st_open fs \<noteq> None"
  shows "include_files ts files parser path (i # is) m fs d = None"
proof -
  obtain fs2 where fs: "st_open (fs_open files (path i) fs) \<noteq> None" "fs_read (fs_open files (path i) fs) = ([], fs2)"
    using assms(2) by (simp add: fs_open_def fs_read_def)
  show ?thesis
  proof (cases "driver_parse ts parser [] d")
    case None
    then show ?thesis using fs by (simp add: Let_def)
  next
    case (Some r)
    then have "fst r = None" using driver_parse_error[of parser "[]" ts d "fst r" "snd r"] assms(1) by simp
    then show ?thesis using fs Some by (cases r) (simp add: Let_def)
  qed
qed

section \<open>A sample\<close>

text \<open>A file that includes two others, a parser for these texts, and passes that succeed.\<close>

definition include_parser :: "string \<Rightarrow> driver_call list" where
  "include_parser src =
     (if src = ''main'' then [Set_module \<lparr>mo_id = [''Main''], mo_properties = [], mo_decls = [], mo_units = []\<rparr>, Include ''b.dgo'', Include ''a.dgo'']
      else if src = ''a'' then [Set_module \<lparr>mo_id = [''A''], mo_properties = [], mo_decls = [], mo_units = []\<rparr>]
      else [Error])"

definition include_paths :: paths where
  "include_paths = \<lparr>pa_parent = (\<lambda>p. []), pa_stem = (\<lambda>p. p), pa_append = (\<lambda>p q. p @ q)\<rparr>"

definition include_options :: compiler_options where
  "include_options = \<lparr>opt_instantiation_only = False, opt_input_pointers = False, opt_store_parsing_only = False,
     opt_file = ''main.dgo'', opt_name_space = ''ns'', opt_output_dir = []\<rparr>"

end
