(* ===== verification/Spec2Isabelle.thy ===== *)
theory Spec2Isabelle
  imports Unit_Area Parser_State Parse_Util Serialize_Util Data_Type Util_Escape Util_Path Dep_Retain Acyclic Compaction Kode_Printer Gen_Loss
    Name_Resolution Transform_Wire Compiler_Run
begin

text \<open>
  \<^bold>\<open>Diffingo\<close> is a compiler from protocol specifications (\<^verbatim>\<open>.dgo\<close> files) to C++ classes
  that parse and serialize the units of the protocol, together with the runtime those classes are
  linked against.  The compiler parses a file into a syntax tree, runs a sequence of passes over it that resolve names and
  build the compacted units of instantiations, and generates a class, a parser and a serializer for every
  unit with the code generation library libkode.  A generated parser is a function that can be
  interrupted when its input ends and resumed at a label kept in the parser state.

  \<^bold>\<open>Foundations.\<close>  \<open>Prelude\<close> has the shared lemmas on lists, options and words.  \<open>Decimal\<close> is the decimal text of numbers.
  Machine integers are words; pointers are 64-bit words into the byte store of \<open>Memory\<close>.  \<^const>\<open>None\<close> stands for undefined
  behaviour: a null pointer, a failed assertion, an uncaught exception, or a recursion that does not end.

  \<^bold>\<open>Runtime\<close> (\<^verbatim>\<open>src/src/runtime\<close>).
  \<^item> \<open>Allocator\<close>, \<open>Unit_Area\<close>: the bump allocator of \<^verbatim>\<open>unit/unit_area.h\<close> and the interface it
    implements; granted blocks are disjoint, a request is refused exactly when there is no room.
  \<^item> \<open>Call_Stack\<close>, \<open>Parser_State\<close>: the resumable state of \<^verbatim>\<open>parsing/parser_state.h\<close>; nested calls and returns
    behave as on a list of bounded length.
  \<^item> \<open>Int_Codec\<close>, \<open>Parse_Util\<close>, \<open>Serialize_Util\<close>: the primitives of \<^verbatim>\<open>parsing/util.h\<close> and
    \<^verbatim>\<open>serializing/util.h\<close>; every integer primitive against the value its bytes mean, and the round trip.
  \<^item> \<open>Data_Type\<close>: the members of generated units in \<^verbatim>\<open>unit/data_type.h\<close>.

  \<^bold>\<open>Utilities\<close> (\<^verbatim>\<open>src/src/util\<close>, \<^verbatim>\<open>src/externals/utf8proc\<close>): \<open>Util_String\<close>, \<open>Util_Number\<close>, \<open>Utf8\<close>,
  \<open>Util_Escape\<close>, \<open>Util_Path\<close>; round trips where they hold, and where they do not.

  \<^bold>\<open>Syntax tree\<close> (\<^verbatim>\<open>src/src/spec/ast\<close>).
  \<^item> \<open>Ident\<close>: \<^verbatim>\<open>id.cpp\<close>.  \<open>Ast\<close>: attributes, expressions, constants, types and unit items.  Types live in a store, so that sharing
    and replacing a type node in place are visible.
  \<^item> \<open>Unit_Length\<close>: accessors and serialized lengths of \<^verbatim>\<open>type/unit.cpp\<close>.  \<open>Clone\<close>: the clone methods.
  \<^item> \<open>Module\<close>: modules and declarations.  \<open>Scope\<close>: the scopes of \<^verbatim>\<open>scope.cpp\<close>.
  \<^item> \<open>Samples\<close>: a small specification on which properties are evaluated.

  \<^bold>\<open>Name resolution\<close> (\<^verbatim>\<open>src/src/generation/preprocessing\<close>).
  \<^item> \<open>Scope_Builder\<close>: \<^verbatim>\<open>scope_builder.cpp\<close> and \<^verbatim>\<open>unit_scope_builder.cpp\<close>.  \<open>Id_Resolver\<close>: the handlers of \<^verbatim>\<open>id_resolver.cpp\<close>, and
    \<^verbatim>\<open>transform_resolver.cpp\<close>.
  \<^item> \<open>Name_Resolution\<close>: the scope passes succeed, which names an item sees and what they resolve to, and that clashing names are errors.
    \<open>Transform_Wire\<close>: resolving transforms keeps the wire format.

  \<^bold>\<open>Instantiations\<close> (\<^verbatim>\<open>instantiation_dependency_resolver.cpp\<close>, \<^verbatim>\<open>instantiation_type_generator.cpp\<close>).
  \<^item> \<open>Dep_Map\<close>, \<open>Dep_Closure\<close>: the map of direct dependencies and its closure.  \<open>Dep_Retain\<close>: the builder records the
    paths of an expression, except those in tuple constants and in the arguments of calls, and fields that lengths mention are kept.
    \<open>Acyclic\<close>: when the builder and the length computations return.
  \<^item> \<open>Inst_Type\<close>: the compacted unit, and the pass over the declarations of a module.  \<open>Store_Local\<close>, \<open>Clone_Length\<close>,
    \<open>Compaction\<close>: it describes the same bytes, measured by a definition of widths of its own.  \<open>Inst_Pass\<close>: the pass only adds types to
    the store, and the compacted units are new.

  \<^bold>\<open>Generation\<close> (\<^verbatim>\<open>src/src/generation\<close>, \<^verbatim>\<open>src/externals/libkode\<close>).
  \<^item> \<open>Translate\<close>: the C++ text of types, names and expressions (\<^verbatim>\<open>output/*translator.cpp\<close>).
  \<^item> \<open>Kode_Code\<close>, \<open>Kode_Class\<close>, \<open>Kode_File\<close>, \<open>Kode_Printer\<close>: libkode.  The Boost string functions are fields of the record \<open>boost\<close>.
  \<^item> \<open>Gen_Code\<close>, \<open>Parser_Gen\<close>, \<open>Serializer_Gen\<close>: the generators, which emit statements; their text is that of the source's lines.
  \<^item> \<open>Code_Gen\<close>: \<^verbatim>\<open>output/code_generator.cpp\<close>.  \<open>Compiler_Run\<close>: \<^verbatim>\<open>compiler.cpp\<close> and the driver of the parser.

  \<^bold>\<open>Generated code.\<close>
  \<^item> \<open>Gen_Exec\<close>: the meaning of generated statements on the byte store, with the primitives of the runtime.  A parser state has
    room for a number of bytes of its stack, and a push without room is undefined; so are comparisons with a negative operand, whose
    meaning in C++ depends on the types of both.
  \<^item> \<open>Gen_Grammar\<close>, \<open>Gen_Leaf\<close>, \<open>Gen_Labels\<close>: the shape of generated functions; labels are distinct.
  \<^item> \<open>Gen_Resume\<close>, \<open>Incremental\<close>: parsing in pieces gives what parsing at once gives.
  \<^item> \<open>Wire\<close>, \<open>Gen_Decode\<close>, \<open>Gen_Encode\<close>: a specification of the wire format, which generated parsers and serializers implement.
  \<^item> \<open>Gen_Typed\<close>, \<open>Unit_Typing\<close>: a checker for generated code, its expressions, casts, members and blocks, which the output of the
    generators passes.
  \<^item> \<open>Gen_Loss\<close>: errors and properties that are lost on the way from the passes to the output.

  This theory adds the properties that need several of these: the round trip through a generated parser and the serializer generated
  for the same unit, and what the compiler does with included files.

  \<^bold>\<open>Bounds and fuel.\<close>  The length functions and the dependency builder follow field types and may not return; they have the number of nested
  units as fuel, which \<open>Acyclic\<close> shows to be enough as soon as it exceeds the nesting of the types, and no amount is enough for a unit that
  contains itself.  Other loops that need not end are partial functions, with a theorem where they do: \<open>strsplit\<close>, the closure loop,
  the lookup in a scope, which ends when the parents do.  Buffers in the theorems about generated code are shorter than \<open>2 ^ 63\<close>
  bytes, because beyond that the comparisons of the runtime are wrong (\<open>huge_length_passes_check\<close>).

  \<^bold>\<open>Parameters.\<close>  The layout of a unit class, which the C++ compiler chooses; Boost; the contents of the files; the parser that bison and flex
  generate from \<^verbatim>\<open>parser.yy\<close> and \<^verbatim>\<open>scanner.ll\<close>, as the calls it makes on the driver; the passes of the compiler behind
  their interface.  The only fact assumed of the generated parser is that it rejects the empty text, since the
  grammar starts with a module declaration.

  \<^bold>\<open>Not modelled.\<close>
  \<^item> The grammar and the scanner: their tables are generated when the program is built.
  \<^item> The in-place replacement of shared nodes during the traversal of the identifier resolver, its handling of unknown fields and lambdas:
    they change nodes while the traversal is under way, in the order in which the visitor meets them.
  \<^item> The rest of the syntax tree: rendering, printing and dumping, which only produce messages; coercion and types of expressions, which only the
    actions of the grammar use; reference counts and casts of nodes, for which the development has datatypes.
  \<^item> \<^verbatim>\<open>main.cpp\<close> (a Boost option parser and a call of the compiler), logging, the file system, clocks and stack traces.
  \<^item> The parts of libkode for licences, make files and state machines, and the sorting of classes, which no run of the compiler uses.
  \<^item> The measurement programs, tests and other third-party code of the repository.
\<close>

section \<open>Parser and serializer together\<close>

text \<open>C1: parsing followed by serializing is the identity on the wire.  When the bytes of a buffer
  contain a message of a unit of integers and byte strings, the generated parser, called with a state that has room for
  the blocks of the two functions, accepts it, and the
  generated serializer, called on the unit the parser has filled and with room for the message, reports
  \<open>DONE\<close>, the same number of bytes, and has written exactly the bytes that were parsed.  The updates of
  length fields at the start of the serializer store the values that are already there.\<close>

theorem parse_serialize_roundtrip:
  assumes gen: "run_parser env is cls s = Some (code, cls', s', ok)" "\<not> pg_input_pointer s"
      "run_serializer env is scls t = Some (scode, scls', t', sok)" "\<not> pg_input_pointer t"
    and wire: "map (wire_of env) (filter not_property is) = map Some ws" "fits L ws"
    and start: "mc_instr m = None" "area_wf (mc_area m)" "start \<le> fin" "room start fin < 2 ^ 63"
      "range_of start (room start fin) \<inter> area_arena (mc_area m) = {}"
      "ly_size L + room start fin \<le> unat (area_space (mc_area m))" and space: "2 * block_size < mc_space m"
    and msg: "wire_parse (ly_enumerator L) ws [] (load_bytes (mc_mem m) start (room start fin)) = WDone vs rest"
    and out: "out \<le> oend" "room out oend < 2 ^ 63" "range_of out (room out oend) \<inter> area_arena (mc_area m) = {}"
      "room start fin - length rest \<le> room out oend"
  shows "\<exists>m1 m2. exec L start fin (stmts code) m = Some (Inl P_DONE, m1) \<and>
     exec L out oend (stmts scode) (m1\<lparr>mc_instr := None\<rparr>) = Some (Inr S_DONE, m2) \<and> mc_count m2 = mc_count m1 \<and>
     load_bytes (mc_mem m2) out (room start fin - length rest) = load_bytes (mc_mem m) start (room start fin - length rest)"
proof -
  let ?n = "room start fin - length rest"
  obtain m1 where m1: "exec L start fin (stmts code) m = Some (Inl P_DONE, m1)" "mc_count m1 = of_nat ?n"
    "decoding L fin m1 vs rest" "area_arena (mc_area m1) = area_arena (mc_area m)" "mc_space m1 = mc_space m - block_size"
    using parser_decodes[OF gen(1,2) wire start] msg space by auto
  have room1: "block_size < mc_space m1" using m1(5) space by simp
  let ?A = "area_used (mc_area m1) - range_of (mc_unit m1) (ly_size L)"
  have bytes: "load_bytes (mc_mem m) start (room start fin) = wire_bytes vs @ rest"
    using wire_parse_bytes[OF msg] by (simp add: wire_bytes_def)
  from arg_cong[OF this, of length] have n: "length (wire_bytes vs) = ?n" and sum: "?n + length rest = room start fin" by simp_all
  have take: "load_bytes (mc_mem m) start ?n = wire_bytes vs"
    using bytes load_bytes_append[of "mc_mem m" start ?n "length rest"] n unfolding sum by simp
  have "range_of out (room out oend) \<inter> (?A \<union> range_of (mc_unit m1) (ly_size L)) = {}"
    using out(3) m1(3,4) used_in_arena[of "mc_area m1"] by (auto simp: decoding_def)
  moreover have "holds_all L ?A (m1\<lparr>mc_instr := None\<rparr>) vs" using m1(3) by (auto simp: decoding_def holds_all_def)
  moreover have "list_all2 wire_value_of vs ws" using wire_parse_shape[OF msg, of "[]"] by simp
  ultimately obtain m2 where "exec L out oend (stmts scode) (m1\<lparr>mc_instr := None\<rparr>) = Some (Inr S_DONE, m2)"
    "mc_count m2 = of_nat ?n" "load_bytes (mc_mem m2) out ?n = wire_bytes vs"
    using serializer_encodes[OF gen(3,4) wire _ wire_parse_lengths[OF msg], of ?A "m1\<lparr>mc_instr := None\<rparr>" out oend] out(1,2,4) n room1
    by auto
  then show ?thesis using m1(1,2) take by auto
qed

theorem parse_serialize_roundtrip_witness:
  "\<exists>cls code cls' s' ok scls scode scls' t' sok m1 m2.
     Class ''MessageParser'' [] = Some cls \<and> run_parser sample_env message_items cls ParserGenerator = Some (code, cls', s', ok) \<and>
     Class ''MessageSerializer'' [] = Some scls \<and> run_serializer sample_env message_items scls SerializerGenerator = Some (scode, scls', t', sok) \<and>
     exec sample_layout 0x100 0x105 (stmts code) sample_machine = Some (Inl P_DONE, m1) \<and>
     exec sample_layout 0x200 0x210 (stmts scode) (m1\<lparr>mc_instr := None\<rparr>) = Some (Inr S_DONE, m2) \<and>
     load_bytes (mc_mem m2) 0x200 5 = [0, 2, 7, 65, 66]"
proof -
  obtain cls scls where cls: "Class ''MessageParser'' [] = Some cls" "Class ''MessageSerializer'' [] = Some scls" by (simp add: Class_def)
  obtain code cls' s' ok where run: "run_parser sample_env message_items cls ParserGenerator = Some (code, cls', s', ok)"
    using sample_parser by blast
  obtain scode scls' t' sok where srun: "run_serializer sample_env message_items scls SerializerGenerator = Some (scode, scls', t', sok)"
    using sample_serializer by blast
  have room: "room 0x100 0x105 = 5" "room 0x200 0x210 = 16" by (simp_all add: room_def)
  have out: "range_of 0x200 16 \<inter> area_arena (mc_area sample_machine) = {}"
    using disjoint_rangesI[of "0x200" 16 "0x1010" 240] UnitArea_wf(3)[of 256 "0x1000"] by (simp add: disjoint_ranges_def sample_machine_def)
  have input: "load_bytes (mc_mem sample_machine) 0x100 5 = [0, 2, 7, 65, 66]" by (simp add: sample_machine_def load_bytes_def upt_rec)
  have "\<exists>m1 m2. exec sample_layout 0x100 0x105 (stmts code) sample_machine = Some (Inl P_DONE, m1) \<and>
     exec sample_layout 0x200 0x210 (stmts scode) (m1\<lparr>mc_instr := None\<rparr>) = Some (Inr S_DONE, m2) \<and> mc_count m2 = mc_count m1 \<and>
     load_bytes (mc_mem m2) 0x200 (room 0x100 0x105 - length ([] :: byte list)) =
     load_bytes (mc_mem sample_machine) 0x100 (room 0x100 0x105 - length ([] :: byte list))"
    by (rule parse_serialize_roundtrip[OF run _ srun _ sample_wires_of sample_fits _ sample_area(1), where vs = sample_values])
       (use sample_area(2,3) out sample_wire_parse in
         \<open>simp_all add: room ParserGenerator_def SerializerGenerator_def sample_machine_def sample_layout_def block_size_def\<close>)
  then show ?thesis using cls run srun input by (auto simp: room)
qed

section \<open>The compiler on included files\<close>

text \<open>C8: specifications with included files.  Let the file and the last file it includes parse.  If that is the only one, its
  declarations come before those of the specification, the properties are those of the included file only, and when the passes
  succeed the exit status is 0 whatever the code generator returns.  If there is another one, it is not even opened: the stream of the
  first is still open, so the parser gets an empty text, which it rejects because a specification starts
  with a module declaration, and the compiler dereferences a null pointer.\<close>

theorem included_files:
  assumes "files (opt_file opt) = Some src" and "driver_parse ts parser src Driver = Some (Some m, d)" and "dr_includes d = js @ [i]"
    and "files (pa_append A (pa_parent A (opt_file opt)) i) = Some src_i" and "driver_parse ts parser src_i d = Some (Some mi, d1)"
    and grammar: "Error \<in> set (parser [])"
  shows "\<exists>m1. mo_decls m1 = mo_decls mi @ mo_decls m \<and> mo_properties m1 = mo_properties mi \<and>
     Compiler_run B A P files parser ts opt = (if js = [] then compile_module B A P opt (module_node.extend m1 (gen_module.fields ts)) else None) \<and>
     (\<forall>gm r out. executePasses P (options.truncate opt) (module_node.extend m1 (gen_module.fields ts)) = Some (True, gm) \<longrightarrow>
        run_codegen B gm (options.truncate opt) (CodeGenerator (output_path A opt) (opt_name_space opt)) = Some (r, out) \<longrightarrow>
        compile_module B A P opt (module_node.extend m1 (gen_module.fields ts)) = Some (False, out))"
proof -
  let ?path = "pa_append A (pa_parent A (opt_file opt))" and ?m1 = "snd (merge_include ts m mi)"
  let ?fs = "\<lparr>st_open = Some src_i, st_fail = True\<rparr>"
  have stuck: "include_files ts files parser ?path (rev js) ?m1 ?fs d1 = (if js = [] then Some (Some ?m1) else None)"
    using include_stuck[of parser ?fs] grammar by (cases "rev js") auto
  have incl: "include_files ts files parser ?path (rev (dr_includes d)) m \<lparr>st_open = None, st_fail = True\<rparr> d =
     (if js = [] then Some (Some ?m1) else None)"
    using assms(3,4,5) stuck by (simp add: fs_open_def fs_read_def)
  have fs: "fs_open files (opt_file opt) fs_closed = \<lparr>st_open = Some src, st_fail = False\<rparr>"
    "fs_read \<lparr>st_open = Some src, st_fail = False\<rparr> = (src, \<lparr>st_open = Some src, st_fail = True\<rparr>)"
    "fs_close \<lparr>st_open = Some src, st_fail = True\<rparr> = \<lparr>st_open = None, st_fail = True\<rparr>"
    using assms(1) by (simp_all add: fs_open_def fs_read_def fs_close_def fs_closed_def)
  have "Compiler_run B A P files parser ts opt =
     (if js = [] then compile_module B A P opt (module_node.extend ?m1 (gen_module.fields ts)) else None)"
    using assms(2) by (simp add: Compiler_run_def fs incl)
  then show ?thesis
    by (intro exI[of _ ?m1]) (simp add: mo_merge_include compile_module_def)
qed

theorem included_files_witness:
  "\<forall>B P ts. Compiler_run B include_paths P [''main.dgo'' \<mapsto> ''main'', ''a.dgo'' \<mapsto> ''a'', ''b.dgo'' \<mapsto> ''a''] include_parser ts include_options = None"
proof (intro allI)
  fix B P ts
  let ?files = "[''main.dgo'' \<mapsto> ''main'', ''a.dgo'' \<mapsto> ''a'', ''b.dgo'' \<mapsto> ''a'']"
  let ?m = "\<lparr>mo_id = [''Main''], mo_properties = [], mo_decls = [], mo_units = []\<rparr>"
    and ?a = "\<lparr>mo_id = [''A''], mo_properties = [], mo_decls = [], mo_units = []\<rparr>"
  let ?d = "\<lparr>dr_module = Some ?m, dr_errors = 0, dr_includes = [''b.dgo'', ''a.dgo'']\<rparr>"
  have "\<exists>m1. mo_decls m1 = mo_decls ?a @ mo_decls ?m \<and> mo_properties m1 = mo_properties ?a \<and>
     Compiler_run B include_paths P ?files include_parser ts include_options =
       (if [''b.dgo''] = [] then compile_module B include_paths P include_options (module_node.extend m1 (gen_module.fields ts)) else None) \<and>
     (\<forall>gm r out. executePasses P (options.truncate include_options) (module_node.extend m1 (gen_module.fields ts)) = Some (True, gm) \<longrightarrow>
        run_codegen B gm (options.truncate include_options)
          (CodeGenerator (output_path include_paths include_options) (opt_name_space include_options)) = Some (r, out) \<longrightarrow>
        compile_module B include_paths P include_options (module_node.extend m1 (gen_module.fields ts)) = Some (False, out))"
    by (rule included_files[where src = "''main''" and src_i = "''a''" and i = "''a.dgo''" and d = "?d" and ?d1.0 = "?d\<lparr>dr_module := Some ?a\<rparr>"])
      (simp_all add: include_parser_def include_paths_def include_options_def driver_parse_def Driver_def)
  then show "Compiler_run B include_paths P ?files include_parser ts include_options = None" by auto
qed

end
